(* ===== verification/Prelude.thy ===== *)
theory Prelude
  imports Main "HOL-Library.Word"
begin

text \<open>
  Shared ground of the development: the result of a C++ call, the sequencing of calls, the
  busy-waiting mutexes of the code, the ordered containers of the standard library, byte
  buffers and C++ integer conversions, a small program logic that carries invariants through
  sequences of calls, and reachability for the step relations.  Nothing here models a file of
  the repository; every other theory builds on it.
\<close>

named_theorems op_simps \<open>equations that run a sequence of calls\<close>
named_theorems op_spec \<open>what one call of a component does on each branch\<close>
named_theorems keep_intros \<open>rules that carry an invariant through a sequence of calls\<close>

section \<open>Outcomes of a call\<close>

text \<open>
  A call ends normally (\<open>Done\<close>), or its thread waits in a \<open>while (!lock.try_lock())\<close> loop
  (\<open>Spin\<close>, with the state at which it waits, locks held included), or the call leaves the
  defined behaviour of C++ or raises (\<open>Fault\<close>).
\<close>

datatype fault =
    NullPointer
  | UseAfterFree
  | OutOfBounds
  | SignedOverflow
  | UncaughtException
  | LuaError
  | TypeConfusion

datatype ('a, 's) outcome = Done 'a 's | Spin 's | Fault fault 's

type_synonym ('s, 'a) op = "'s \<Rightarrow> ('a, 's) outcome"

fun final :: "('a, 's) outcome \<Rightarrow> 's" where
  "final (Done a s) = s"
| "final (Spin s) = s"
| "final (Fault e s) = s"

fun returns :: "('a, 's) outcome \<Rightarrow> bool" where
  "returns (Done a s) = True"
| "returns (Spin s) = False"
| "returns (Fault e s) = False"

definition ret :: "'a \<Rightarrow> ('s, 'a) op" where
  "ret a s = Done a s"

definition bind :: "('s, 'a) op \<Rightarrow> ('a \<Rightarrow> ('s, 'b) op) \<Rightarrow> ('s, 'b) op" where
  "bind m f s = (case m s of Done a t \<Rightarrow> f a t | Spin t \<Rightarrow> Spin t | Fault e t \<Rightarrow> Fault e t)"

abbreviation andthen :: "('s, 'a) op \<Rightarrow> ('s, 'b) op \<Rightarrow> ('s, 'b) op" where
  "andthen m k \<equiv> bind m (\<lambda>_. k)"

definition gets :: "('s \<Rightarrow> 'a) \<Rightarrow> ('s, 'a) op" where
  "gets f s = Done (f s) s"

definition modify :: "('s \<Rightarrow> 's) \<Rightarrow> ('s, unit) op" where
  "modify f s = Done () (f s)"

definition raise :: "fault \<Rightarrow> ('s, 'a) op" where
  "raise e s = Fault e s"

lemma ret_run [simp, op_simps]: "ret a s = Done a s"
  by (simp add: ret_def)

lemma gets_run [simp, op_simps]: "gets f s = Done (f s) s"
  by (simp add: gets_def)

lemma modify_run [simp, op_simps]: "modify f s = Done () (f s)"
  by (simp add: modify_def)

lemma raise_run [simp, op_simps]: "raise e s = Fault e s"
  by (simp add: raise_def)

lemma bind_Done [simp, op_simps]: "m s = Done a t \<Longrightarrow> bind m f s = f a t"
  by (simp add: bind_def)

lemma bind_Spin [simp, op_simps]: "m s = Spin t \<Longrightarrow> bind m f s = Spin t"
  by (simp add: bind_def)

lemma bind_Fault [simp, op_simps]: "m s = Fault e t \<Longrightarrow> bind m f s = Fault e t"
  by (simp add: bind_def)

lemma bind_assoc: "bind (bind m f) g = bind m (\<lambda>a. bind (f a) g)"
  by (rule ext) (simp add: bind_def split: outcome.split)

lemma bind_ret_left [simp]: "bind (ret a) f = f a"
  by (rule ext) simp

lemma bind_ret_right [simp]: "bind m ret = m"
  by (rule ext) (simp add: bind_def split: outcome.split)

lemma bind_Done_right [simp]: "bind m Done = m"
  by (rule ext) (simp add: bind_def split: outcome.split)

lemma bind_returns: "bind m f s = Done b u \<longleftrightarrow> (\<exists>a t. m s = Done a t \<and> f a t = Done b u)"
  by (simp add: bind_def split: outcome.split)

fun is_spin :: "('a, 's) outcome \<Rightarrow> bool" where
  "is_spin (Done a s) = False"
| "is_spin (Spin s) = True"
| "is_spin (Fault e s) = False"

text \<open>A call of a component run inside a larger state that holds the component's state.\<close>

definition zoom :: "('s \<Rightarrow> 't) \<Rightarrow> (('t \<Rightarrow> 't) \<Rightarrow> 's \<Rightarrow> 's) \<Rightarrow> ('t, 'a) op \<Rightarrow> ('s, 'a) op" where
  "zoom get upd m s =
     (case m (get s) of
        Done a t \<Rightarrow> Done a (upd (\<lambda>_. t) s)
      | Spin t \<Rightarrow> Spin (upd (\<lambda>_. t) s)
      | Fault e t \<Rightarrow> Fault e (upd (\<lambda>_. t) s))"

lemma zoom_Done [op_simps]: "m (get s) = Done a t \<Longrightarrow> zoom get upd m s = Done a (upd (\<lambda>_. t) s)"
  by (simp add: zoom_def)

lemma zoom_Spin [op_simps]: "m (get s) = Spin t \<Longrightarrow> zoom get upd m s = Spin (upd (\<lambda>_. t) s)"
  by (simp add: zoom_def)

lemma zoom_Fault [op_simps]:
  "m (get s) = Fault e t \<Longrightarrow> zoom get upd m s = Fault e (upd (\<lambda>_. t) s)"
  by (simp add: zoom_def)

lemma final_zoom: "final (zoom get upd m s) = upd (\<lambda>_. final (m (get s))) s"
  by (simp add: zoom_def split: outcome.split)

section \<open>Mutexes taken by busy waiting\<close>

text \<open>
  Every lock of the code is a \<open>std::mutex\<close> taken by
  \<open>while (!lock.try_lock()) sleep\<close> and released by \<open>unlock\<close>.  The state keeps one boolean
  per mutex; taking one that is held leaves the thread in its loop.
\<close>

definition acquire :: "('s \<Rightarrow> bool) \<Rightarrow> ((bool \<Rightarrow> bool) \<Rightarrow> 's \<Rightarrow> 's) \<Rightarrow> ('s, unit) op" where
  "acquire held upd s = (if held s then Spin s else Done () (upd (\<lambda>_. True) s))"

definition release :: "((bool \<Rightarrow> bool) \<Rightarrow> 's \<Rightarrow> 's) \<Rightarrow> ('s, unit) op" where
  "release upd s = Done () (upd (\<lambda>_. False) s)"

lemma acquire_free [simp, op_simps]: "\<not> held s \<Longrightarrow> acquire held upd s = Done () (upd (\<lambda>_. True) s)"
  by (simp add: acquire_def)

lemma acquire_held [simp, op_simps]: "held s \<Longrightarrow> acquire held upd s = Spin s"
  by (simp add: acquire_def)

lemma release_run [simp, op_simps]: "release upd s = Done () (upd (\<lambda>_. False) s)"
  by (simp add: release_def)

section \<open>Integer conversions and byte buffers\<close>

type_synonym bytes = "8 word list"

text \<open>Narrowing of a \<open>lua_Integer\<close> (64 bits, signed) to \<open>int32_t\<close> and to \<open>uint32_t\<close>.\<close>

definition to_i32 :: "int \<Rightarrow> int" where
  "to_i32 x = signed_take_bit 31 x"

definition to_u32 :: "int \<Rightarrow> 32 word" where
  "to_u32 x = word_of_int x"

definition i32_max :: int where
  "i32_max = 2147483647"

lemma to_i32_small: "- 2147483648 \<le> x \<Longrightarrow> x \<le> 2147483647 \<Longrightarrow> to_i32 x = x"
  by (simp add: to_i32_def signed_take_bit_int_eq_self)

lemma to_i32_range: "- 2147483648 \<le> to_i32 x \<and> to_i32 x \<le> 2147483647"
  using signed_take_bit_int_greater_eq_minus_exp [of 31 x] signed_take_bit_int_less_exp [of 31 x]
  by (simp add: to_i32_def)

text \<open>Post-increment of a signed 32-bit counter: past the maximum it is undefined.\<close>

definition post_incr :: "('s \<Rightarrow> int) \<Rightarrow> ((int \<Rightarrow> int) \<Rightarrow> 's \<Rightarrow> 's) \<Rightarrow> ('s, int) op" where
  "post_incr get upd s =
     (if get s = i32_max then Fault SignedOverflow s else Done (get s) (upd (\<lambda>i. i + 1) s))"

lemma post_incr_run [op_simps]:
  "get s \<noteq> i32_max \<Longrightarrow> post_incr get upd s = Done (get s) (upd (\<lambda>i. i + 1) s)"
  by (simp add: post_incr_def)

text \<open>\<open>vector::resize\<close>, \<open>memcpy\<close> from the start of one buffer to the start of another, \<open>memset\<close> 0.\<close>

definition resize :: "nat \<Rightarrow> bytes \<Rightarrow> bytes" where
  "resize n xs = take n xs @ replicate (n - length xs) 0"

definition memcpy :: "bytes \<Rightarrow> bytes \<Rightarrow> nat \<Rightarrow> ('s, bytes) op" where
  "memcpy dst src n s =
     (if n \<le> length dst \<and> n \<le> length src then Done (take n src @ drop n dst) s
      else Fault OutOfBounds s)"

definition zeroed :: "bytes \<Rightarrow> bytes" where
  "zeroed xs = replicate (length xs) 0"

lemma length_resize [simp]: "length (resize n xs) = n"
  by (simp add: resize_def)

lemma length_zeroed [simp]: "length (zeroed xs) = length xs"
  by (simp add: zeroed_def)

lemma memcpy_run [op_simps]:
  "n \<le> length dst \<Longrightarrow> n \<le> length src \<Longrightarrow> memcpy dst src n s = Done (take n src @ drop n dst) s"
  by (simp add: memcpy_def)

text \<open>What a C string read sees of a \<open>std::string\<close>: the part before the first NUL.\<close>

definition c_str :: "string \<Rightarrow> string" where
  "c_str t = takeWhile (\<lambda>c. c \<noteq> CHR 0x00) t"

section \<open>Ordered maps\<close>

text \<open>
  \<open>std::map\<close> as the list of its entries in iteration order.  \<open>insert\<close> keeps the entry that is
  already there, as the standard's does.
\<close>

type_synonym ('k, 'v) omap = "('k \<times> 'v) list"

abbreviation om_find :: "('k, 'v) omap \<Rightarrow> 'k \<Rightarrow> 'v option" where
  "om_find \<equiv> map_of"

fun om_insert :: "'k::linorder \<Rightarrow> 'v \<Rightarrow> ('k, 'v) omap \<Rightarrow> ('k, 'v) omap" where
  "om_insert k v [] = [(k, v)]"
| "om_insert k v (e # m) =
     (if k < fst e then (k, v) # e # m else if k = fst e then e # m else e # om_insert k v m)"

fun om_erase :: "'k \<Rightarrow> ('k, 'v) omap \<Rightarrow> ('k, 'v) omap" where
  "om_erase k [] = []"
| "om_erase k (e # m) = (if k = fst e then m else e # om_erase k m)"

definition om_wf :: "('k::linorder, 'v) omap \<Rightarrow> bool" where
  "om_wf m \<longleftrightarrow> sorted_wrt (<) (map fst m)"

lemma om_wf_Nil [simp]: "om_wf []"
  by (simp add: om_wf_def)

lemma om_wf_Cons [simp]: "om_wf (e # m) \<longleftrightarrow> (\<forall>k \<in> fst ` set m. fst e < k) \<and> om_wf m"
  by (simp add: om_wf_def)

lemma om_find_above: "\<forall>x \<in> fst ` set m. (k::'k::linorder) < x \<Longrightarrow> om_find m k = None"
  by (auto simp: map_of_eq_None_iff)

lemma fst_om_insert: "fst ` set (om_insert k v m) = insert k (fst ` set m)"
  by (induction m) auto

lemma fst_om_erase: "fst ` set (om_erase k m) \<subseteq> fst ` set m"
  by (induction m) auto

lemma om_wf_insert [simp, intro]: "om_wf m \<Longrightarrow> om_wf (om_insert k v m)"
  by (induction m) (auto simp: fst_om_insert)

lemma om_wf_erase [simp, intro]: "om_wf m \<Longrightarrow> om_wf (om_erase k m)"
  by (induction m) (use fst_om_erase in fastforce)+

lemma om_find_insert:
  "om_wf m \<Longrightarrow>
   om_find (om_insert k v m) = (if om_find m k = None then (om_find m)(k \<mapsto> v) else om_find m)"
proof (induction m)
  case Nil
  then show ?case by simp
next
  case (Cons e m)
  show ?case
  proof (cases "k < fst e")
    case True
    moreover have "om_find (e # m) k = None"
      using True Cons.prems by (intro om_find_above) auto
    ultimately show ?thesis by simp
  next
    case False
    with Cons show ?thesis by (cases e) (auto simp: fun_upd_twist)
  qed
qed

lemma om_find_erase: "om_wf m \<Longrightarrow> om_find (om_erase k m) = (om_find m)(k := None)"
proof (induction m)
  case Nil
  then show ?case by (simp add: fun_eq_iff)
next
  case (Cons e m)
  then have "om_find m (fst e) = None" by (intro om_find_above) auto
  with Cons show ?case by (cases e) (auto simp: fun_eq_iff)
qed

lemma length_om_insert:
  "om_wf m \<Longrightarrow> om_find m k = None \<Longrightarrow> length (om_insert k v m) = Suc (length m)"
  by (induction m) (auto split: if_splits)

lemma length_om_erase: "om_find m k = Some v \<Longrightarrow> length (om_erase k m) = length m - 1"
proof (induction m)
  case Nil
  then show ?case by simp
next
  case (Cons e m)
  show ?case
  proof (cases "k = fst e")
    case False
    with Cons have "length (om_erase k m) = length m - 1" "m \<noteq> []" by (auto split: if_splits)
    with False show ?thesis by (cases m) auto
  qed simp
qed

end
