(* ===== verification/Contracts.thy ===== *)
theory Contracts
  imports Prelude
begin

text \<open>
  The interfaces between components, each a locale with the laws its provider promises and the
  lemmas its clients use: a mutex kept in a field of the state, a \<open>std::map\<close>, a registry that
  hands out numbers for objects (the managers of TCP servers, TCP clients and websocket servers)
  and an inductive invariant of a step relation.  Also the program logic that carries an
  invariant through a sequence of calls.
\<close>

section \<open>Carrying an invariant through a sequence of calls\<close>

text \<open>
  \<open>keeps I R m\<close>: from a state that satisfies \<open>I\<close>, the state in which \<open>m\<close> ends, waits or faults
  satisfies \<open>I\<close> and is related to the first by \<open>R\<close>.
\<close>

definition keeps :: "('s \<Rightarrow> bool) \<Rightarrow> ('s \<Rightarrow> 's \<Rightarrow> bool) \<Rightarrow> ('s, 'a) op \<Rightarrow> bool" where
  "keeps I R m \<longleftrightarrow> (\<forall>s. I s \<longrightarrow> I (final (m s)) \<and> R s (final (m s)))"

lemma keepsI [intro?]:
  "(\<And>s. I s \<Longrightarrow> I (final (m s)) \<and> R s (final (m s))) \<Longrightarrow> keeps I R m"
  by (simp add: keeps_def)

lemma keepsD: "keeps I R m \<Longrightarrow> I s \<Longrightarrow> I (final (m s)) \<and> R s (final (m s))"
  by (simp add: keeps_def)

lemma keeps_ret [keep_intros]: "reflp R \<Longrightarrow> keeps I R (ret a)"
  by (simp add: keeps_def reflp_def)

lemma keeps_bind [keep_intros]:
  assumes m: "keeps I R m" and f: "\<And>a. keeps I R (f a)" and R: "transp R"
  shows "keeps I R (bind m f)"
proof (rule keepsI)
  fix s assume I: "I s"
  show "I (final (bind m f s)) \<and> R s (final (bind m f s))"
  proof (cases "m s")
    case (Done a t)
    with keepsD [OF m I] have t: "I t" "R s t" by auto
    with keepsD [OF f [of a] t(1)] Done R show ?thesis by (auto dest: transpD)
  next
    case (Spin t)
    with keepsD [OF m I] show ?thesis by simp
  next
    case (Fault e t)
    with keepsD [OF m I] show ?thesis by simp
  qed
qed

section \<open>A mutex in a field of the state\<close>

locale lock_field =
  fixes held :: "'s \<Rightarrow> bool" and upd :: "(bool \<Rightarrow> bool) \<Rightarrow> 's \<Rightarrow> 's"
  assumes held_upd: "held (upd f s) = f (held s)"
    and upd_upd: "upd f (upd g s) = upd (\<lambda>b. f (g b)) s"
    and upd_same: "upd (\<lambda>_. held s) s = s"
begin

lemma upd_False_free: "\<not> held s \<Longrightarrow> upd (\<lambda>_. False) s = s"
  using upd_same [of s] by simp

lemma acquire_release:
  "\<not> held s \<Longrightarrow> andthen (acquire held upd) (andthen (release upd) k) s = k s"
  by (simp add: held_upd upd_upd upd_False_free)

lemma reacquire_spins: "acquire held upd s = Done u t \<Longrightarrow> acquire held upd t = Spin t"
  by (auto simp: acquire_def held_upd split: if_splits)

lemma release_frees: "release upd s = Done u t \<Longrightarrow> \<not> held t"
  by (auto simp: held_upd)

end

section \<open>\<open>std::map\<close>\<close>

locale std_map =
  fixes find :: "'m \<Rightarrow> 'k::linorder \<Rightarrow> 'v option"
    and ins :: "'k \<Rightarrow> 'v \<Rightarrow> 'm \<Rightarrow> 'm"
    and era :: "'k \<Rightarrow> 'm \<Rightarrow> 'm"
    and ok :: "'m \<Rightarrow> bool"
  assumes ok_ins: "ok m \<Longrightarrow> ok (ins k v m)"
    and ok_era: "ok m \<Longrightarrow> ok (era k m)"
    and find_ins: "ok m \<Longrightarrow> find (ins k v m) = (if find m k = None then (find m)(k \<mapsto> v) else find m)"
    and find_era: "ok m \<Longrightarrow> find (era k m) = (find m)(k := None)"
begin

lemma find_ins_fresh: "ok m \<Longrightarrow> find m k = None \<Longrightarrow> find (ins k v m) = (find m)(k \<mapsto> v)"
  by (simp add: find_ins)

lemma ins_keeps: "ok m \<Longrightarrow> find m k = Some w \<Longrightarrow> find (ins k v m) = find m"
  by (simp add: find_ins)

lemma dom_ins: "ok m \<Longrightarrow> dom (find (ins k v m)) = insert k (dom (find m))"
  by (auto simp: find_ins)

lemma dom_era: "ok m \<Longrightarrow> dom (find (era k m)) = dom (find m) - {k}"
  by (auto simp: find_era)

lemma counter_fresh: "\<forall>k \<in> dom (find m). k < n \<Longrightarrow> find m n = None"
  by fastforce

lemma counter_ins:
  "ok m \<Longrightarrow> \<forall>k \<in> dom (find m). k < n \<Longrightarrow> n < n' \<Longrightarrow> \<forall>k \<in> dom (find (ins n v m)). k < n'"
  by (auto simp: dom_ins intro: less_trans)

lemma counter_era: "ok m \<Longrightarrow> \<forall>k \<in> dom (find m). k < n \<Longrightarrow> \<forall>k \<in> dom (find (era i m)). k < n"
  by (auto simp: dom_era)

end

interpretation om: std_map om_find om_insert om_erase om_wf
  by unfold_locales (auto simp: om_find_insert om_find_erase)

section \<open>A registry of numbered objects\<close>

text \<open>
  The managers hand out a number for each object they create, find the object of a number and
  forget it.  A run of such calls is a list of commands with the list of their results.
\<close>

datatype reg_cmd = RNew | RGet int | RDestroy int

datatype 'v reg_res = RId int | RPtr "'v option" | RUnit

fun run_all :: "('c \<Rightarrow> ('s, 'r) op) \<Rightarrow> 'c list \<Rightarrow> ('s, 'r list) op" where
  "run_all ex [] = ret []"
| "run_all ex (c # cs) = bind (ex c) (\<lambda>r. bind (run_all ex cs) (\<lambda>rs. ret (r # rs)))"

fun reg_exec ::
  "('s, int) op \<Rightarrow> (int \<Rightarrow> ('s, 'v option) op) \<Rightarrow> (int \<Rightarrow> ('s, unit) op) \<Rightarrow> reg_cmd \<Rightarrow> ('s, 'v reg_res) op"
where
  "reg_exec mk lkp rm RNew = bind mk (\<lambda>i. ret (RId i))"
| "reg_exec mk lkp rm (RGet i) = bind (lkp i) (\<lambda>p. ret (RPtr p))"
| "reg_exec mk lkp rm (RDestroy i) = andthen (rm i) (ret RUnit)"

fun reg_ids :: "'v reg_res list \<Rightarrow> int list" where
  "reg_ids [] = []"
| "reg_ids (RId i # rs) = i # reg_ids rs"
| "reg_ids (r # rs) = reg_ids rs"

locale id_registry =
  fixes mk :: "('s, int) op"
    and lkp :: "int \<Rightarrow> ('s, 'v option) op"
    and rm :: "int \<Rightarrow> ('s, unit) op"
    and table :: "'s \<Rightarrow> int \<Rightarrow> 'v option"
    and next_id :: "'s \<Rightarrow> int"
    and ready :: "'s \<Rightarrow> bool"
  assumes bounded: "ready s \<Longrightarrow> table s i \<noteq> None \<Longrightarrow> i < next_id s"
    and new_step: "ready s \<Longrightarrow> next_id s \<noteq> i32_max \<Longrightarrow>
      \<exists>v t. mk s = Done (next_id s) t \<and> ready t \<and> table t = (table s)(next_id s \<mapsto> v) \<and>
            next_id t = next_id s + 1"
    and new_full: "ready s \<Longrightarrow> next_id s = i32_max \<Longrightarrow> mk s = Fault SignedOverflow s"
    and get_step: "ready s \<Longrightarrow> lkp i s = Done (table s i) s"
    and del_step: "ready s \<Longrightarrow>
      \<exists>t. rm i s = Done () t \<and> ready t \<and> table t = (table s)(i := None) \<and> next_id t = next_id s"
begin

abbreviation exec :: "reg_cmd \<Rightarrow> ('s, 'v reg_res) op" where
  "exec \<equiv> reg_exec mk lkp rm"

lemma exec_cases:
  assumes "ready s" and "exec c s = Done r t"
  obtains (new) v where "c = RNew" "r = RId (next_id s)" "ready t" "next_id t = next_id s + 1"
      "table t = (table s)(next_id s \<mapsto> v)"
    | (get) i where "c = RGet i" "r = RPtr (table s i)" "t = s"
    | (del) i where "c = RDestroy i" "r = RUnit" "ready t" "next_id t = next_id s"
      "table t = (table s)(i := None)"
proof (cases c)
  case RNew
  show ?thesis
  proof (cases "next_id s = i32_max")
    case True
    with assms RNew new_full show ?thesis by simp
  next
    case False
    with assms(1) obtain v t' where t': "mk s = Done (next_id s) t'" "ready t'"
        "table t' = (table s)(next_id s \<mapsto> v)" "next_id t' = next_id s + 1"
      using new_step by blast
    with assms(2) RNew have "r = RId (next_id s)" "t = t'" by simp_all
    with t' RNew show ?thesis by (intro new) simp_all
  qed
next
  case (RGet i)
  with assms have "r = RPtr (table s i)" "t = s" by (auto simp: get_step)
  with RGet show ?thesis by (intro get)
next
  case (RDestroy i)
  from assms(1) obtain t' where t': "rm i s = Done () t'" "ready t'"
      "table t' = (table s)(i := None)" "next_id t' = next_id s"
    using del_step by blast
  with assms(2) RDestroy have "r = RUnit" "t = t'" by simp_all
  with t' RDestroy show ?thesis by (intro del) simp_all
qed

lemma ids_of_run:
  assumes "ready s" and "run_all exec cs s = Done rs t"
  shows "reg_ids rs = [next_id s .. next_id t - 1] \<and> next_id s \<le> next_id t \<and> ready t"
  using assms
proof (induction cs arbitrary: s rs)
  case (Cons c cs)
  then obtain r u rs' where c: "exec c s = Done r u" and cs: "run_all exec cs u = Done rs' t"
    and rs: "rs = r # rs'"
    by (auto simp: bind_returns)
  from Cons.prems(1) c show ?case
  proof (cases rule: exec_cases)
    case (new v)
    with Cons.IH [OF _ cs] rs show ?thesis by (simp add: upto_rec1)
  next
    case (get i)
    with Cons.IH [OF _ cs] Cons.prems rs show ?thesis by simp
  next
    case (del i)
    with Cons.IH [OF _ cs] rs show ?thesis by simp
  qed
qed simp

lemma run_returns:
  assumes "ready s" and "next_id s + int (length cs) \<le> i32_max"
  shows "\<exists>rs t. run_all exec cs s = Done rs t \<and> ready t"
  using assms
proof (induction cs arbitrary: s)
  case (Cons c cs)
  have "\<exists>r u. exec c s = Done r u \<and> ready u \<and> next_id u \<le> next_id s + 1"
  proof (cases c)
    case RNew
    with Cons.prems new_step [of s] show ?thesis by auto
  next
    case (RGet i)
    with Cons.prems show ?thesis by (simp add: get_step)
  next
    case (RDestroy i)
    with Cons.prems del_step [of s i] show ?thesis by auto
  qed
  then obtain r u where u: "exec c s = Done r u" "ready u" "next_id u \<le> next_id s + 1" by blast
  with Cons.prems Cons.IH [of u] show ?case by auto
qed simp

lemma get_in_table:
  "ready s \<Longrightarrow> exec (RGet i) s = Done (RPtr (table s i)) s"
  by (simp add: get_step)

lemma gone_stays_gone:
  assumes "ready s" and "i < next_id s" and "table s i = None" and "run_all exec cs s = Done rs t"
  shows "table t i = None"
  using assms
proof (induction cs arbitrary: s rs)
  case (Cons c cs)
  then obtain r u rs' where c: "exec c s = Done r u" and cs: "run_all exec cs u = Done rs' t"
    by (auto simp: bind_returns)
  from Cons.prems(1) c show ?case
  proof (cases rule: exec_cases)
    case (new v)
    with Cons.prems Cons.IH [OF _ _ _ cs] show ?thesis by simp
  next
    case (get j)
    with Cons.prems Cons.IH [OF _ _ _ cs] show ?thesis by simp
  next
    case (del j)
    with Cons.prems Cons.IH [OF _ _ _ cs] show ?thesis by simp
  qed
qed simp

lemma destroyed_forever:
  assumes "ready s" and "i < next_id s" and "rm i s = Done () t" and "run_all exec cs t = Done rs u"
  shows "lkp i u = Done None u"
proof -
  from assms(1,3) del_step [of s i] have t: "ready t" "table t i = None" "next_id t = next_id s"
    by auto
  with assms have "table u i = None" by (intro gone_stays_gone [OF _ _ _ assms(4)]) auto
  moreover have "ready u" using ids_of_run [OF t(1) assms(4)] by simp
  ultimately show ?thesis by (simp add: get_step)
qed

end

section \<open>Reachable states and inductive invariants\<close>

inductive reach :: "('s \<Rightarrow> bool) \<Rightarrow> ('s \<Rightarrow> 's \<Rightarrow> bool) \<Rightarrow> 's \<Rightarrow> bool" for starts steps where
  reach_start: "starts s \<Longrightarrow> reach starts steps s"
| reach_step: "reach starts steps s \<Longrightarrow> steps s t \<Longrightarrow> reach starts steps t"

locale inductive_invariant =
  fixes starts :: "'s \<Rightarrow> bool" and steps :: "'s \<Rightarrow> 's \<Rightarrow> bool" and inv :: "'s \<Rightarrow> bool"
  assumes inv_start: "starts s \<Longrightarrow> inv s"
    and inv_step: "inv s \<Longrightarrow> steps s t \<Longrightarrow> inv t"
begin

lemma always: "reach starts steps s \<Longrightarrow> inv s"
  by (induction rule: reach.induct) (auto intro: inv_start inv_step)

end

end
