(* ===== verification/ServiceMsg.thy ===== *)
theory ServiceMsg
  imports Contracts
begin

text \<open>
  \<open>src/service/msg\<close>: the message that services exchange and the pool that recycles messages.
  A \<open>shared_ptr<ServiceMsg>\<close> is the message itself: each caller hands its pointer on and drops
  it, so no two holders of one message ever write to it.  \<open>make_shared<ServiceMsg>()\<close>
  value-initialises, so a new message is zero but for its 4096-byte buffer.
\<close>

section \<open>Messages\<close>

datatype ServiceMsgType =
    MsgNone
  | MsgClose
  | MsgTimer
  | MsgLua
  | MsgLuaResponse
  | MsgHttpClient
  | MsgWebsocketServer
  | MsgTcpServer
  | MsgTcpClient

fun msg_type_code :: "ServiceMsgType \<Rightarrow> 32 word" where
  "msg_type_code MsgNone = 0"
| "msg_type_code MsgClose = 1"
| "msg_type_code MsgTimer = 2"
| "msg_type_code MsgLua = 3"
| "msg_type_code MsgLuaResponse = 4"
| "msg_type_code MsgHttpClient = 5"
| "msg_type_code MsgWebsocketServer = 6"
| "msg_type_code MsgTcpServer = 8"
| "msg_type_code MsgTcpClient = 9"

record service_msg =
  msg_source :: "32 word"
  msg_session :: "32 word"
  msg_type :: "32 word"
  msg_status :: "32 word"
  msg_fd :: "32 word"
  msg_dataLen :: nat
  msg_isOk :: bool
  msg_data :: bytes
  msg_error :: string

definition new_msg :: service_msg where
  "new_msg = \<lparr>msg_source = 0, msg_session = 0, msg_type = 0, msg_status = 0, msg_fd = 0,
              msg_dataLen = 0, msg_isOk = False, msg_data = replicate 4096 0, msg_error = []\<rparr>"

text \<open>\<open>ServiceMsg::reset\<close>: every field but \<open>fd\<close>.\<close>

definition ServiceMsg_reset :: "service_msg \<Rightarrow> service_msg" where
  "ServiceMsg_reset m = m\<lparr>msg_source := 0, msg_session := 0, msg_type := 0, msg_status := 0,
     msg_dataLen := 0, msg_isOk := False, msg_data := zeroed (msg_data m), msg_error := []\<rparr>"

text \<open>The bytes a message carries fit into its buffer.\<close>

definition msg_ok :: "service_msg \<Rightarrow> bool" where
  "msg_ok m \<longleftrightarrow> msg_dataLen m \<le> length (msg_data m) \<and> 0 < length (msg_data m)"

lemma msg_ok_new [simp]: "msg_ok new_msg"
  by (simp add: msg_ok_def new_msg_def)

lemma msg_ok_reset [simp]: "msg_ok m \<Longrightarrow> msg_ok (ServiceMsg_reset m)"
  by (simp add: msg_ok_def ServiceMsg_reset_def)

section \<open>The pool\<close>

record msg_pool =
  mPool :: "service_msg list"
  mPoolLock :: bool

interpretation pool_lock: lock_field mPoolLock mPoolLock_update
  by unfold_locales simp_all

text \<open>
  The constructor counts with an \<open>int\<close> up to a \<open>uint32_t\<close>, so \<open>2^31\<close> messages or more run the
  counter over.
\<close>

definition ServiceMsgPool_ctor :: "32 word \<Rightarrow> ('s, msg_pool) op" where
  "ServiceMsgPool_ctor num =
     (if 2 ^ 31 \<le> unat num then raise SignedOverflow
      else ret \<lparr>mPool = replicate (unat num) new_msg, mPoolLock = False\<rparr>)"

definition ServiceMsgPool_newInst :: "32 word \<Rightarrow> (msg_pool option, msg_pool) op" where
  "ServiceMsgPool_newInst num =
     bind (gets id) (\<lambda>inst.
       case inst of
         None \<Rightarrow> bind (ServiceMsgPool_ctor num) (\<lambda>p. andthen (modify (\<lambda>_. Some p)) (ret p))
       | Some p \<Rightarrow> ret p)"

definition ServiceMsgPool_push :: "service_msg \<Rightarrow> (msg_pool, unit) op" where
  "ServiceMsgPool_push value =
     andthen (acquire mPoolLock mPoolLock_update)
    (andthen (modify (\<lambda>p. p\<lparr>mPool := mPool p @ [ServiceMsg_reset value]\<rparr>))
             (release mPoolLock_update))"

text \<open>\<open>pop\<close> takes the lock and, on both of its branches, returns without unlocking it.\<close>

definition ServiceMsgPool_pop :: "(msg_pool, service_msg) op" where
  "ServiceMsgPool_pop =
     andthen (acquire mPoolLock mPoolLock_update)
    (bind (gets mPool) (\<lambda>q.
       case q of
         [] \<Rightarrow> ret new_msg
       | m # ms \<Rightarrow> andthen (modify (\<lambda>p. p\<lparr>mPool := ms\<rparr>)) (ret m)))"

lemma push_held [op_spec]: "mPoolLock p \<Longrightarrow> ServiceMsgPool_push v p = Spin p"
  by (simp add: ServiceMsgPool_push_def)

lemma push_free [op_spec]:
  "\<not> mPoolLock p \<Longrightarrow>
   ServiceMsgPool_push v p = Done () (p\<lparr>mPool := mPool p @ [ServiceMsg_reset v]\<rparr>)"
  by (simp add: ServiceMsgPool_push_def)

lemma pop_held [op_spec]: "mPoolLock p \<Longrightarrow> ServiceMsgPool_pop p = Spin p"
  by (simp add: ServiceMsgPool_pop_def)

lemma pop_free [op_spec]:
  "\<not> mPoolLock p \<Longrightarrow>
   ServiceMsgPool_pop p =
     Done (case mPool p of [] \<Rightarrow> new_msg | m # ms \<Rightarrow> m) (p\<lparr>mPool := tl (mPool p), mPoolLock := True\<rparr>)"
  by (simp add: ServiceMsgPool_pop_def split: list.split)

lemma pop_cases:
  "ServiceMsgPool_pop p =
     (if mPoolLock p then Spin p
      else Done (case mPool p of [] \<Rightarrow> new_msg | m # ms \<Rightarrow> m)
                (p\<lparr>mPool := tl (mPool p), mPoolLock := True\<rparr>))"
  by (simp add: pop_held pop_free)

text \<open>Every message the pool holds is a reset one that fits its buffer.\<close>

definition pool_ok :: "msg_pool \<Rightarrow> bool" where
  "pool_ok p \<longleftrightarrow> (\<forall>m \<in> set (mPool p). msg_ok m \<and> ServiceMsg_reset m = m)"

lemma reset_new: "ServiceMsg_reset new_msg = new_msg"
  by (simp add: ServiceMsg_reset_def new_msg_def zeroed_def)

lemma reset_reset: "ServiceMsg_reset (ServiceMsg_reset m) = ServiceMsg_reset m"
  by (simp add: ServiceMsg_reset_def zeroed_def)

lemma pool_ok_pop:
  "pool_ok p \<Longrightarrow> ServiceMsgPool_pop p = Done m q \<Longrightarrow> pool_ok q \<and> msg_ok m \<and> ServiceMsg_reset m = m"
  by (auto simp: pop_cases pool_ok_def reset_new split: if_splits list.splits)

lemma pool_ok_push: "pool_ok p \<Longrightarrow> msg_ok v \<Longrightarrow> ServiceMsgPool_push v p = Done () q \<Longrightarrow> pool_ok q"
  by (cases "mPoolLock p") (auto simp: push_held push_free pool_ok_def reset_reset)

section \<open>Runs of pool calls\<close>

datatype pool_cmd = Push service_msg | Pop

fun pool_exec :: "pool_cmd \<Rightarrow> (msg_pool, service_msg option) op" where
  "pool_exec (Push v) = andthen (ServiceMsgPool_push v) (ret None)"
| "pool_exec Pop = bind ServiceMsgPool_pop (\<lambda>m. ret (Some m))"

lemma held_run_spins: "mPoolLock p \<Longrightarrow> cs \<noteq> [] \<Longrightarrow> run_all pool_exec cs p = Spin p"
proof (cases cs)
  case (Cons c cs')
  assume "mPoolLock p"
  with Cons show ?thesis by (cases c) (simp_all add: push_held pop_held)
qed simp

text \<open>
  C8: a run of pool calls on a pool whose lock is free comes to its end exactly when it takes no
  message before its last call.  The first \<open>pop\<close> keeps the mutex for ever: whatever call comes
  next, from any thread, waits in its \<open>try_lock\<close> loop without end.
\<close>

theorem pool_run_ends_iff:
  assumes "\<not> mPoolLock p"
  shows "returns (run_all pool_exec cs p) \<longleftrightarrow> Pop \<notin> set (butlast cs)"
  using assms
proof (induction cs arbitrary: p)
  case (Cons c cs)
  show ?case
  proof (cases c)
    case (Push v)
    with Cons.prems have "run_all pool_exec (c # cs) p =
        bind (run_all pool_exec cs) (\<lambda>rs. ret (None # rs)) (p\<lparr>mPool := mPool p @ [ServiceMsg_reset v]\<rparr>)"
      by (simp add: push_free)
    then have "returns (run_all pool_exec (c # cs) p) =
        returns (run_all pool_exec cs (p\<lparr>mPool := mPool p @ [ServiceMsg_reset v]\<rparr>))"
      by (simp add: bind_def split: outcome.split)
    with Cons Push show ?thesis by simp
  next
    case Pop
    then show ?thesis
      using Cons.prems held_run_spins [of "p\<lparr>mPool := tl (mPool p), mPoolLock := True\<rparr>" cs]
      by (cases "cs = []") (simp_all add: pop_free)
  qed
qed simp

theorem pool_run_ends_iff_witness:
  "returns (run_all pool_exec [Push new_msg, Pop] \<lparr>mPool = [], mPoolLock = False\<rparr>) \<and>
   \<not> returns (run_all pool_exec [Pop, Push new_msg] \<lparr>mPool = [], mPoolLock = False\<rparr>)"
  using pool_run_ends_iff [of "\<lparr>mPool = [], mPoolLock = False\<rparr>" "[Push new_msg, Pop]"]
    pool_run_ends_iff [of "\<lparr>mPool = [], mPoolLock = False\<rparr>" "[Pop, Push new_msg]"]
  by simp

text \<open>
  What a message given back to an empty pool looks like when it is taken out again: as a new
  one, except that the \<open>fd\<close> of its last use is still there (\<open>reset\<close> skips it) and the buffer has
  its old size, all zero.
\<close>

theorem recycled_msg:
  assumes "\<not> mPoolLock p" and "mPool p = []"
  shows "run_all pool_exec [Push m, Pop] p =
    Done [None, Some (new_msg\<lparr>msg_fd := msg_fd m, msg_data := replicate (length (msg_data m)) 0\<rparr>)]
      (p\<lparr>mPoolLock := True\<rparr>)"
  using assms
  by (simp add: push_free pop_free ServiceMsg_reset_def new_msg_def zeroed_def)

theorem recycled_msg_witness:
  "run_all pool_exec [Push (new_msg\<lparr>msg_fd := 7\<rparr>), Pop] \<lparr>mPool = [], mPoolLock = False\<rparr> =
   Done [None, Some (new_msg\<lparr>msg_fd := 7\<rparr>)] \<lparr>mPool = [], mPoolLock = True\<rparr>"
  using recycled_msg [of "\<lparr>mPool = [], mPoolLock = False\<rparr>" "new_msg\<lparr>msg_fd := 7\<rparr>"]
  by (simp add: new_msg_def)

end
