(* ===== verification/Workers.thy ===== *)
theory Workers
  imports Contracts
begin

text \<open>
  \<open>src/worker\<close>: the worker threads' table.  A \<open>Worker*\<close> is the worker's position in \<open>mWorkers\<close>,
  a \<open>Service*\<close> is an address (a \<open>nat\<close>) of the service heap of \<open>Runtime\<close>.  The thread that each
  worker runs is in \<open>Scheduler\<close>.
\<close>

type_synonym ptr = nat

record worker =
  wId :: int
  mIsRun :: bool
  mService :: "ptr option"

record worker_mgr =
  mFreeWorkers :: "(nat, bool) omap"
  mWorkers :: "worker list"
  mWorkerLock :: bool

interpretation worker_lock: lock_field mWorkerLock mWorkerLock_update
  by unfold_locales simp_all

definition Worker_ctor :: "int \<Rightarrow> worker" where
  "Worker_ctor i = \<lparr>wId = i, mIsRun = True, mService = None\<rparr>"

definition Worker_getService :: "worker \<Rightarrow> ptr option" where
  "Worker_getService w = mService w"

definition Worker_setService :: "ptr option \<Rightarrow> worker \<Rightarrow> worker" where
  "Worker_setService value w = w\<lparr>mService := value\<rparr>"

definition empty_worker_mgr :: worker_mgr where
  "empty_worker_mgr = \<lparr>mFreeWorkers = [], mWorkers = [], mWorkerLock = False\<rparr>"

fun init_loop :: "int list \<Rightarrow> worker_mgr \<Rightarrow> worker_mgr" where
  "init_loop [] wm = wm"
| "init_loop (i # is) wm =
     init_loop is (wm\<lparr>mWorkers := mWorkers wm @ [Worker_ctor i],
                      mFreeWorkers := om_insert (nat i) True (mFreeWorkers wm)\<rparr>)"

definition WorkerMgr_initWorker :: "int \<Rightarrow> (worker_mgr, unit) op" where
  "WorkerMgr_initWorker num = modify (init_loop [1 .. num])"

definition WorkerMgr_getWorker :: "nat \<Rightarrow> (worker_mgr, nat option) op" where
  "WorkerMgr_getWorker i =
     gets (\<lambda>wm. if i < 1 \<or> i > length (mWorkers wm) then None else Some (i - 1))"

definition WorkerMgr_useWorker :: "(worker_mgr, nat) op" where
  "WorkerMgr_useWorker =
     andthen (acquire mWorkerLock mWorkerLock_update)
    (bind (gets mFreeWorkers) (\<lambda>m.
       case m of
         [] \<Rightarrow> andthen (release mWorkerLock_update) (ret 0)
       | (i, b) # rest \<Rightarrow>
           andthen (modify (\<lambda>wm. wm\<lparr>mFreeWorkers := rest\<rparr>))
          (andthen (release mWorkerLock_update) (ret i))))"

definition WorkerMgr_freeWorker :: "nat \<Rightarrow> (worker_mgr, unit) op" where
  "WorkerMgr_freeWorker i =
     bind (gets mWorkers) (\<lambda>ws.
       if i < 1 \<or> i > length ws then ret ()
       else andthen (acquire mWorkerLock mWorkerLock_update)
           (andthen (modify (\<lambda>wm. wm\<lparr>mFreeWorkers := om_insert i True (mFreeWorkers wm)\<rparr>))
                    (release mWorkerLock_update)))"

text \<open>The loop of \<open>getServiceWorker\<close>: the first worker whose service is \<open>value\<close>.\<close>

fun find_service :: "ptr option \<Rightarrow> worker list \<Rightarrow> nat \<Rightarrow> nat option" where
  "find_service value [] i = None"
| "find_service value (w # ws) i =
     (if Worker_getService w = value then Some i else find_service value ws (Suc i))"

definition WorkerMgr_getServiceWorker :: "ptr option \<Rightarrow> (worker_mgr, nat option) op" where
  "WorkerMgr_getServiceWorker value =
     andthen (acquire mWorkerLock mWorkerLock_update)
    (bind (gets (\<lambda>wm. find_service value (mWorkers wm) 0)) (\<lambda>w.
     andthen (release mWorkerLock_update) (ret w)))"

text \<open>\<open>worker->setService(value)\<close> through a pointer that \<open>getWorker\<close> returned.\<close>

definition setService_at :: "nat option \<Rightarrow> ptr option \<Rightarrow> (worker_mgr, unit) op" where
  "setService_at w value =
     (case w of
        None \<Rightarrow> raise NullPointer
      | Some i \<Rightarrow> modify (\<lambda>wm. wm\<lparr>mWorkers := (mWorkers wm)[i := Worker_setService value (mWorkers wm ! i)]\<rparr>))"

section \<open>What the calls do\<close>

lemma useWorker_held [op_spec]: "mWorkerLock wm \<Longrightarrow> WorkerMgr_useWorker wm = Spin wm"
  by (simp add: WorkerMgr_useWorker_def)

lemma useWorker_free [op_spec]:
  "\<not> mWorkerLock wm \<Longrightarrow>
   WorkerMgr_useWorker wm =
     Done (case mFreeWorkers wm of [] \<Rightarrow> 0 | e # m \<Rightarrow> fst e) (wm\<lparr>mFreeWorkers := tl (mFreeWorkers wm)\<rparr>)"
  by (simp add: WorkerMgr_useWorker_def split: list.split)

lemma getWorker_run [op_spec]:
  "WorkerMgr_getWorker i wm =
     Done (if i < 1 \<or> i > length (mWorkers wm) then None else Some (i - 1)) wm"
  by (simp add: WorkerMgr_getWorker_def)

lemma getServiceWorker_held [op_spec]:
  "mWorkerLock wm \<Longrightarrow> WorkerMgr_getServiceWorker value wm = Spin wm"
  by (simp add: WorkerMgr_getServiceWorker_def)

lemma getServiceWorker_free [op_spec]:
  "\<not> mWorkerLock wm \<Longrightarrow>
   WorkerMgr_getServiceWorker value wm = Done (find_service value (mWorkers wm) 0) wm"
  by (simp add: WorkerMgr_getServiceWorker_def)

lemma setService_None [op_spec]: "setService_at None value wm = Fault NullPointer wm"
  by (simp add: setService_at_def)

lemma setService_Some [op_spec]:
  "setService_at (Some i) value wm =
     Done () (wm\<lparr>mWorkers := (mWorkers wm)[i := Worker_setService value (mWorkers wm ! i)]\<rparr>)"
  by (simp add: setService_at_def)

lemma find_service_Some:
  "find_service value ws j = Some i \<Longrightarrow>
   j \<le> i \<and> i - j < length ws \<and> mService (ws ! (i - j)) = value \<and>
   (\<forall>k < i - j. mService (ws ! k) \<noteq> value)"
proof (induction ws arbitrary: j)
  case (Cons w ws)
  show ?case
  proof (cases "mService w = value")
    case True
    with Cons.prems show ?thesis by (simp add: Worker_getService_def)
  next
    case False
    with Cons.prems Cons.IH [of "Suc j"] have IH: "Suc j \<le> i" "i - Suc j < length ws"
        "mService (ws ! (i - Suc j)) = value" "\<forall>k < i - Suc j. mService (ws ! k) \<noteq> value"
      by (simp_all add: Worker_getService_def)
    obtain d where d: "i - j = Suc d" "i - Suc j = d" using IH(1) by (cases "i - j") auto
    have "mService ((w # ws) ! k) \<noteq> value" if "k < Suc d" for k
      using that IH(4) False d by (cases k) auto
    with IH d show ?thesis by auto
  qed
qed simp

lemma find_service_None:
  "find_service value ws j = None \<longleftrightarrow> (\<forall>w \<in> set ws. mService w \<noteq> value)"
  by (induction ws arbitrary: j) (auto simp: Worker_getService_def)

section \<open>The workers that are still free\<close>

text \<open>The numbers of the free workers, and that they number workers of the table.\<close>

definition free_ids :: "worker_mgr \<Rightarrow> nat list" where
  "free_ids wm = map fst (mFreeWorkers wm)"

definition workers_ok :: "worker_mgr \<Rightarrow> bool" where
  "workers_ok wm \<longleftrightarrow> om_wf (mFreeWorkers wm) \<and>
     (\<forall>e \<in> set (mFreeWorkers wm). 1 \<le> fst e \<and> fst e \<le> length (mWorkers wm))"

lemma init_loop_table:
  "init_loop is wm = wm\<lparr>mWorkers := mWorkers wm @ map Worker_ctor is,
     mFreeWorkers := foldl (\<lambda>m i. om_insert (nat i) True m) (mFreeWorkers wm) is\<rparr>"
  by (induction "is" arbitrary: wm) simp_all

lemma foldl_insert_ok:
  "om_wf m \<Longrightarrow> om_wf (foldl (\<lambda>m i. om_insert (nat i) True m) m is) \<and>
   fst ` set (foldl (\<lambda>m i. om_insert (nat i) True m) m is) = fst ` set m \<union> nat ` set is"
  by (induction "is" arbitrary: m) (auto simp: fst_om_insert)

lemma initWorker_ok:
  assumes "WorkerMgr_initWorker num empty_worker_mgr = Done u wm"
  shows "workers_ok wm \<and> length (mWorkers wm) = nat num \<and> set (free_ids wm) = {1 .. nat num} \<and>
    \<not> mWorkerLock wm \<and> (\<forall>w \<in> set (mWorkers wm). mService w = None)"
proof -
  let ?m = "foldl (\<lambda>m i. om_insert (nat i) True m) ([] :: (nat, bool) omap) [1 .. num]"
  from assms have wm: "wm = empty_worker_mgr\<lparr>mWorkers := map Worker_ctor [1 .. num], mFreeWorkers := ?m\<rparr>"
    by (simp add: WorkerMgr_initWorker_def init_loop_table empty_worker_mgr_def)
  have m: "om_wf ?m" "fst ` set ?m = nat ` {1 .. num}"
    using foldl_insert_ok [of "[] :: (nat, bool) omap" "[1 .. num]"] by auto
  have "nat ` {1 .. num} = {1 .. nat num}"
  proof
    show "{1 .. nat num} \<subseteq> nat ` {1 .. num}"
    proof
      fix k assume "k \<in> {1 .. nat num}"
      then have "k = nat (int k)" "int k \<in> {1 .. num}" by auto
      then show "k \<in> nat ` {1 .. num}" by blast
    qed
  qed auto
  with m have ids: "fst ` set ?m = {1 .. nat num}" by simp
  then have "\<forall>e \<in> set ?m. 1 \<le> fst e \<and> fst e \<le> nat num" by (metis atLeastAtMost_iff imageI)
  with m(1) ids wm show ?thesis
    by (simp add: workers_ok_def free_ids_def empty_worker_mgr_def Worker_ctor_def)
qed

lemma useWorker_takes:
  assumes "workers_ok wm" and "WorkerMgr_useWorker wm = Done i wm'"
  shows "workers_ok wm' \<and> mWorkers wm' = mWorkers wm \<and> mWorkerLock wm' = mWorkerLock wm \<and>
    (if free_ids wm = [] then i = 0 \<and> wm' = wm
     else free_ids wm = i # free_ids wm' \<and> 1 \<le> i \<and> i \<le> length (mWorkers wm) \<and>
          (\<forall>j \<in> set (free_ids wm'). i < j))"
proof -
  from assms(2) have free: "\<not> mWorkerLock wm" by (cases "mWorkerLock wm") (simp_all add: useWorker_held)
  show ?thesis
  proof (cases "mFreeWorkers wm")
    case Nil
    with assms free show ?thesis by (auto simp: useWorker_free free_ids_def workers_ok_def)
  next
    case (Cons e m)
    with assms free have "wm' = wm\<lparr>mFreeWorkers := m\<rparr>" "i = fst e" by (auto simp: useWorker_free)
    with assms(1) Cons show ?thesis by (simp add: free_ids_def workers_ok_def)
  qed
qed

end
