(* ===== verification/Runtime.thy ===== *)
theory Runtime
  imports ServiceMsg Workers
begin

text \<open>
  \<open>src/service\<close>: services and their manager.  The state \<open>runtime\<close> joins the message pool, the
  workers' table, the service objects (a heap from addresses to objects, an address that was
  deleted holds none) and the fields of \<open>ServiceMgr\<close>.  The calls are polymorphic in the record's
  extension, so the network components extend the state by their own fields and use the calls as
  they are.  Lua code is a parameter: \<open>load\<close> is \<open>luaL_dofile\<close> on a service's script (it returns
  whether the script ran without error, and may itself call back into the runtime), \<open>onPoll\<close> is
  the service's Lua function of that name, if it has one; \<open>exists\<close> is the file system.
\<close>

section \<open>State\<close>

record service =
  mId :: int
  mName :: string
  mState :: bool
  mIsInit :: bool
  mMsgs :: "service_msg list"
  mMsgLock :: bool

record runtime =
  rtPool :: msg_pool
  rtWorkers :: worker_mgr
  rtHeap :: "ptr \<Rightarrow> service option"
  rtNext :: ptr
  mServices :: "(int, ptr) omap"
  mAutoId :: int
  mServicePaths :: "string list"
  mServiceLock :: bool
  mFreeServices :: "int list"
  mFreeServiceLock :: bool
  mPreDestroyServices :: "ptr list"
  mPreDestroyServiceLock :: bool
  IsRun :: bool

text \<open>One message as \<open>Service::poll\<close> hands it to Lua: the eight fields of its table.\<close>

record lua_msg =
  lm_msgType :: int
  lm_session :: int
  lm_source :: int
  lm_data :: bytes
  lm_error :: string
  lm_status :: int
  lm_fd :: int
  lm_isOk :: bool

interpretation msg_lock: lock_field mMsgLock mMsgLock_update
  by unfold_locales simp_all

interpretation service_lock: lock_field mServiceLock mServiceLock_update
  by unfold_locales simp_all

interpretation free_service_lock: lock_field mFreeServiceLock mFreeServiceLock_update
  by unfold_locales simp_all

interpretation pre_destroy_lock: lock_field mPreDestroyServiceLock mPreDestroyServiceLock_update
  by unfold_locales simp_all

abbreviation poolop :: "(msg_pool, 'a) op \<Rightarrow> ('z runtime_scheme, 'a) op" where
  "poolop \<equiv> zoom rtPool rtPool_update"

abbreviation workerop :: "(worker_mgr, 'a) op \<Rightarrow> ('z runtime_scheme, 'a) op" where
  "workerop \<equiv> zoom rtWorkers rtWorkers_update"

text \<open>A member call through a \<open>Service*\<close>; the object may be gone.\<close>

definition on_service :: "ptr \<Rightarrow> (service, 'a) op \<Rightarrow> ('z runtime_scheme, 'a) op" where
  "on_service p m s =
     (case rtHeap s p of
        None \<Rightarrow> Fault UseAfterFree s
      | Some v \<Rightarrow> zoom (\<lambda>_. v) (\<lambda>f s. s\<lparr>rtHeap := (rtHeap s)(p \<mapsto> f v)\<rparr>) m s)"

definition luaExit :: "('z runtime_scheme, unit) op" where
  "luaExit = modify (\<lambda>s. s\<lparr>IsRun := False\<rparr>)"

definition luaIsRun :: "('z runtime_scheme, bool) op" where
  "luaIsRun = gets IsRun"

section \<open>\<open>Service\<close>\<close>

definition Service_getId :: "(service, int) op" where
  "Service_getId = gets mId"

definition Service_getName :: "(service, string) op" where
  "Service_getName = gets mName"

definition Service_close :: "(service, unit) op" where
  "Service_close =
     bind (gets mIsInit) (\<lambda>i.
       if \<not> i then ret ()
       else andthen (acquire mMsgLock mMsgLock_update)
           (andthen (modify (\<lambda>v. v\<lparr>mIsInit := False\<rparr>)) (release mMsgLock_update)))"

definition Service_pushMsg :: "service_msg \<Rightarrow> (service, unit) op" where
  "Service_pushMsg msg =
     bind (gets mIsInit) (\<lambda>i.
       if \<not> i then ret ()
       else andthen (acquire mMsgLock mMsgLock_update)
           (andthen (modify (\<lambda>v. v\<lparr>mMsgs := mMsgs v @ [msg]\<rparr>)) (release mMsgLock_update)))"

text \<open>
  \<open>new Service(id, name, src, args)\<close>: the allocation, then the constructor's search of the
  script along the service paths and its run.
\<close>

definition alloc_service :: "int \<Rightarrow> string \<Rightarrow> ('z runtime_scheme, ptr) op" where
  "alloc_service i name =
     bind (gets rtNext) (\<lambda>p.
     andthen (modify (\<lambda>s. s\<lparr>rtHeap := (rtHeap s)(p \<mapsto>
         \<lparr>mId = i, mName = name, mState = False, mIsInit = False, mMsgs = [], mMsgLock = False\<rparr>),
         rtNext := Suc p\<rparr>))
       (ret p))"

definition Service_ctor ::
  "(string \<Rightarrow> bool) \<Rightarrow> (ptr \<Rightarrow> string \<Rightarrow> string \<Rightarrow> ('z runtime_scheme, bool) op) \<Rightarrow>
   ptr \<Rightarrow> string \<Rightarrow> string \<Rightarrow> ('z runtime_scheme, unit) op"
where
  "Service_ctor exists load p src args =
     bind (gets mServicePaths) (\<lambda>basePaths.
       case List.find (\<lambda>b. exists (b @ ''/'' @ src)) basePaths of
         None \<Rightarrow> luaExit
       | Some rootPath \<Rightarrow>
           andthen (on_service p (modify (\<lambda>v. v\<lparr>mState := True\<rparr>)))
          (bind (load p (rootPath @ ''/'' @ src) args) (\<lambda>ok.
             if \<not> ok then luaExit
             else on_service p (modify (\<lambda>v. v\<lparr>mIsInit := True\<rparr>)))))"

text \<open>
  \<open>Service::poll\<close>.  The first \<open>dataLen\<close> bytes of the buffer become a Lua string; \<open>error\<close> is read
  as a C string.  The loop empties the queue under the queue's lock, so the queue is the list it
  holds when the lock is taken; each message goes back to the pool, still under that lock.
\<close>

definition msg_table :: "service_msg \<Rightarrow> lua_msg" where
  "msg_table m =
     \<lparr>lm_msgType = uint (msg_type m), lm_session = uint (msg_session m),
      lm_source = uint (msg_source m), lm_data = take (msg_dataLen m) (msg_data m),
      lm_error = c_str (msg_error m), lm_status = sint (msg_status m),
      lm_fd = uint (msg_fd m), lm_isOk = msg_isOk m\<rparr>"

definition lua_view :: "service_msg \<Rightarrow> ('s, lua_msg) op" where
  "lua_view m = (if msg_dataLen m \<le> length (msg_data m) then ret (msg_table m) else raise OutOfBounds)"

fun drain_loop :: "ptr \<Rightarrow> service_msg list \<Rightarrow> lua_msg list \<Rightarrow> ('z runtime_scheme, lua_msg list) op" where
  "drain_loop p [] acc = ret acc"
| "drain_loop p (m # ms) acc =
     andthen (on_service p (modify (\<lambda>v. v\<lparr>mMsgs := ms\<rparr>)))
    (bind (lua_view m) (\<lambda>lm.
     andthen (poolop (ServiceMsgPool_push m))
       (drain_loop p ms (acc @ [lm]))))"

definition Service_drain :: "ptr \<Rightarrow> ('z runtime_scheme, lua_msg list) op" where
  "Service_drain p =
     andthen (on_service p (acquire mMsgLock mMsgLock_update))
    (bind (on_service p (gets mMsgs)) (\<lambda>q.
     bind (drain_loop p q []) (\<lambda>ms.
     andthen (on_service p (release mMsgLock_update)) (ret ms))))"

definition Service_poll ::
  "(lua_msg list \<Rightarrow> ('z runtime_scheme, bool) op) option \<Rightarrow> ptr \<Rightarrow> ('z runtime_scheme, unit) op"
where
  "Service_poll onPoll p =
     bind (on_service p (gets mIsInit)) (\<lambda>i.
       if \<not> i then ret ()
       else case onPoll of
              None \<Rightarrow> ret ()
            | Some f \<Rightarrow> bind (Service_drain p) (\<lambda>ms. bind (f ms) (\<lambda>ok. ret ())))"

section \<open>\<open>ServiceMgr\<close>\<close>

definition ServiceMgr_getServicePath :: "('z runtime_scheme, string list) op" where
  "ServiceMgr_getServicePath = gets mServicePaths"

definition ServiceMgr_addServicePath :: "string \<Rightarrow> ('z runtime_scheme, unit) op" where
  "ServiceMgr_addServicePath value = modify (\<lambda>s. s\<lparr>mServicePaths := mServicePaths s @ [value]\<rparr>)"

text \<open>
  \<open>while (workerId == 0) workerId = useWorker()\<close>: with no free worker the call changes nothing,
  so the loop waits for another thread.
\<close>

definition wait_worker :: "('z runtime_scheme, nat) op" where
  "wait_worker s =
     bind (workerop WorkerMgr_useWorker) (\<lambda>i t. if i = 0 then Spin t else Done i t) s"

definition ServiceMgr_newService ::
  "(string \<Rightarrow> bool) \<Rightarrow> (ptr \<Rightarrow> string \<Rightarrow> string \<Rightarrow> ('z runtime_scheme, bool) op) \<Rightarrow>
   string \<Rightarrow> string \<Rightarrow> string \<Rightarrow> bool \<Rightarrow> ('z runtime_scheme, int) op"
where
  "ServiceMgr_newService exists load name src args isUnique =
     bind wait_worker (\<lambda>workerId.
     bind (workerop (WorkerMgr_getWorker workerId)) (\<lambda>worker.
     bind (post_incr mAutoId mAutoId_update) (\<lambda>i.
     bind (alloc_service i name) (\<lambda>service.
     andthen (Service_ctor exists load service src args)
    (andthen (acquire mServiceLock mServiceLock_update)
    (andthen (modify (\<lambda>s. s\<lparr>mServices := om_insert i service (mServices s)\<rparr>))
    (andthen (release mServiceLock_update)
    (andthen (if isUnique then workerop (setService_at worker (Some service))
              else modify (\<lambda>s. s\<lparr>mFreeServices := mFreeServices s @ [i]\<rparr>))
       (ret i)))))))))"

definition ServiceMgr_getService :: "int \<Rightarrow> ('z runtime_scheme, ptr option) op" where
  "ServiceMgr_getService i =
     andthen (acquire mServiceLock mServiceLock_update)
    (bind (gets mServices) (\<lambda>m.
       case om_find m i of
         None \<Rightarrow> andthen (release mServiceLock_update) (ret None)
       | Some service \<Rightarrow> andthen (release mServiceLock_update) (ret (Some service))))"

text \<open>The loop of \<open>queryService\<close> over the services in the order of their numbers.\<close>

fun query_loop :: "string \<Rightarrow> (int \<times> ptr) list \<Rightarrow> ('z runtime_scheme, int) op" where
  "query_loop name [] = ret 0"
| "query_loop name (e # es) =
     bind (on_service (snd e) Service_getName) (\<lambda>n.
       if n = name then ret (fst e) else query_loop name es)"

definition ServiceMgr_queryService :: "string \<Rightarrow> ('z runtime_scheme, int) op" where
  "ServiceMgr_queryService name =
     andthen (acquire mServiceLock mServiceLock_update)
    (bind (gets mServices) (\<lambda>m.
     bind (query_loop name m) (\<lambda>i.
     andthen (release mServiceLock_update) (ret i))))"

definition ServiceMgr_destoryService :: "int \<Rightarrow> ('z runtime_scheme, unit) op" where
  "ServiceMgr_destoryService i =
     andthen (acquire mServiceLock mServiceLock_update)
    (bind (gets mServices) (\<lambda>m.
       case om_find m i of
         None \<Rightarrow> release mServiceLock_update
       | Some service \<Rightarrow>
           bind (workerop (WorkerMgr_getServiceWorker (Some service))) (\<lambda>worker.
           andthen (case worker of None \<Rightarrow> ret () | Some w \<Rightarrow> workerop (setService_at worker None))
          (andthen (on_service service Service_close)
          (andthen (modify (\<lambda>s. s\<lparr>mServices := om_erase i (mServices s)\<rparr>))
          (andthen (acquire mPreDestroyServiceLock mPreDestroyServiceLock_update)
          (andthen (modify (\<lambda>s. s\<lparr>mPreDestroyServices := service # mPreDestroyServices s\<rparr>))
          (andthen (release mServiceLock_update)
                   (release mPreDestroyServiceLock_update)))))))))"

definition ServiceMgr_send :: "int \<Rightarrow> service_msg \<Rightarrow> ('z runtime_scheme, unit) op" where
  "ServiceMgr_send serviceId msg =
     bind (ServiceMgr_getService serviceId) (\<lambda>service.
       case service of None \<Rightarrow> ret () | Some p \<Rightarrow> on_service p (Service_pushMsg msg))"

definition delete_service :: "ptr \<Rightarrow> ('z runtime_scheme, unit) op" where
  "delete_service p = andthen (on_service p (ret ())) (modify (\<lambda>s. s\<lparr>rtHeap := (rtHeap s)(p := None)\<rparr>))"

fun destroy_loop :: "ptr list \<Rightarrow> ('z runtime_scheme, unit) op" where
  "destroy_loop [] = ret ()"
| "destroy_loop (p # ps) =
     andthen (delete_service p)
    (andthen (modify (\<lambda>s. s\<lparr>mPreDestroyServices := ps\<rparr>)) (destroy_loop ps))"

definition ServiceMgr_poll :: "('z runtime_scheme, unit) op" where
  "ServiceMgr_poll =
     andthen (acquire mPreDestroyServiceLock mPreDestroyServiceLock_update)
    (bind (gets mPreDestroyServices) (\<lambda>ps.
     andthen (destroy_loop ps) (release mPreDestroyServiceLock_update)))"

definition ServiceMgr_getFreeServiceId :: "('z runtime_scheme, int) op" where
  "ServiceMgr_getFreeServiceId =
     andthen (acquire mFreeServiceLock mFreeServiceLock_update)
    (bind (gets mFreeServices) (\<lambda>q.
       case q of
         [] \<Rightarrow> andthen (release mFreeServiceLock_update) (ret 0)
       | i # rest \<Rightarrow>
           andthen (modify (\<lambda>s. s\<lparr>mFreeServices := rest\<rparr>))
          (andthen (release mFreeServiceLock_update) (ret i))))"

definition ServiceMgr_pushFreeServiceId :: "int \<Rightarrow> ('z runtime_scheme, unit) op" where
  "ServiceMgr_pushFreeServiceId value =
     andthen (acquire mFreeServiceLock mFreeServiceLock_update)
    (andthen (modify (\<lambda>s. s\<lparr>mFreeServices := mFreeServices s @ [value]\<rparr>))
             (release mFreeServiceLock_update))"

text \<open>
  \<open>waitAllServiceClose\<close>: a \<open>Close\<close> message to every service, then the wait until the map of
  services is empty, which only another thread can end.
\<close>

fun close_loop :: "int list \<Rightarrow> ('z runtime_scheme, unit) op" where
  "close_loop [] = ret ()"
| "close_loop (i # is) =
     bind (poolop ServiceMsgPool_pop) (\<lambda>msg.
     andthen (ServiceMgr_send i (msg\<lparr>msg_type := msg_type_code MsgClose\<rparr>)) (close_loop is))"

definition close_all :: "('z runtime_scheme, unit) op" where
  "close_all =
     andthen (acquire mServiceLock mServiceLock_update)
    (bind (gets mServices) (\<lambda>m.
     andthen (release mServiceLock_update)
       (close_loop (map fst m))))"

definition ServiceMgr_waitAllServiceClose :: "('z runtime_scheme, unit) op" where
  "ServiceMgr_waitAllServiceClose =
     andthen close_all (\<lambda>s. if mServices s = [] then Done () s else Spin s)"

end
