(* ===== verification/RuntimeFacts.thy ===== *)
theory RuntimeFacts
  imports Runtime
begin

text \<open>
  What each call of \<open>Runtime\<close> does on its branches, and the properties of services and their
  manager taken one call at a time.  Runs with several threads are in \<open>Scheduler\<close>.
\<close>

section \<open>Calls on one service\<close>

lemma on_service_None [op_spec]: "rtHeap s p = None \<Longrightarrow> on_service p m s = Fault UseAfterFree s"
  by (simp add: on_service_def)

lemma on_service_Done [op_spec]:
  "rtHeap s p = Some v \<Longrightarrow> m v = Done a v' \<Longrightarrow>
   on_service p m s = Done a (s\<lparr>rtHeap := (rtHeap s)(p \<mapsto> v')\<rparr>)"
  by (simp add: on_service_def zoom_def)

lemma on_service_Spin [op_spec]:
  "rtHeap s p = Some v \<Longrightarrow> m v = Spin v' \<Longrightarrow>
   on_service p m s = Spin (s\<lparr>rtHeap := (rtHeap s)(p \<mapsto> v')\<rparr>)"
  by (simp add: on_service_def zoom_def)

lemma heap_same [simp]: "rtHeap s p = Some v \<Longrightarrow> s\<lparr>rtHeap := (rtHeap s)(p \<mapsto> v)\<rparr> = s"
  by (simp add: map_upd_triv)

text \<open>Updates of different fields, in one order.\<close>

lemma update_order [simp]:
  "v\<lparr>mMsgLock := b, mMsgs := q\<rparr> = v\<lparr>mMsgs := q, mMsgLock := b\<rparr>"
  "v\<lparr>mMsgLock := b, mIsInit := i\<rparr> = v\<lparr>mIsInit := i, mMsgLock := b\<rparr>"
  "s\<lparr>rtHeap := h, rtPool := pl\<rparr> = s\<lparr>rtPool := pl, rtHeap := h\<rparr>"
  by simp_all

lemma lock_same [simp]:
  "\<not> mMsgLock v \<Longrightarrow> v\<lparr>mMsgs := q, mMsgLock := False\<rparr> = v\<lparr>mMsgs := q\<rparr>"
  by simp

lemma on_service_gets [op_spec]:
  "on_service p (gets f) s =
     (case rtHeap s p of None \<Rightarrow> Fault UseAfterFree s | Some v \<Rightarrow> Done (f v) s)"
  by (cases "rtHeap s p") (simp_all add: op_spec)

lemma pushMsg_cases [op_spec]:
  "Service_pushMsg msg v =
     (if \<not> mIsInit v then Done () v else if mMsgLock v then Spin v
      else Done () (v\<lparr>mMsgs := mMsgs v @ [msg]\<rparr>))"
  by (simp add: Service_pushMsg_def)

lemma close_cases [op_spec]:
  "Service_close v =
     (if \<not> mIsInit v then Done () v else if mMsgLock v then Spin v else Done () (v\<lparr>mIsInit := False\<rparr>))"
  by (simp add: Service_close_def)

lemma getService_free [op_spec]:
  "\<not> mServiceLock s \<Longrightarrow> ServiceMgr_getService i s = Done (om_find (mServices s) i) s"
  by (simp add: ServiceMgr_getService_def split: option.split)

lemma getService_held [op_spec]: "mServiceLock s \<Longrightarrow> ServiceMgr_getService i s = Spin s"
  by (simp add: ServiceMgr_getService_def)

lemma send_held [op_spec]: "mServiceLock s \<Longrightarrow> ServiceMgr_send i msg s = Spin s"
  by (simp add: ServiceMgr_send_def op_spec)

lemma send_run:
  assumes "\<not> mServiceLock s"
  shows "ServiceMgr_send i msg s =
    (case om_find (mServices s) i of
       None \<Rightarrow> Done () s
     | Some p \<Rightarrow>
         (case rtHeap s p of
            None \<Rightarrow> Fault UseAfterFree s
          | Some v \<Rightarrow>
              if \<not> mIsInit v then Done () s
              else if mMsgLock v then Spin s
              else Done () (s\<lparr>rtHeap := (rtHeap s)(p \<mapsto> v\<lparr>mMsgs := mMsgs v @ [msg]\<rparr>)\<rparr>)))"
proof (cases "om_find (mServices s) i")
  case None
  with assms show ?thesis by (simp add: ServiceMgr_send_def getService_free)
next
  case (Some p)
  have "ServiceMgr_send i msg s = on_service p (Service_pushMsg msg) s"
    using assms Some by (simp add: ServiceMgr_send_def getService_free)
  with Some show ?thesis
    by (cases "rtHeap s p")
      (auto simp: on_service_None on_service_Done on_service_Spin pushMsg_cases)
qed

text \<open>
  C9: what \<open>send\<close> does, on every branch.  It waits for the lock of the manager.  A number that is not registered, or whose service is
  not initialised, drops the message without a trace; otherwise the message is the last of the
  service's queue and nothing else changes.
\<close>

theorem send_cases:
  "ServiceMgr_send i msg s =
    (if mServiceLock s then Spin s
     else case om_find (mServices s) i of
       None \<Rightarrow> Done () s
     | Some p \<Rightarrow>
         (case rtHeap s p of
            None \<Rightarrow> Fault UseAfterFree s
          | Some v \<Rightarrow>
              if \<not> mIsInit v then Done () s
              else if mMsgLock v then Spin s
              else Done () (s\<lparr>rtHeap := (rtHeap s)(p \<mapsto> v\<lparr>mMsgs := mMsgs v @ [msg]\<rparr>)\<rparr>)))"
  by (simp add: send_held send_run)

section \<open>Polling\<close>

lemma drain_loop_free:
  assumes "rtHeap s p = Some v" and "\<not> mPoolLock (rtPool s)"
    and "\<forall>m \<in> set ms. msg_dataLen m \<le> length (msg_data m)" and "mMsgs v = ms"
  shows "drain_loop p ms acc s =
    Done (acc @ map msg_table ms)
      (s\<lparr>rtHeap := (rtHeap s)(p \<mapsto> v\<lparr>mMsgs := []\<rparr>),
         rtPool := (rtPool s)\<lparr>mPool := mPool (rtPool s) @ map ServiceMsg_reset ms\<rparr>\<rparr>)"
  using assms
proof (induction ms arbitrary: s v acc)
  case Nil
  then have "v\<lparr>mMsgs := []\<rparr> = v" by simp
  with Nil show ?case by (simp add: map_upd_triv)
next
  case (Cons m ms)
  let ?v = "v\<lparr>mMsgs := ms\<rparr>"
  let ?s = "s\<lparr>rtHeap := (rtHeap s)(p \<mapsto> ?v),
    rtPool := (rtPool s)\<lparr>mPool := mPool (rtPool s) @ [ServiceMsg_reset m]\<rparr>\<rparr>"
  have "drain_loop p (m # ms) acc s = drain_loop p ms (acc @ [msg_table m]) ?s"
    using Cons.prems by (simp add: on_service_Done lua_view_def zoom_def push_free)
  also have "\<dots> = Done ((acc @ [msg_table m]) @ map msg_table ms)
      (?s\<lparr>rtHeap := (rtHeap ?s)(p \<mapsto> ?v\<lparr>mMsgs := []\<rparr>),
         rtPool := (rtPool ?s)\<lparr>mPool := mPool (rtPool ?s) @ map ServiceMsg_reset ms\<rparr>\<rparr>)"
    using Cons.prems by (intro Cons.IH) simp_all
  finally show ?case by (simp del: fun_upd_apply)
qed


lemma drain_stuck:
  assumes "rtHeap s p = Some v" and "\<not> mMsgLock v" and "mMsgs v = m # ms" and "msg_ok m"
    and "mPoolLock (rtPool s)"
  shows "Service_drain p s =
    Spin (s\<lparr>rtHeap := (rtHeap s)(p \<mapsto> v\<lparr>mMsgs := ms, mMsgLock := True\<rparr>)\<rparr>)"
  using assms
  by (simp add: Service_drain_def on_service_Done on_service_gets lua_view_def msg_ok_def zoom_def
      push_held)

section \<open>Looking services up by name\<close>

lemma query_loop_find:
  "\<forall>e \<in> set es. rtHeap s (snd e) \<noteq> None \<Longrightarrow>
   query_loop name es s =
     Done (case List.find (\<lambda>e. mName (the (rtHeap s (snd e))) = name) es of
             None \<Rightarrow> 0 | Some e \<Rightarrow> fst e) s"
proof (induction es)
  case (Cons e es)
  then obtain v where "rtHeap s (snd e) = Some v" by auto
  with Cons show ?case by (simp add: Service_getName_def on_service_gets)
qed simp

lemma find_first_sorted:
  assumes "om_wf m" and "List.find P m = Some e"
  shows "e \<in> set m \<and> P e \<and> (\<forall>e' \<in> set m. P e' \<longrightarrow> fst e \<le> fst e')"
  using assms
  by (induction m) (auto split: if_splits intro: less_imp_le)

text \<open>
  \<open>queryService\<close> answers 0 exactly when no registered service has the name, and else the
  least number among the services that have it.
\<close>

theorem query_least:
  assumes "\<not> mServiceLock s" and "om_wf (mServices s)"
    and "\<forall>e \<in> set (mServices s). 0 < fst e \<and> rtHeap s (snd e) \<noteq> None"
  shows "\<exists>i. ServiceMgr_queryService name s = Done i s \<and>
    (i = 0 \<longleftrightarrow> (\<forall>e \<in> set (mServices s). mName (the (rtHeap s (snd e))) \<noteq> name)) \<and>
    (i \<noteq> 0 \<longrightarrow> (\<exists>p v. om_find (mServices s) i = Some p \<and> rtHeap s p = Some v \<and> mName v = name) \<and>
      (\<forall>e \<in> set (mServices s). mName (the (rtHeap s (snd e))) = name \<longrightarrow> i \<le> fst e))"
proof -
  let ?P = "\<lambda>e. mName (the (rtHeap s (snd e))) = name"
  let ?f = "List.find ?P (mServices s)"
  let ?i = "case ?f of None \<Rightarrow> 0 | Some e \<Rightarrow> fst e"
  have "query_loop name (mServices s) (s\<lparr>mServiceLock := True\<rparr>) = Done ?i (s\<lparr>mServiceLock := True\<rparr>)"
    using assms(3) query_loop_find [of "mServices s" "s\<lparr>mServiceLock := True\<rparr>" name] by auto
  then have run: "ServiceMgr_queryService name s = Done ?i s"
    using assms(1) by (simp add: ServiceMgr_queryService_def)
  show ?thesis
  proof (cases ?f)
    case None
    then have "\<forall>e \<in> set (mServices s). \<not> ?P e" by (force simp: find_None_iff)
    with run None show ?thesis by (simp del: split_paired_All)
  next
    case (Some e)
    note e = find_first_sorted [OF assms(2) Some, THEN conjunct1]
      find_first_sorted [OF assms(2) Some, THEN conjunct2, THEN conjunct1]
      find_first_sorted [OF assms(2) Some, THEN conjunct2, THEN conjunct2]
    have "om_find (mServices s) (fst e) = Some (snd e)"
      using e(1) assms(2) by (simp add: map_of_is_SomeI om_wf_def strict_sorted_iff)
    moreover from e(1) assms(3) have "fst e \<noteq> 0" "rtHeap s (snd e) \<noteq> None" by auto
    ultimately show ?thesis using run Some e by auto
  qed
qed

section \<open>Destroying a service\<close>

definition unassign :: "ptr \<Rightarrow> worker_mgr \<Rightarrow> worker_mgr" where
  "unassign p wm =
     (case find_service (Some p) (mWorkers wm) 0 of
        None \<Rightarrow> wm
      | Some w \<Rightarrow> wm\<lparr>mWorkers := (mWorkers wm)[w := Worker_setService None (mWorkers wm ! w)]\<rparr>)"

lemma destory_unknown [op_spec]:
  "\<not> mServiceLock s \<Longrightarrow> om_find (mServices s) i = None \<Longrightarrow> ServiceMgr_destoryService i s = Done () s"
  by (simp add: ServiceMgr_destoryService_def)

lemma destory_free [op_spec]:
  assumes "\<not> mServiceLock s" "\<not> mWorkerLock (rtWorkers s)" "\<not> mPreDestroyServiceLock s"
    and "om_find (mServices s) i = Some p" and "rtHeap s p = Some v" and "\<not> mMsgLock v"
  shows "ServiceMgr_destoryService i s =
    Done () (s\<lparr>rtWorkers := unassign p (rtWorkers s), rtHeap := (rtHeap s)(p \<mapsto> v\<lparr>mIsInit := False\<rparr>),
      mServices := om_erase i (mServices s), mPreDestroyServices := p # mPreDestroyServices s\<rparr>)"
proof -
  have c: "Service_close v = Done () (v\<lparr>mIsInit := False\<rparr>)"
    using assms(6) by (simp add: close_cases)
  show ?thesis
  proof (cases "find_service (Some p) (mWorkers (rtWorkers s)) 0")
    case None
    with assms c show ?thesis
      by (simp add: ServiceMgr_destoryService_def zoom_def getServiceWorker_free on_service_Done
          unassign_def)
  next
    case (Some w)
    with assms c show ?thesis
      by (simp add: ServiceMgr_destoryService_def zoom_def getServiceWorker_free on_service_Done
          setService_Some unassign_def)
  qed
qed

lemma destory_msg_lock [op_spec]:
  assumes "\<not> mServiceLock s" "\<not> mWorkerLock (rtWorkers s)"
    and "om_find (mServices s) i = Some p" and "rtHeap s p = Some v" and "mMsgLock v" and "mIsInit v"
  shows "ServiceMgr_destoryService i s =
    Spin (s\<lparr>rtWorkers := unassign p (rtWorkers s), mServiceLock := True\<rparr>)"
proof -
  have c: "Service_close v = Spin v" using assms by (simp add: close_cases)
  show ?thesis
  proof (cases "find_service (Some p) (mWorkers (rtWorkers s)) 0")
    case None
    with assms c show ?thesis
      by (simp add: ServiceMgr_destoryService_def zoom_def getServiceWorker_free on_service_Spin
          unassign_def map_upd_triv)
  next
    case (Some w)
    with assms c show ?thesis
      by (simp add: ServiceMgr_destoryService_def zoom_def getServiceWorker_free on_service_Spin
          setService_Some unassign_def map_upd_triv)
  qed
qed

lemma destroy_loop_free:
  assumes "distinct ps" and "\<forall>p \<in> set ps. rtHeap s p \<noteq> None"
  shows "destroy_loop ps s =
    Done () (s\<lparr>rtHeap := (\<lambda>p. if p \<in> set ps then None else rtHeap s p),
               mPreDestroyServices := (if ps = [] then mPreDestroyServices s else [])\<rparr>)"
  using assms
proof (induction ps arbitrary: s)
  case (Cons p ps)
  let ?s = "s\<lparr>rtHeap := (rtHeap s)(p := None), mPreDestroyServices := ps\<rparr>"
  obtain v where "rtHeap s p = Some v" using Cons.prems by auto
  then have "destroy_loop (p # ps) s = destroy_loop ps ?s"
    by (simp add: delete_service_def on_service_Done)
  also have "\<dots> = Done () (?s\<lparr>rtHeap := (\<lambda>q. if q \<in> set ps then None else rtHeap ?s q),
      mPreDestroyServices := (if ps = [] then mPreDestroyServices ?s else [])\<rparr>)"
    using Cons.prems by (intro Cons.IH) auto
  also have "(\<lambda>q. if q \<in> set ps then None else rtHeap ?s q) = (\<lambda>q. if q \<in> set (p # ps) then None else rtHeap s q)"
    by auto
  finally show ?case by auto
qed simp

lemma poll_deletes [op_spec]:
  assumes "\<not> mPreDestroyServiceLock t" and "distinct (mPreDestroyServices t)"
    and "\<forall>p \<in> set (mPreDestroyServices t). rtHeap t p \<noteq> None"
  shows "ServiceMgr_poll t =
    Done () (t\<lparr>rtHeap := (\<lambda>q. if q \<in> set (mPreDestroyServices t) then None else rtHeap t q),
               mPreDestroyServices := []\<rparr>)"
proof -
  have "destroy_loop (mPreDestroyServices t) (t\<lparr>mPreDestroyServiceLock := True\<rparr>) =
    Done () (t\<lparr>mPreDestroyServiceLock := True,
      rtHeap := (\<lambda>q. if q \<in> set (mPreDestroyServices t) then None else rtHeap t q),
      mPreDestroyServices := []\<rparr>)"
    using destroy_loop_free [of "mPreDestroyServices t" "t\<lparr>mPreDestroyServiceLock := True\<rparr>"] assms
    by (simp cong: if_cong)
  with assms(1) show ?thesis by (simp add: ServiceMgr_poll_def)
qed

text \<open>
  Destroying a registered service takes it out of the map, out of its worker and out of use
  at once, and deletes it at the main thread's next \<open>poll\<close> and not before: the call leaves the
  object in the heap, uninitialised, on the stack of services to be deleted.
\<close>

theorem destroy_then_poll:
  assumes "\<not> mServiceLock s" "\<not> mWorkerLock (rtWorkers s)" "\<not> mPreDestroyServiceLock s"
    and "om_wf (mServices s)" and "om_find (mServices s) i = Some p"
    and "rtHeap s p = Some v" and "\<not> mMsgLock v"
    and "distinct (p # mPreDestroyServices s)" and "\<forall>q \<in> set (mPreDestroyServices s). rtHeap s q \<noteq> None"
  shows "\<exists>t u. ServiceMgr_destoryService i s = Done () t \<and> ServiceMgr_poll t = Done () u \<and>
    om_find (mServices t) = (om_find (mServices s))(i := None) \<and>
    rtHeap t p = Some (v\<lparr>mIsInit := False\<rparr>) \<and>
    (\<forall>msg. ServiceMgr_send i msg t = Done () t) \<and>
    mPreDestroyServices u = [] \<and>
    rtHeap u = (\<lambda>q. if q = p \<or> q \<in> set (mPreDestroyServices s) then None else rtHeap s q)"
proof -
  let ?t = "s\<lparr>rtWorkers := unassign p (rtWorkers s), rtHeap := (rtHeap s)(p \<mapsto> v\<lparr>mIsInit := False\<rparr>),
      mServices := om_erase i (mServices s), mPreDestroyServices := p # mPreDestroyServices s\<rparr>"
  let ?h = "\<lambda>q. if q = p \<or> q \<in> set (mPreDestroyServices s) then None else rtHeap s q"
  have "(\<lambda>q. if q \<in> set (mPreDestroyServices ?t) then None else rtHeap ?t q) = ?h" by auto
  with poll_deletes [of ?t] assms
  have poll: "ServiceMgr_poll ?t = Done () (?t\<lparr>rtHeap := ?h, mPreDestroyServices := []\<rparr>)" by auto
  moreover have "om_find (mServices ?t) = (om_find (mServices s))(i := None)"
    using assms(4) by (simp add: om_find_erase)
  moreover from this assms(1) have "ServiceMgr_send i msg ?t = Done () ?t" for msg
    by (simp add: send_run)
  ultimately show ?thesis using destory_free [OF assms(1-3,5-7)] poll by auto
qed

section \<open>Creating a service\<close>

lemma wait_worker_run [op_spec]:
  "\<not> mWorkerLock (rtWorkers s) \<Longrightarrow>
   wait_worker s =
     (case mFreeWorkers (rtWorkers s) of
        [] \<Rightarrow> Spin s
      | e # m \<Rightarrow> if fst e = 0 then Spin (s\<lparr>rtWorkers := (rtWorkers s)\<lparr>mFreeWorkers := m\<rparr>\<rparr>)
                 else Done (fst e) (s\<lparr>rtWorkers := (rtWorkers s)\<lparr>mFreeWorkers := m\<rparr>\<rparr>))"
  by (auto simp: wait_worker_def zoom_def useWorker_free split: list.split)

text \<open>A script that does not call the runtime while it is loaded, and ends with \<open>ok\<close>.\<close>

definition quiet :: "bool \<Rightarrow> ptr \<Rightarrow> string \<Rightarrow> string \<Rightarrow> ('z runtime_scheme, bool) op" where
  "quiet ok p file args = ret ok"

definition found :: "(string \<Rightarrow> bool) \<Rightarrow> string list \<Rightarrow> string \<Rightarrow> bool" where
  "found exists paths src \<longleftrightarrow> (\<exists>b \<in> set paths. exists (b @ ''/'' @ src))"

definition assign :: "nat \<Rightarrow> ptr \<Rightarrow> worker_mgr \<Rightarrow> worker_mgr" where
  "assign w p wm = wm\<lparr>mWorkers := (mWorkers wm)[w := Worker_setService (Some p) (mWorkers wm ! w)]\<rparr>"

lemma ctor_quiet [op_spec]:
  assumes "rtHeap s p = Some v"
  shows "Service_ctor exists (quiet ok) p src args s =
    (if found exists (mServicePaths s) src
     then Done () (s\<lparr>rtHeap := (rtHeap s)(p \<mapsto>
            v\<lparr>mState := True, mIsInit := (if ok then True else mIsInit v)\<rparr>), IsRun := (IsRun s \<and> ok)\<rparr>)
     else Done () (s\<lparr>IsRun := False\<rparr>))"
proof (cases "List.find (\<lambda>b. exists (b @ ''/'' @ src)) (mServicePaths s)")
  case None
  then have "\<not> found exists (mServicePaths s) src" by (auto simp: find_None_iff found_def)
  with None show ?thesis by (simp add: Service_ctor_def luaExit_def)
next
  case (Some b)
  then have "found exists (mServicePaths s) src" by (auto simp: find_Some_iff found_def)
  with Some assms show ?thesis
    by (cases ok) (simp_all add: Service_ctor_def luaExit_def quiet_def on_service_Done)
qed

lemma new_service_run:
  fixes s :: "'z runtime_scheme"
  assumes locks: "\<not> mServiceLock s" "\<not> mWorkerLock (rtWorkers s)"
    and worker: "mFreeWorkers (rtWorkers s) = (w, b) # rest" "1 \<le> w" "w \<le> length (mWorkers (rtWorkers s))"
    and auto: "mAutoId s \<noteq> i32_max"
  shows "ServiceMgr_newService exists (quiet ok) name src args uniq s =
    (let run = found exists (mServicePaths s) src;
         wm = (rtWorkers s)\<lparr>mFreeWorkers := rest\<rparr>
     in Done (mAutoId s)
       (s\<lparr>rtWorkers := (if uniq then assign (w - 1) (rtNext s) wm else wm),
          rtHeap := (rtHeap s)(rtNext s \<mapsto>
            \<lparr>mId = mAutoId s, mName = name, mState = run, mIsInit = (run \<and> ok), mMsgs = [], mMsgLock = False\<rparr>),
          rtNext := Suc (rtNext s),
          mServices := om_insert (mAutoId s) (rtNext s) (mServices s),
          mAutoId := mAutoId s + 1,
          mFreeServices := (if uniq then mFreeServices s else mFreeServices s @ [mAutoId s]),
          IsRun := (IsRun s \<and> run \<and> ok)\<rparr>))"
proof -
  let ?s1 = "s\<lparr>rtWorkers := (rtWorkers s)\<lparr>mFreeWorkers := rest\<rparr>\<rparr>"
  have s1: "wait_worker s = Done w ?s1" using locks worker by (simp add: wait_worker_run)
  have gw: "workerop (WorkerMgr_getWorker w) ?s1 = Done (Some (w - 1)) ?s1"
    using worker by (simp add: zoom_def getWorker_run)
  have ai: "post_incr mAutoId mAutoId_update ?s1 = Done (mAutoId s) (?s1\<lparr>mAutoId := mAutoId s + 1\<rparr>)"
    using auto by (simp add: post_incr_def)
  show ?thesis
    using locks worker s1 gw ai
    by (cases uniq; cases ok; cases "found exists (mServicePaths s) src")
       (simp_all add: ServiceMgr_newService_def alloc_service_def ctor_quiet Let_def zoom_def
          setService_Some assign_def)
qed

text \<open>
  C11: what \<open>newService\<close> does for a script that does not call back while it loads, on all of its
  branches.  It waits while no worker is free, and takes the free worker with the least number, gives the service the next number,
  registers it (whether or not its script was found or ran), dedicates the worker to a unique
  service and queues the number of any other; a missing or failing script leaves the service
  uninitialised and stops the server.
\<close>

theorem new_service_cases:
  fixes s :: "'z runtime_scheme"
  assumes "\<not> mServiceLock s" "\<not> mWorkerLock (rtWorkers s)" and "mAutoId s \<noteq> i32_max"
    and "\<forall>w \<in> fst ` set (mFreeWorkers (rtWorkers s)). 1 \<le> w \<and> w \<le> length (mWorkers (rtWorkers s))"
  shows "ServiceMgr_newService exists (quiet ok) name src args uniq s =
    (case mFreeWorkers (rtWorkers s) of
       [] \<Rightarrow> Spin s
     | w # rest \<Rightarrow>
    (let run = found exists (mServicePaths s) src;
         wm = (rtWorkers s)\<lparr>mFreeWorkers := rest\<rparr>
     in Done (mAutoId s)
       (s\<lparr>rtWorkers := (if uniq then assign (fst w - 1) (rtNext s) wm else wm),
          rtHeap := (rtHeap s)(rtNext s \<mapsto>
            \<lparr>mId = mAutoId s, mName = name, mState = run, mIsInit = (run \<and> ok), mMsgs = [], mMsgLock = False\<rparr>),
          rtNext := Suc (rtNext s),
          mServices := om_insert (mAutoId s) (rtNext s) (mServices s),
          mAutoId := mAutoId s + 1,
          mFreeServices := (if uniq then mFreeServices s else mFreeServices s @ [mAutoId s]),
          IsRun := (IsRun s \<and> run \<and> ok)\<rparr>)))"
proof (cases "mFreeWorkers (rtWorkers s)")
  case Nil
  with assms(2) show ?thesis by (simp add: ServiceMgr_newService_def wait_worker_run)
next
  case (Cons x rest)
  obtain w b where x: "x = (w, b)" by (cases x)
  with Cons assms(4) have w: "1 \<le> w" "w \<le> length (mWorkers (rtWorkers s))" by simp_all
  from new_service_run [OF assms(1,2) _ w assms(3)] Cons x show ?thesis by simp
qed

text \<open>A server that has just started: \<open>num\<close> messages in the pool and \<open>threads\<close> workers.\<close>

definition runtime_init :: "int \<Rightarrow> string list \<Rightarrow> runtime" where
  "runtime_init threads paths =
     \<lparr>rtPool = \<lparr>mPool = replicate 10 new_msg, mPoolLock = False\<rparr>,
      rtWorkers = init_loop [1 .. threads] empty_worker_mgr,
      rtHeap = (\<lambda>_. None), rtNext = 1, mServices = [], mAutoId = 1, mServicePaths = paths,
      mServiceLock = False, mFreeServices = [], mFreeServiceLock = False,
      mPreDestroyServices = [], mPreDestroyServiceLock = False, IsRun = True\<rparr>"

lemma runtime_init_1 [simp]: "runtime_init 1 paths =
  \<lparr>rtPool = \<lparr>mPool = replicate 10 new_msg, mPoolLock = False\<rparr>,
   rtWorkers = \<lparr>mFreeWorkers = [(1, True)], mWorkers = [\<lparr>wId = 1, mIsRun = True, mService = None\<rparr>], mWorkerLock = False\<rparr>,
   rtHeap = (\<lambda>_. None), rtNext = 1, mServices = [], mAutoId = 1, mServicePaths = paths,
   mServiceLock = False, mFreeServices = [], mFreeServiceLock = False,
   mPreDestroyServices = [], mPreDestroyServiceLock = False, IsRun = True\<rparr>"
  by (simp add: runtime_init_def empty_worker_mgr_def Worker_ctor_def)

theorem new_service_cases_witness:
  "ServiceMgr_newService (\<lambda>f. f = ''srv/a.lua'') (quiet True) ''a'' ''a.lua'' '''' True (runtime_init 1 [''srv'']) =
   Done 1 ((runtime_init 1 [''srv''])\<lparr>
     rtWorkers := \<lparr>mFreeWorkers = [], mWorkers = [\<lparr>wId = 1, mIsRun = True, mService = Some 1\<rparr>], mWorkerLock = False\<rparr>,
     rtHeap := [1 \<mapsto> \<lparr>mId = 1, mName = ''a'', mState = True, mIsInit = True, mMsgs = [], mMsgLock = False\<rparr>],
     rtNext := 2, mServices := [(1, 1)], mAutoId := 2\<rparr>)"
  using new_service_cases [of "runtime_init 1 [''srv'']" "\<lambda>f. f = ''srv/a.lua''" True "''a''" "''a.lua''" "''''" True]
  by (simp add: Worker_setService_def assign_def found_def i32_max_def Let_def numeral_2_eq_2)

section \<open>What a service whose script is missing or fails does to the server\<close>

lemma poll_uninit [op_spec]:
  "rtHeap s p = Some v \<Longrightarrow> \<not> mIsInit v \<Longrightarrow> Service_poll onPoll p s = Done () s"
  by (simp add: Service_poll_def on_service_gets)

lemma wait_close_one:
  assumes "\<not> mServiceLock s" and "\<not> mPoolLock (rtPool s)" and "mServices s = [(i, p)]"
    and "rtHeap s p = Some v" and "\<not> mIsInit v"
  shows "ServiceMgr_waitAllServiceClose s =
    Spin (s\<lparr>rtPool := \<lparr>mPool = tl (mPool (rtPool s)), mPoolLock = True, \<dots> = msg_pool.more (rtPool s)\<rparr>\<rparr>)"
  using assms
  by (simp add: ServiceMgr_waitAllServiceClose_def close_all_def zoom_def pop_free send_run)

text \<open>
  C13: creating a service whose script is not on the service path, or fails, registers it all the
  same; the server is told to stop, but \<open>waitAllServiceClose\<close> then waits without end: the \<open>Close\<close>
  message is dropped, and no poll of the uninitialised service ever runs code that could remove
  it from the map.
\<close>

theorem missing_script_blocks_shutdown:
  fixes s :: "'z runtime_scheme"
  assumes "\<not> mServiceLock s" "\<not> mWorkerLock (rtWorkers s)" "\<not> mPoolLock (rtPool s)"
    and "mFreeWorkers (rtWorkers s) = (w, b) # rest" "1 \<le> w" "w \<le> length (mWorkers (rtWorkers s))"
    and "mAutoId s \<noteq> i32_max" and "mServices s = []"
    and "\<not> (found exists (mServicePaths s) src \<and> ok)"
  shows "\<exists>t u. ServiceMgr_newService exists (quiet ok) name src args uniq s = Done (mAutoId s) t \<and>
    \<not> IsRun t \<and> om_find (mServices t) (mAutoId s) = Some (rtNext s) \<and>
    ServiceMgr_waitAllServiceClose t = Spin u \<and>
    (\<forall>onPoll. Service_poll onPoll (rtNext s) u = Done () u) \<and> mServices u = mServices t"
  using assms new_service_run [OF assms(1,2,4-7), of exists ok name src args uniq]
  by (auto simp: Let_def wait_close_one poll_uninit)

theorem missing_script_blocks_shutdown_witness:
  "\<exists>t u. ServiceMgr_newService (\<lambda>f. False) (quiet True) ''a'' ''a.lua'' '''' True (runtime_init 1 [''srv'']) = Done 1 t \<and>
    \<not> IsRun t \<and> om_find (mServices t) 1 = Some 1 \<and> ServiceMgr_waitAllServiceClose t = Spin u \<and>
    (\<forall>onPoll. Service_poll onPoll 1 u = Done () u) \<and> mServices u = mServices t"
  using missing_script_blocks_shutdown [of "runtime_init 1 [''srv'']" 1 True "[]" "\<lambda>f. False" "''a.lua''" True "''a''" "''''" True]
  by (simp add: found_def i32_max_def)

section \<open>What a pool that stays locked does to the runtime\<close>

text \<open>
  C14: once the pool's mutex is held (which the first \<open>pop\<close> brings about for good), one queued
  message freezes the server in three steps: the worker that polls the service takes the queue's
  lock and waits for the pool without end; from then on a \<open>send\<close> to that service waits, and
  \<open>destoryService\<close> waits with the lock of the map of services in its hands; after it no lookup,
  query or send by any service ever returns.
\<close>

theorem locked_pool_freezes_runtime:
  fixes s :: "'z runtime_scheme"
  assumes "mPoolLock (rtPool s)" and "\<not> mServiceLock s" "\<not> mWorkerLock (rtWorkers s)"
    and "om_find (mServices s) i = Some p" and "rtHeap s p = Some v"
    and "mIsInit v" "\<not> mMsgLock v" "mMsgs v = m # ms" "msg_ok m"
  shows "\<exists>t u. Service_poll (Some f) p s = Spin t \<and>
    (\<forall>msg. ServiceMgr_send i msg t = Spin t) \<and>
    ServiceMgr_destoryService i t = Spin u \<and>
    (\<forall>j msg name. ServiceMgr_getService j u = Spin u \<and> ServiceMgr_send j msg u = Spin u \<and>
       ServiceMgr_queryService name u = Spin u \<and> ServiceMgr_destoryService j u = Spin u)"
proof -
  let ?v = "v\<lparr>mMsgs := ms, mMsgLock := True\<rparr>"
  let ?t = "s\<lparr>rtHeap := (rtHeap s)(p \<mapsto> ?v)\<rparr>"
  let ?u = "?t\<lparr>rtWorkers := unassign p (rtWorkers s), mServiceLock := True\<rparr>"
  have "Service_poll (Some f) p s = Spin ?t"
    using assms by (simp add: Service_poll_def on_service_gets drain_stuck)
  moreover have "ServiceMgr_send i msg ?t = Spin ?t" for msg
    using assms by (simp add: send_run)
  moreover have "ServiceMgr_destoryService i ?t = Spin ?u"
    using destory_msg_lock [of ?t i p ?v] assms by simp
  moreover have "ServiceMgr_getService j ?u = Spin ?u" "ServiceMgr_send j msg ?u = Spin ?u"
      "ServiceMgr_queryService name ?u = Spin ?u" "ServiceMgr_destoryService j ?u = Spin ?u" for j msg name
    by (simp_all add: getService_held send_held ServiceMgr_queryService_def ServiceMgr_destoryService_def)
  ultimately show ?thesis by blast
qed

section \<open>The properties at a concrete state\<close>

text \<open>One initialised service ''a'' with number 1 and the queue \<open>q\<close>; the pool's lock is \<open>b\<close>.\<close>

definition sample :: "bool \<Rightarrow> service_msg list \<Rightarrow> runtime" where
  "sample b q =
     \<lparr>rtPool = \<lparr>mPool = [], mPoolLock = b\<rparr>,
      rtWorkers = \<lparr>mFreeWorkers = [], mWorkers = [\<lparr>wId = 1, mIsRun = True, mService = Some 1\<rparr>], mWorkerLock = False\<rparr>,
      rtHeap = [1 \<mapsto> \<lparr>mId = 1, mName = ''a'', mState = True, mIsInit = True, mMsgs = q, mMsgLock = False\<rparr>],
      rtNext = 2, mServices = [(1, 1)], mAutoId = 2, mServicePaths = [''srv''],
      mServiceLock = False, mFreeServices = [], mFreeServiceLock = False,
      mPreDestroyServices = [], mPreDestroyServiceLock = False, IsRun = True\<rparr>"

theorem send_cases_witness:
  "ServiceMgr_send 1 new_msg (sample False []) = Done () (sample False [new_msg]) \<and>
   ServiceMgr_send 2 new_msg (sample False []) = Done () (sample False [])"
  using send_cases [of 1 new_msg "sample False []"] send_cases [of 2 new_msg "sample False []"]
  by (simp add: sample_def)


theorem query_least_witness:
  "\<exists>i. ServiceMgr_queryService ''a'' (sample False []) = Done i (sample False []) \<and> i = 1"
  using query_least [of "sample False []" "''a''"] by (auto simp: sample_def split: if_splits)

theorem destroy_then_poll_witness:
  "\<exists>t u. ServiceMgr_destoryService 1 (sample False []) = Done () t \<and> ServiceMgr_poll t = Done () u \<and>
    om_find (mServices t) = Map.empty \<and> rtHeap t 1 \<noteq> None \<and> rtHeap u = Map.empty"
  using destroy_then_poll [of "sample False []" 1 1
    "\<lparr>mId = 1, mName = ''a'', mState = True, mIsInit = True, mMsgs = [], mMsgLock = False\<rparr>"]
  by (auto simp: sample_def fun_eq_iff)

theorem locked_pool_freezes_runtime_witness:
  "\<exists>t u. Service_poll (Some (\<lambda>ms. ret True)) 1 (sample True [new_msg]) = Spin t \<and>
    (\<forall>msg. ServiceMgr_send 1 msg t = Spin t) \<and> ServiceMgr_destoryService 1 t = Spin u \<and>
    (\<forall>j msg name. ServiceMgr_getService j u = Spin u \<and> ServiceMgr_send j msg u = Spin u \<and>
       ServiceMgr_queryService name u = Spin u \<and> ServiceMgr_destoryService j u = Spin u)"
  by (rule locked_pool_freezes_runtime [of "sample True [new_msg]" 1 1
        "\<lparr>mId = 1, mName = ''a'', mState = True, mIsInit = True, mMsgs = [new_msg], mMsgLock = False\<rparr>"
        new_msg "[]"]) (simp_all add: sample_def)

end
