(* ===== verification/LuaService.thy ===== *)
theory LuaService
  imports RuntimeFacts
begin

text \<open>
  \<open>src/service/luaService.cpp\<close> and the core table of \<open>src/lua/luaApi.cpp\<close>: what a Lua script can
  call.  The Lua library is not part of the repository: an argument is given as the \<open>luaL_check\<close>
  function of the call sees it, \<open>None\<close> where that function raises; \<open>sid\<close> is the global
  \<open>SERVICE_ID\<close> of the script's state, which only a service's state has.  A C string taken from an
  argument ends at its first NUL.
\<close>

definition luaL_check :: "'a option \<Rightarrow> ('s, 'a) op" where
  "luaL_check v = (case v of None \<Rightarrow> raise LuaError | Some x \<Rightarrow> ret x)"

lemma luaL_check_run [simp, op_simps]:
  "luaL_check None s = Fault LuaError s" "luaL_check (Some x) s = Done x s"
  by (simp_all add: luaL_check_def)

section \<open>Services: \<open>luaService.cpp\<close>\<close>

definition lua_newService ::
  "(string \<Rightarrow> bool) \<Rightarrow> (ptr \<Rightarrow> string \<Rightarrow> string \<Rightarrow> ('z runtime_scheme, bool) op) \<Rightarrow>
   string option \<Rightarrow> string option \<Rightarrow> bool \<Rightarrow> string option \<Rightarrow> ('z runtime_scheme, int) op"
where
  "lua_newService exists load a1 a2 isUnique a4 =
     bind (luaL_check a1) (\<lambda>name.
     bind (luaL_check a2) (\<lambda>src.
     bind (luaL_check a4) (\<lambda>args.
       ServiceMgr_newService exists load (c_str name) (c_str src) (c_str args) isUnique)))"

definition lua_queryService :: "string option \<Rightarrow> ('z runtime_scheme, int) op" where
  "lua_queryService a1 = bind (luaL_check a1) (\<lambda>name. ServiceMgr_queryService (c_str name))"

definition lua_destoryService :: "int option \<Rightarrow> ('z runtime_scheme, unit) op" where
  "lua_destoryService a1 = bind (luaL_check a1) (\<lambda>i. ServiceMgr_destoryService (to_i32 i))"

text \<open>
  How every sender fills a message's buffer: it grows the buffer to one byte more than the data
  when its own test \<open>grow\<close> says so, and copies the data to the front.  The test of \<open>sendService\<close>
  compares with \<open>size() - 1\<close>, which is unsigned: an empty buffer counts as the largest one.
\<close>

definition fill_buffer :: "bool \<Rightarrow> bytes \<Rightarrow> service_msg \<Rightarrow> ('s, service_msg) op" where
  "fill_buffer grow data msg =
     bind (memcpy (if grow then resize (length data + 1) (msg_data msg) else msg_data msg) data (length data))
       (\<lambda>d. ret (msg\<lparr>msg_data := d\<rparr>))"

definition size_minus_1 :: "bytes \<Rightarrow> nat" where
  "size_minus_1 xs = (if xs = [] then 2 ^ 64 - 1 else length xs - 1)"

definition filled :: "bool \<Rightarrow> bytes \<Rightarrow> bytes \<Rightarrow> bytes" where
  "filled grow data buf = data @ drop (length data) (if grow then resize (length data + 1) buf else buf)"

lemma take_filled [simp]: "take (length data) (filled grow data buf) = data"
  by (simp add: filled_def)

lemma length_filled [simp]:
  "length (filled grow data buf) = (if grow then length data + 1 else max (length data) (length buf))"
  by (auto simp: filled_def max_def)

lemma fill_buffer_run [op_spec]:
  "grow \<or> length data \<le> length (msg_data msg) \<Longrightarrow>
   fill_buffer grow data msg s = Done (msg\<lparr>msg_data := filled grow data (msg_data msg)\<rparr>) s"
  by (auto simp: fill_buffer_def memcpy_run filled_def)

definition sendService ::
  "int option \<Rightarrow> int option \<Rightarrow> int option \<Rightarrow> int option \<Rightarrow> bool \<Rightarrow> bytes option \<Rightarrow> ('z runtime_scheme, unit) op"
where
  "sendService sid a1 a2 a3 isOk a5 =
     bind (luaL_check a1) (\<lambda>target.
     bind (luaL_check a2) (\<lambda>msgType.
     bind (luaL_check a3) (\<lambda>session.
     bind (luaL_check a5) (\<lambda>data.
     bind (luaL_check sid) (\<lambda>serviceId.
       if msgType \<le> 0 then ret ()
       else
         bind (poolop ServiceMsgPool_pop) (\<lambda>msg0.
         let dataLen = length data;
             msg1 = msg0\<lparr>msg_type := to_u32 msgType, msg_dataLen := dataLen, msg_isOk := isOk\<rparr>
         in bind (if dataLen > 0 then fill_buffer (size_minus_1 (msg_data msg1) < dataLen) data msg1 else ret msg1) (\<lambda>msg2.
            ServiceMgr_send (to_i32 target)
              (msg2\<lparr>msg_source := to_u32 serviceId, msg_session := to_u32 session\<rparr>))))))))"

section \<open>The core table: \<open>luaApi.cpp\<close>\<close>

text \<open>
  \<open>Envs\<close> with its mutex, the Lua search paths and the timers that wait in the \<open>IoContext\<close>, each
  with the session and the service it was set for (asio runs a timer's callback once, from the
  main thread's \<open>IoContext.poll()\<close>, with no error when the timer expired).
\<close>

record core = runtime +
  Envs :: "string \<Rightarrow> string option"
  EnvLock :: bool
  CPath :: string
  LuaPath :: string
  IoTimers :: "(int \<times> int) list"

interpretation env_lock: lock_field EnvLock EnvLock_update
  by unfold_locales simp_all

text \<open>\<open>core.setEnv\<close> returns the top of its stack, its second argument.\<close>

definition lua_setEnv :: "string option \<Rightarrow> string option \<Rightarrow> ('z core_scheme, string) op" where
  "lua_setEnv a1 a2 =
     bind (luaL_check a1) (\<lambda>key.
     bind (luaL_check a2) (\<lambda>value.
     andthen (acquire EnvLock EnvLock_update)
    (andthen (modify (\<lambda>s. s\<lparr>Envs := (case Envs s (c_str key) of
                                     None \<Rightarrow> (Envs s)(c_str key \<mapsto> c_str value)
                                   | Some old \<Rightarrow> Envs s)\<rparr>))
    (andthen (release EnvLock_update) (ret value)))))"

text \<open>
  \<open>core.env\<close> returns the top of its stack: the value when there is one, and otherwise what is
  there already, its argument.
\<close>

definition lua_env :: "string option \<Rightarrow> ('z core_scheme, string) op" where
  "lua_env a1 =
     bind (luaL_check a1) (\<lambda>key.
     andthen (acquire EnvLock EnvLock_update)
    (bind (gets (\<lambda>s. Envs s (c_str key))) (\<lambda>v.
     andthen (release EnvLock_update)
       (ret (case v of Some value \<Rightarrow> c_str value | None \<Rightarrow> key)))))"

definition lua_timer :: "int option \<Rightarrow> int option \<Rightarrow> int option \<Rightarrow> ('z core_scheme, unit) op" where
  "lua_timer sid a1 a2 =
     bind (luaL_check a1) (\<lambda>session.
     bind (luaL_check a2) (\<lambda>millsecond.
     bind (luaL_check sid) (\<lambda>serviceId.
       modify (\<lambda>s. s\<lparr>IoTimers := IoTimers s @ [(session, serviceId)]\<rparr>))))"

text \<open>The callback of a timer; \<open>ec\<close> is the error code it is called with.\<close>

definition timer_fire :: "bool \<Rightarrow> int \<Rightarrow> int \<Rightarrow> ('z runtime_scheme, unit) op" where
  "timer_fire ec session serviceId =
     (if ec then ret ()
      else bind (poolop ServiceMsgPool_pop) (\<lambda>msg.
             ServiceMgr_send (to_i32 serviceId)
               (msg\<lparr>msg_session := to_u32 session, msg_type := msg_type_code MsgTimer\<rparr>)))"

definition luaSetCPath :: "string \<Rightarrow> ('z core_scheme, unit) op" where
  "luaSetCPath path = modify (\<lambda>s. s\<lparr>CPath := path\<rparr>)"

definition luaSetLuaPath :: "string \<Rightarrow> ('z core_scheme, unit) op" where
  "luaSetLuaPath path = modify (\<lambda>s. s\<lparr>LuaPath := path\<rparr>)"

text \<open>\<open>luaNewState\<close>: the \<open>path\<close> and \<open>cpath\<close> of the new state's package table.\<close>

definition luaNewState :: "string \<Rightarrow> ('z core_scheme, string \<times> string) op" where
  "luaNewState externLuaPath =
     gets (\<lambda>s.
       let path = LuaPath s;
           path = (if length externLuaPath > 0 then externLuaPath @ '';'' @ path else path)
       in (c_str path, c_str (CPath s)))"

section \<open>Sending\<close>

text \<open>The message that \<open>sendService\<close> makes of a message \<open>m0\<close> out of the pool.\<close>

definition sent_msg :: "int \<Rightarrow> int \<Rightarrow> int \<Rightarrow> bool \<Rightarrow> bytes \<Rightarrow> service_msg \<Rightarrow> service_msg" where
  "sent_msg sid msgType session isOk data m0 =
     m0\<lparr>msg_type := to_u32 msgType, msg_dataLen := length data, msg_isOk := isOk,
        msg_data := filled (length (msg_data m0) - 1 < length data) data (msg_data m0),
        msg_source := to_u32 sid, msg_session := to_u32 session\<rparr>"

lemma sent_msg_ok: "msg_ok m0 \<Longrightarrow> msg_ok (sent_msg sid t se k data m0)"
  by (auto simp: msg_ok_def sent_msg_def)

text \<open>The message that the pool's next \<open>pop\<close> gives, and the pool after it.\<close>

definition pool_head :: "msg_pool \<Rightarrow> service_msg" where
  "pool_head p = (case mPool p of [] \<Rightarrow> new_msg | m # ms \<Rightarrow> m)"

definition popped :: "msg_pool \<Rightarrow> msg_pool" where
  "popped p = p\<lparr>mPool := tl (mPool p), mPoolLock := True\<rparr>"

lemma poolop_pop [op_spec]:
  "\<not> mPoolLock (rtPool s) \<Longrightarrow>
   poolop ServiceMsgPool_pop s = Done (pool_head (rtPool s)) (s\<lparr>rtPool := popped (rtPool s)\<rparr>)"
  by (simp add: zoom_Done pop_free pool_head_def popped_def)

lemma poolop_pop_held [op_spec]:
  "mPoolLock (rtPool s) \<Longrightarrow> poolop ServiceMsgPool_pop s = Spin s"
  by (simp add: zoom_Spin pop_held)

lemma pool_head_ok: "pool_ok p \<Longrightarrow> msg_ok (pool_head p) \<and> ServiceMsg_reset (pool_head p) = pool_head p"
  by (auto simp: pool_ok_def pool_head_def reset_new split: list.split)

lemma sendService_run [op_spec]:
  fixes s :: "'z runtime_scheme"
  assumes "0 < msgType" and "\<not> mPoolLock (rtPool s)" and "pool_ok (rtPool s)"
  shows "sendService (Some sid) (Some target) (Some msgType) (Some session) isOk (Some data) s =
    ServiceMgr_send (to_i32 target) (sent_msg sid msgType session isOk data (pool_head (rtPool s)))
      (s\<lparr>rtPool := popped (rtPool s)\<rparr>)"
proof -
  let ?m = "pool_head (rtPool s)"
  let ?m1 = "?m\<lparr>msg_type := to_u32 msgType, msg_dataLen := length data, msg_isOk := isOk\<rparr>"
  let ?g = "size_minus_1 (msg_data ?m1) < length data"
  have ne: "msg_data ?m \<noteq> []" using pool_head_ok [OF assms(3)] by (auto simp: msg_ok_def)
  then have g: "?g = (length (msg_data ?m) - 1 < length data)" by (simp add: size_minus_1_def)
  show ?thesis
  proof (cases "data = []")
    case True
    then have "sent_msg sid msgType session isOk data ?m = ?m1\<lparr>msg_source := to_u32 sid, msg_session := to_u32 session\<rparr>"
      using ne by (cases ?m) (simp add: sent_msg_def filled_def)
    with True assms(1,2) show ?thesis by (simp add: sendService_def poolop_pop)
  next
    case False
    have "?g \<or> length data \<le> length (msg_data ?m1)" using ne by (auto simp: size_minus_1_def)
    note f = fill_buffer_run [OF this]
    from False assms(1,2) show ?thesis
      by (simp add: sendService_def poolop_pop Let_def f [simplified]) (simp add: sent_msg_def g [simplified])
  qed
qed

lemma reset_fields:
  "msg_source (ServiceMsg_reset m) = 0" "msg_session (ServiceMsg_reset m) = 0"
  "msg_type (ServiceMsg_reset m) = 0" "msg_status (ServiceMsg_reset m) = 0"
  "msg_dataLen (ServiceMsg_reset m) = 0" "\<not> msg_isOk (ServiceMsg_reset m)"
  "msg_error (ServiceMsg_reset m) = []" "msg_fd (ServiceMsg_reset m) = msg_fd m"
  by (simp_all add: ServiceMsg_reset_def)

text \<open>
  C7: a script's \<open>send\<close> with a message type of 0 or less, once its arguments are checked, does
  nothing at all; with any other type it sends exactly one message, which carries the sender's
  number, the session, the flag and exactly the bytes of the string (its buffer grows as needed,
  so the copy never leaves it), to the queue of the target; and it leaves the pool's lock held, so
  that the second \<open>send\<close> of the server's life, from any script, waits without end.
\<close>

theorem sendService_message:
  fixes s :: "'z runtime_scheme"
  assumes "\<not> mPoolLock (rtPool s)" "pool_ok (rtPool s)" "\<not> mServiceLock s"
    and "om_find (mServices s) (to_i32 target) = Some p" "rtHeap s p = Some v"
    and "mIsInit v" "\<not> mMsgLock v"
  shows "if msgType \<le> 0
    then sendService (Some sid) (Some target) (Some msgType) (Some session) isOk (Some data) s = Done () s
    else \<exists>m t. sendService (Some sid) (Some target) (Some msgType) (Some session) isOk (Some data) s = Done () t \<and>
      msg_ok m \<and> rtHeap t = (rtHeap s)(p \<mapsto> v\<lparr>mMsgs := mMsgs v @ [m]\<rparr>) \<and>
      msg_table m = \<lparr>lm_msgType = uint (to_u32 msgType), lm_session = uint (to_u32 session),
        lm_source = uint (to_u32 sid), lm_data = data, lm_error = '''', lm_status = 0,
        lm_fd = uint (msg_fd (pool_head (rtPool s))), lm_isOk = isOk\<rparr> \<and>
      (\<forall>sid' target' type' session' isOk' data'. 0 < type' \<longrightarrow>
        sendService (Some sid') (Some target') (Some type') (Some session') isOk' (Some data') t = Spin t)"
proof (cases "msgType \<le> 0")
  case True
  then show ?thesis by (simp add: sendService_def)
next
  case False
  let ?m = "sent_msg sid msgType session isOk data (pool_head (rtPool s))"
  let ?t = "s\<lparr>rtPool := popped (rtPool s), rtHeap := (rtHeap s)(p \<mapsto> v\<lparr>mMsgs := mMsgs v @ [?m]\<rparr>)\<rparr>"
  have h: "msg_ok (pool_head (rtPool s))" "ServiceMsg_reset (pool_head (rtPool s)) = pool_head (rtPool s)"
    using pool_head_ok [OF assms(2)] by auto
  then have e: "msg_error (pool_head (rtPool s)) = ''''" "msg_status (pool_head (rtPool s)) = 0"
    using reset_fields [of "pool_head (rtPool s)"] by simp_all
  have run: "sendService (Some sid) (Some target) (Some msgType) (Some session) isOk (Some data) s = Done () ?t"
    using assms False by (simp add: sendService_run send_run)
  moreover have "msg_ok ?m" using h(1) by (rule sent_msg_ok)
  moreover have "msg_table ?m = \<lparr>lm_msgType = uint (to_u32 msgType), lm_session = uint (to_u32 session),
        lm_source = uint (to_u32 sid), lm_data = data, lm_error = '''', lm_status = 0,
        lm_fd = uint (msg_fd (pool_head (rtPool s))), lm_isOk = isOk\<rparr>"
    by (simp add: msg_table_def sent_msg_def e c_str_def)
  moreover have "sendService (Some sid') (Some target') (Some type') (Some session') isOk' (Some data') ?t = Spin ?t"
    if "0 < type'" for sid' target' type' session' isOk' data'
    using that by (simp add: sendService_def poolop_pop_held popped_def)
  ultimately show ?thesis using False by auto
qed

theorem sendService_message_witness:
  "\<exists>m t. sendService (Some 1) (Some 1) (Some 3) (Some 9) True (Some [65, 0, 66]) (sample False []) = Done () t \<and>
      msg_ok m \<and> (\<exists>v. rtHeap t 1 = Some v \<and> mMsgs v = [m]) \<and>
      lm_data (msg_table m) = [65, 0, 66] \<and> lm_session (msg_table m) = 9 \<and>
      sendService (Some 1) (Some 1) (Some 3) (Some 9) True (Some [65]) t = Spin t"
proof -
  have "\<exists>m t. sendService (Some 1) (Some 1) (Some 3) (Some 9) True (Some [65, 0, 66]) (sample False []) = Done () t \<and>
      msg_ok m \<and> rtHeap t = (rtHeap (sample False []))(1 \<mapsto>
        (\<lparr>mId = 1, mName = ''a'', mState = True, mIsInit = True, mMsgs = [] @ [m], mMsgLock = False\<rparr>)) \<and>
      msg_table m = \<lparr>lm_msgType = 3, lm_session = 9, lm_source = 1, lm_data = [65, 0, 66], lm_error = '''',
        lm_status = 0, lm_fd = 0, lm_isOk = True\<rparr> \<and>
      (\<forall>sid' target' type' session' isOk' data'. 0 < type' \<longrightarrow>
        sendService (Some sid') (Some target') (Some type') (Some session') isOk' (Some data') t = Spin t)"
    using sendService_message [of "sample False []" 1 1
      "\<lparr>mId = 1, mName = ''a'', mState = True, mIsInit = True, mMsgs = [], mMsgLock = False\<rparr>" 3 1 9 True "[65, 0, 66]"]
    by (simp add: sample_def pool_ok_def pool_head_def new_msg_def to_i32_def to_u32_def)
  then show ?thesis by fastforce
qed

section \<open>Environment values and timers\<close>

text \<open>
  The first \<open>setEnv\<close> of a key decides its value for good, and a key that was never set reads
  as itself: \<open>env\<close> returns its own argument, not nil.
\<close>

theorem env_after_sets:
  fixes s :: "'z core_scheme"
  assumes "\<not> EnvLock s" and "c_str k = k" and "\<forall>e \<in> set kvs. c_str (fst e) = fst e \<and> c_str (snd e) = snd e"
    and "Envs s = Map.empty"
  shows "\<exists>t. run_all (\<lambda>e. lua_setEnv (Some (fst e)) (Some (snd e))) kvs s = Done (map snd kvs) t \<and>
    lua_env (Some k) t = Done (case map_of kvs k of None \<Rightarrow> k | Some v \<Rightarrow> v) t"
proof -
  have gen: "\<exists>t. run_all (\<lambda>e. lua_setEnv (Some (fst e)) (Some (snd e))) kvs s = Done (map snd kvs) t \<and>
      \<not> EnvLock t \<and> Envs t = map_of kvs ++ Envs s"
    if "\<not> EnvLock s" "\<forall>e \<in> set kvs. c_str (fst e) = fst e \<and> c_str (snd e) = snd e"
    for kvs and s :: "'z core_scheme"
    using that
  proof (induction kvs arbitrary: s)
    case (Cons e kvs)
    let ?s = "s\<lparr>Envs := (case Envs s (fst e) of None \<Rightarrow> (Envs s)(fst e \<mapsto> snd e) | Some old \<Rightarrow> Envs s)\<rparr>"
    have 1: "lua_setEnv (Some (fst e)) (Some (snd e)) s = Done (snd e) ?s"
      using Cons.prems by (cases "Envs s (fst e)") (simp_all add: lua_setEnv_def)
    obtain t where t: "run_all (\<lambda>e. lua_setEnv (Some (fst e)) (Some (snd e))) kvs ?s = Done (map snd kvs) t"
        "\<not> EnvLock t" "Envs t = map_of kvs ++ Envs ?s"
      using Cons.IH [of ?s] Cons.prems by auto
    have "map_of kvs ++ Envs ?s = map_of (e # kvs) ++ Envs s"
      by (cases e) (auto simp: fun_eq_iff map_add_def split: option.split)
    with 1 t show ?case by (simp add: fun_upd_def)
  qed simp
  from gen [OF assms(1,3)] obtain t where t:
      "run_all (\<lambda>e. lua_setEnv (Some (fst e)) (Some (snd e))) kvs s = Done (map snd kvs) t"
      "\<not> EnvLock t" "Envs t = map_of kvs"
    using assms(4) by auto
  have "c_str v = v" if "map_of kvs k = Some v" for v
    using map_of_SomeD [OF that] assms(3) by auto
  with t assms(2) have "lua_env (Some k) t = Done (case map_of kvs k of None \<Rightarrow> k | Some v \<Rightarrow> v) t"
    by (auto simp: lua_env_def split: option.split)
  with t(1) show ?thesis by blast
qed

text \<open>A core state with no environment values and no timers, over a runtime.\<close>

definition core_init :: "runtime \<Rightarrow> core" where
  "core_init r = runtime.extend r
     \<lparr>Envs = Map.empty, EnvLock = False, CPath = '''', LuaPath = '''', IoTimers = []\<rparr>"

theorem env_after_sets_witness:
  "\<exists>t. run_all (\<lambda>e. lua_setEnv (Some (fst e)) (Some (snd e))) [(''a'', ''1''), (''a'', ''2'')]
        (core_init (sample False [])) = Done [''1'', ''2''] t \<and>
      lua_env (Some ''a'') t = Done ''1'' t"
  using env_after_sets [of "core_init (sample False [])" "''a''" "[(''a'', ''1''), (''a'', ''2'')]"]
  by (simp add: core_init_def sample_def runtime.defs c_str_def)

text \<open>
  A timer that expires sends its service one message of type \<open>Timer\<close> with the timer's session,
  no data and with the session truncated to 32 bits; one that ends with an error sends nothing.
\<close>

theorem timer_fires:
  fixes s :: "'z runtime_scheme"
  assumes "\<not> mPoolLock (rtPool s)" "pool_ok (rtPool s)" "\<not> mServiceLock s"
    and "om_find (mServices s) (to_i32 sid) = Some p" "rtHeap s p = Some v" "mIsInit v" "\<not> mMsgLock v"
  shows "timer_fire True session sid s = Done () s \<and>
    (\<exists>m t. timer_fire False session sid s = Done () t \<and>
      rtHeap t = (rtHeap s)(p \<mapsto> v\<lparr>mMsgs := mMsgs v @ [m]\<rparr>) \<and>
      msg_table m = \<lparr>lm_msgType = 2, lm_session = uint (to_u32 session), lm_source = 0, lm_data = [],
        lm_error = '''', lm_status = 0, lm_fd = uint (msg_fd (pool_head (rtPool s))), lm_isOk = False\<rparr>)"
proof -
  let ?h = "pool_head (rtPool s)"
  let ?m = "?h\<lparr>msg_session := to_u32 session, msg_type := msg_type_code MsgTimer\<rparr>"
  have "ServiceMsg_reset ?h = ?h" using pool_head_ok [OF assms(2)] by simp
  with reset_fields [of ?h] have "msg_table ?m =
     \<lparr>lm_msgType = 2, lm_session = uint (to_u32 session), lm_source = 0, lm_data = [],
        lm_error = '''', lm_status = 0, lm_fd = uint (msg_fd ?h), lm_isOk = False\<rparr>"
    by (simp add: msg_table_def c_str_def)
  with assms show ?thesis by (auto simp: timer_fire_def poolop_pop send_run)
qed

theorem timer_fires_witness:
  "timer_fire True 5 1 (sample False []) = Done () (sample False []) \<and>
   (\<exists>t m. timer_fire False 5 1 (sample False []) = Done () t \<and> lm_session (msg_table m) = 5 \<and>
      (\<exists>v. rtHeap t 1 = Some v \<and> mMsgs v = [m]))"
proof -
  have "timer_fire True 5 1 (sample False []) = Done () (sample False []) \<and>
    (\<exists>m t. timer_fire False 5 1 (sample False []) = Done () t \<and>
      rtHeap t = (rtHeap (sample False []))(1 \<mapsto>
        (\<lparr>mId = 1, mName = ''a'', mState = True, mIsInit = True, mMsgs = [] @ [m], mMsgLock = False\<rparr>)) \<and>
      msg_table m = \<lparr>lm_msgType = 2, lm_session = 5, lm_source = 0, lm_data = [],
        lm_error = '''', lm_status = 0, lm_fd = 0, lm_isOk = False\<rparr>)"
    using timer_fires [of "sample False []" 1 1
      "\<lparr>mId = 1, mName = ''a'', mState = True, mIsInit = True, mMsgs = [], mMsgLock = False\<rparr>" 5]
    by (simp add: sample_def pool_ok_def pool_head_def new_msg_def to_i32_def to_u32_def)
  then show ?thesis by fastforce
qed

end
