(* ===== verification/Scheduler.thy ===== *)
theory Scheduler
  imports LuaService
begin

text \<open>
  The running server: \<open>Worker::run\<close> (\<open>src/worker/worker.cpp\<close>), the main loop of
  \<open>src/main.cpp\<close> and the scripts they run, as one step relation.  A step is one critical section
  or one call from a script into the runtime; a script is any sequence of such calls, so what is
  proved holds for every script.  Each lock is free between two steps unless its holder waits
  without end (\<open>Hung\<close>) or has forgotten it (the pool's), so a thread whose call ends in \<open>Spin\<close>
  never runs again.
\<close>

section \<open>Calls that a script makes\<close>

datatype api =
    ASend "int option" "int option" "int option" "int option" bool "bytes option"
  | AQuery "string option"
  | ADestroy "int option"
  | ASetEnv "string option" "string option"
  | AEnv "string option"
  | ATimer "int option" "int option" "int option"
  | AExit

fun api_run :: "api \<Rightarrow> ('z core_scheme, unit) op" where
  "api_run (ASend sid a1 a2 a3 isOk a5) = sendService sid a1 a2 a3 isOk a5"
| "api_run (AQuery a1) = bind (lua_queryService a1) (\<lambda>_. ret ())"
| "api_run (ADestroy a1) = lua_destoryService a1"
| "api_run (ASetEnv a1 a2) = bind (lua_setEnv a1 a2) (\<lambda>_. ret ())"
| "api_run (AEnv a1) = bind (lua_env a1) (\<lambda>_. ret ())"
| "api_run (ATimer sid a1 a2) = lua_timer sid a1 a2"
| "api_run AExit = luaExit"

section \<open>The stages of \<open>newService\<close>\<close>

text \<open>
  \<open>newService\<close> is not one critical section: it takes a worker and a number, opens the script,
  lets it run (it may call the runtime, \<open>newService\<close> included), registers the service and hands
  it to its worker or to the queue.  A frame is a call of it under way.
\<close>

datatype stage = Load | Register | Hand

record frame =
  f_worker :: "nat option"
  f_id :: int
  f_ptr :: ptr
  f_uniq :: bool
  f_stage :: stage

definition new_begin :: "string \<Rightarrow> ('z runtime_scheme, nat option \<times> int \<times> ptr) op" where
  "new_begin name =
     bind wait_worker (\<lambda>workerId.
     bind (workerop (WorkerMgr_getWorker workerId)) (\<lambda>worker.
     bind (post_incr mAutoId mAutoId_update) (\<lambda>i.
     bind (alloc_service i name) (\<lambda>p. ret (worker, i, p)))))"

definition ctor_open :: "(string \<Rightarrow> bool) \<Rightarrow> ptr \<Rightarrow> string \<Rightarrow> ('z runtime_scheme, string option) op" where
  "ctor_open exists p src =
     bind (gets mServicePaths) (\<lambda>basePaths.
       case List.find (\<lambda>b. exists (b @ ''/'' @ src)) basePaths of
         None \<Rightarrow> andthen luaExit (ret None)
       | Some rootPath \<Rightarrow>
           andthen (on_service p (modify (\<lambda>v. v\<lparr>mState := True\<rparr>))) (ret (Some (rootPath @ ''/'' @ src))))"

definition ctor_close :: "ptr \<Rightarrow> bool \<Rightarrow> ('z runtime_scheme, unit) op" where
  "ctor_close p ok = (if \<not> ok then luaExit else on_service p (modify (\<lambda>v. v\<lparr>mIsInit := True\<rparr>)))"

definition new_register :: "int \<Rightarrow> ptr \<Rightarrow> ('z runtime_scheme, unit) op" where
  "new_register i p =
     andthen (acquire mServiceLock mServiceLock_update)
    (andthen (modify (\<lambda>s. s\<lparr>mServices := om_insert i p (mServices s)\<rparr>))
             (release mServiceLock_update))"

definition new_hand :: "nat option \<Rightarrow> int \<Rightarrow> ptr \<Rightarrow> bool \<Rightarrow> ('z runtime_scheme, unit) op" where
  "new_hand worker i p isUnique =
     (if isUnique then workerop (setService_at worker (Some p))
      else modify (\<lambda>s. s\<lparr>mFreeServices := mFreeServices s @ [i]\<rparr>))"

text \<open>The stages are \<open>newService\<close>, taken apart.\<close>

lemma newService_stages:
  fixes load :: "ptr \<Rightarrow> string \<Rightarrow> string \<Rightarrow> ('z runtime_scheme, bool) op"
  shows "ServiceMgr_newService exists load name src args uniq =
     bind (new_begin name) (\<lambda>(worker, i, p).
     bind (ctor_open exists p src) (\<lambda>file.
     andthen (case file of None \<Rightarrow> ret () | Some f \<Rightarrow> bind (load p f args) (ctor_close p))
    (andthen (new_register i p) (andthen (new_hand worker i p uniq) (ret i)))))"
proof -
  have c: "andthen (Service_ctor exists load p src args) k =
      bind (ctor_open exists p src) (\<lambda>file.
        andthen (case file of None \<Rightarrow> ret () | Some f \<Rightarrow> bind (load p f args) (ctor_close p)) k)"
    for k :: "('z runtime_scheme, int) op" and p
    unfolding Service_ctor_def ctor_open_def ctor_close_def bind_assoc
    by (rule arg_cong [of _ _ "bind (gets mServicePaths)"]) (auto simp: bind_assoc fun_eq_iff split: option.split)
  show ?thesis
    unfolding ServiceMgr_newService_def new_begin_def new_register_def new_hand_def bind_assoc c
    by (simp add: bind_assoc)
qed

section \<open>One action of a script\<close>

text \<open>
  A script acts by a call, by \<open>newService\<close> and its stages, or by coming to its end.  Its frames are
  the calls of \<open>newService\<close> it is inside of, the innermost first; while a new service's script
  runs, it is the one that acts.
\<close>

datatype act = Call api | New string string bool | EndScript bool | DoRegister | DoHand

datatype script = Running "frame list" | Ended bool

fun runs :: "frame list \<Rightarrow> bool" where
  "runs [] = True"
| "runs (f # fs) = (f_stage f = Load)"

fun enabled :: "act \<Rightarrow> frame list \<Rightarrow> bool" where
  "enabled (Call a) fs = runs fs"
| "enabled (New name src uniq) fs = runs fs"
| "enabled (EndScript ok) fs = runs fs"
| "enabled DoRegister fs = (fs \<noteq> [] \<and> f_stage (hd fs) = Register)"
| "enabled DoHand fs = (fs \<noteq> [] \<and> f_stage (hd fs) = Hand)"

text \<open>The end of the running script, by its last line (\<open>ok\<close>) or by an error.\<close>

fun end_script :: "bool \<Rightarrow> frame list \<Rightarrow> ('z runtime_scheme, script) op" where
  "end_script ok [] = ret (Ended ok)"
| "end_script ok (f # fs) = andthen (ctor_close (f_ptr f) ok) (ret (Running (f\<lparr>f_stage := Register\<rparr> # fs)))"

text \<open>A call that raises a Lua error ends the running script.\<close>

definition catch :: "('s, 'a) op \<Rightarrow> ('s, 'a) op \<Rightarrow> ('s, 'a) op" where
  "catch m h s = (case m s of Fault e t \<Rightarrow> if e = LuaError then h t else Fault e t | r \<Rightarrow> r)"

fun lua_act :: "(string \<Rightarrow> bool) \<Rightarrow> act \<Rightarrow> frame list \<Rightarrow> ('z core_scheme, script) op" where
  "lua_act exists (Call a) fs = catch (andthen (api_run a) (ret (Running fs))) (end_script False fs)"
| "lua_act exists (New name src uniq) fs =
     bind (new_begin name) (\<lambda>(worker, i, p).
     bind (ctor_open exists p src) (\<lambda>file.
       ret (Running (\<lparr>f_worker = worker, f_id = i, f_ptr = p, f_uniq = uniq,
                      f_stage = (if file = None then Register else Load)\<rparr> # fs))))"
| "lua_act exists (EndScript ok) fs = end_script ok fs"
| "lua_act exists DoRegister fs =
     andthen (new_register (f_id (hd fs)) (f_ptr (hd fs)))
       (ret (Running ((hd fs)\<lparr>f_stage := Hand\<rparr> # tl fs)))"
| "lua_act exists DoHand fs =
     andthen (new_hand (f_worker (hd fs)) (f_id (hd fs)) (f_ptr (hd fs)) (f_uniq (hd fs)))
       (ret (Running (tl fs)))"

section \<open>Threads\<close>

text \<open>
  Where a worker's thread stands in \<open>Worker::run\<close>: before reading its service, with a number out
  of the queue, about to poll, in the Lua function, about to give the number back.  The number is
  0 when the service is the worker's own.  The main thread runs the start script, then its loop,
  then closes the services and joins the workers one by one.
\<close>

datatype pc =
    Top
  | GotId int
  | Polling ptr int
  | InLua ptr int "frame list"
  | Back int
  | Stopped
  | Hung pc

datatype main_pc =
    MStart "frame list"
  | MLoop
  | MIo
  | MClosing
  | MJoin bool nat
  | MEnd
  | MHung "frame list"

record sys =
  sRt :: core
  sPc :: "nat \<Rightarrow> pc"
  sMain :: main_pc
  sCrash :: "fault option"

definition set_pc :: "nat \<Rightarrow> pc \<Rightarrow> core \<Rightarrow> sys \<Rightarrow> sys" where
  "set_pc w q t s = s\<lparr>sRt := t, sPc := (sPc s)(w := q)\<rparr>"

definition set_main :: "main_pc \<Rightarrow> core \<Rightarrow> sys \<Rightarrow> sys" where
  "set_main q t s = s\<lparr>sRt := t, sMain := q\<rparr>"

definition crashed :: "fault \<Rightarrow> sys \<Rightarrow> sys" where
  "crashed e s = s\<lparr>sCrash := Some e\<rparr>"

text \<open>What follows a worker's call: the next place, or the thread hangs, or the process dies.\<close>

definition worker_next :: "nat \<Rightarrow> ('a, core) outcome \<Rightarrow> ('a \<Rightarrow> pc) \<Rightarrow> sys \<Rightarrow> sys" where
  "worker_next w r k s =
     (case r of Done a t \<Rightarrow> set_pc w (k a) t s
      | Spin t \<Rightarrow> set_pc w (Hung (sPc s w)) t s
      | Fault e t \<Rightarrow> crashed e s)"

definition main_next :: "('a, core) outcome \<Rightarrow> ('a \<Rightarrow> main_pc) \<Rightarrow> frame list \<Rightarrow> sys \<Rightarrow> sys" where
  "main_next r k fs s =
     (case r of Done a t \<Rightarrow> set_main (k a) t s
      | Spin t \<Rightarrow> set_main (MHung fs) t s
      | Fault e t \<Rightarrow> crashed e s)"

text \<open>
  The step of a worker whose script acts: every access to the script's state needs the service
  object that owns it.
\<close>

definition alive :: "ptr \<Rightarrow> ('z runtime_scheme, 'a) op \<Rightarrow> ('z runtime_scheme, 'a) op" where
  "alive p m = andthen (on_service p (ret ())) m"

fun after_script :: "ptr \<Rightarrow> int \<Rightarrow> script \<Rightarrow> pc" where
  "after_script p i (Running fs) = InLua p i fs"
| "after_script p i (Ended ok) = Back i"

fun after_start :: "script \<Rightarrow> main_pc" where
  "after_start (Running fs) = MStart fs"
| "after_start (Ended ok) = (if ok then MLoop else MJoin False 0)"

text \<open>\<open>Service::poll\<close> up to the call of \<open>onPoll\<close>: \<open>None\<close> when there is nothing to call.\<close>

definition poll_begin :: "bool \<Rightarrow> ptr \<Rightarrow> ('z runtime_scheme, lua_msg list option) op" where
  "poll_begin hasPoll p =
     bind (on_service p (gets mIsInit)) (\<lambda>i.
       if \<not> i \<or> \<not> hasPoll then ret None else bind (Service_drain p) (\<lambda>ms. ret (Some ms)))"

lemma Service_poll_begin:
  fixes f :: "lua_msg list \<Rightarrow> ('z runtime_scheme, bool) op"
  shows "Service_poll (Some f) p =
    bind (poll_begin True p) (\<lambda>r. case r of None \<Rightarrow> ret () | Some ms \<Rightarrow> andthen (f ms) (ret ()))"
    "Service_poll None p = bind (poll_begin False p) (\<lambda>r. ret ())"
  unfolding Service_poll_def poll_begin_def bind_assoc
  by (rule arg_cong [of _ _ "bind (on_service p (gets mIsInit))"], simp add: bind_assoc fun_eq_iff)+

section \<open>Steps\<close>

text \<open>Worker \<open>w\<close>; \<open>hp\<close> says whether the service's script defines \<open>onPoll\<close>.\<close>

inductive worker_step :: "(string \<Rightarrow> bool) \<Rightarrow> nat \<Rightarrow> sys \<Rightarrow> sys \<Rightarrow> bool" for exists where
  w_own: "sPc s w = Top \<Longrightarrow> mIsRun (mWorkers (rtWorkers (sRt s)) ! w) \<Longrightarrow>
    mService (mWorkers (rtWorkers (sRt s)) ! w) = Some p \<Longrightarrow>
    worker_step exists w s (set_pc w (Polling p 0) (sRt s) s)"
| w_queue: "sPc s w = Top \<Longrightarrow> mIsRun (mWorkers (rtWorkers (sRt s)) ! w) \<Longrightarrow>
    mService (mWorkers (rtWorkers (sRt s)) ! w) = None \<Longrightarrow>
    worker_step exists w s
      (worker_next w (ServiceMgr_getFreeServiceId (sRt s)) (\<lambda>i. if i = 0 then Top else GotId i) s)"
| w_lookup: "sPc s w = GotId i \<Longrightarrow>
    worker_step exists w s
      (worker_next w (ServiceMgr_getService i (sRt s)) (\<lambda>r. case r of None \<Rightarrow> Top | Some p \<Rightarrow> Polling p i) s)"
| w_poll: "sPc s w = Polling p i \<Longrightarrow>
    worker_step exists w s
      (worker_next w (poll_begin hp p (sRt s)) (\<lambda>r. case r of None \<Rightarrow> Back i | Some ms \<Rightarrow> InLua p i []) s)"
| w_lua: "sPc s w = InLua p i fs \<Longrightarrow> enabled a fs \<Longrightarrow>
    worker_step exists w s (worker_next w (alive p (lua_act exists a fs) (sRt s)) (after_script p i) s)"
| w_back: "sPc s w = Back i \<Longrightarrow>
    worker_step exists w s
      (worker_next w ((if i > 0 then ServiceMgr_pushFreeServiceId i else ret ()) (sRt s)) (\<lambda>_. Top) s)"
| w_stop: "sPc s w = Top \<Longrightarrow> \<not> mIsRun (mWorkers (rtWorkers (sRt s)) ! w) \<Longrightarrow>
    worker_step exists w s (set_pc w Stopped (sRt s) s)"

text \<open>The main thread; \<open>~Worker\<close> stops the worker and joins its thread before the next one's turn.\<close>

definition stop_worker :: "nat \<Rightarrow> 'z runtime_scheme \<Rightarrow> 'z runtime_scheme" where
  "stop_worker w s =
     s\<lparr>rtWorkers := (rtWorkers s)\<lparr>mWorkers := (mWorkers (rtWorkers s))[w := (mWorkers (rtWorkers s) ! w)\<lparr>mIsRun := False\<rparr>]\<rparr>\<rparr>"

definition take_timer :: "nat \<Rightarrow> ('z core_scheme, unit) op" where
  "take_timer k =
     bind (gets IoTimers) (\<lambda>ts.
     andthen (modify (\<lambda>s. s\<lparr>IoTimers := take k (IoTimers s) @ drop (Suc k) (IoTimers s)\<rparr>))
       (timer_fire False (fst (ts ! k)) (snd (ts ! k))))"

inductive main_step :: "(string \<Rightarrow> bool) \<Rightarrow> sys \<Rightarrow> sys \<Rightarrow> bool" for exists where
  m_start: "sMain s = MStart fs \<Longrightarrow> enabled a fs \<Longrightarrow>
    main_step exists s (main_next (lua_act exists a fs (sRt s)) after_start fs s)"
| m_iterate: "sMain s = MLoop \<Longrightarrow> IsRun (sRt s) \<Longrightarrow> main_step exists s (set_main MIo (sRt s) s)"
| m_timer: "sMain s = MIo \<Longrightarrow> k < length (IoTimers (sRt s)) \<Longrightarrow>
    main_step exists s (main_next (take_timer k (sRt s)) (\<lambda>_. MIo) [] s)"
| m_poll: "sMain s = MIo \<Longrightarrow>
    main_step exists s (main_next (ServiceMgr_poll (sRt s)) (\<lambda>_. MLoop) [] s)"
| m_close: "sMain s = MLoop \<Longrightarrow> \<not> IsRun (sRt s) \<Longrightarrow>
    main_step exists s (main_next (close_all (sRt s)) (\<lambda>_. MClosing) [] s)"
| m_closed: "sMain s = MClosing \<Longrightarrow> mServices (sRt s) = [] \<Longrightarrow>
    main_step exists s (set_main (MJoin True 0) (sRt s) s)"
| m_join: "sMain s = MJoin ok k \<Longrightarrow> k < length (mWorkers (rtWorkers (sRt s))) \<Longrightarrow>
    mIsRun (mWorkers (rtWorkers (sRt s)) ! k) \<Longrightarrow>
    main_step exists s (set_main (MJoin ok k) (stop_worker k (sRt s)) s)"
| m_joined: "sMain s = MJoin ok k \<Longrightarrow> k < length (mWorkers (rtWorkers (sRt s))) \<Longrightarrow> sPc s k = Stopped \<Longrightarrow>
    main_step exists s (set_main (MJoin ok (Suc k)) (sRt s) s)"
| m_end: "sMain s = MJoin ok k \<Longrightarrow> k = length (mWorkers (rtWorkers (sRt s))) \<Longrightarrow>
    main_step exists s (main_next ((if ok then ServiceMgr_poll else ret ()) (sRt s)) (\<lambda>_. MEnd) [] s)"

text \<open>A step of the server, while no thread has killed it.\<close>

inductive server_step :: "(string \<Rightarrow> bool) \<Rightarrow> sys \<Rightarrow> sys \<Rightarrow> bool" for exists where
  worker: "sCrash s = None \<Longrightarrow> w < length (mWorkers (rtWorkers (sRt s))) \<Longrightarrow>
    worker_step exists w s t \<Longrightarrow> server_step exists s t"
| main: "sCrash s = None \<Longrightarrow> main_step exists s t \<Longrightarrow> server_step exists s t"

text \<open>The server as \<open>main\<close> has set it up when it runs the start script.\<close>

definition server_start :: "int \<Rightarrow> string list \<Rightarrow> sys" where
  "server_start threads paths =
     \<lparr>sRt = core_init (runtime_init threads paths), sPc = (\<lambda>_. Top), sMain = MStart [], sCrash = None\<rparr>"

abbreviation reachable :: "(string \<Rightarrow> bool) \<Rightarrow> int \<Rightarrow> string list \<Rightarrow> sys \<Rightarrow> bool" where
  "reachable exists threads paths \<equiv> reach (\<lambda>s. s = server_start threads paths) (server_step exists)"

section \<open>What a call keeps\<close>

text \<open>
  \<open>shrinks s t\<close>: from \<open>s\<close> to \<open>t\<close> no service was added anywhere: the queue and the counters are the
  same, and the map, the workers' services and the free workers have lost entries at most.  The
  pool's lock, once held, is still held.
\<close>

definition shrinks :: "'z runtime_scheme \<Rightarrow> 'z runtime_scheme \<Rightarrow> bool" where
  "shrinks s t \<longleftrightarrow> mFreeServices t = mFreeServices s \<and> mAutoId t = mAutoId s \<and> rtNext t = rtNext s \<and>
     (om_wf (mServices s) \<longrightarrow> om_wf (mServices t) \<and> om_find (mServices t) \<subseteq>\<^sub>m om_find (mServices s)) \<and>
     mFreeWorkers (rtWorkers t) = mFreeWorkers (rtWorkers s) \<and>
     length (mWorkers (rtWorkers t)) = length (mWorkers (rtWorkers s)) \<and>
     (\<forall>w p. mService (mWorkers (rtWorkers t) ! w) = Some p \<longrightarrow> mService (mWorkers (rtWorkers s) ! w) = Some p) \<and>
     (mPoolLock (rtPool s) \<longrightarrow> mPoolLock (rtPool t))"

text \<open>Every queued message has come out of the pool, which is locked ever since.\<close>

definition no_queue :: "'z runtime_scheme \<Rightarrow> bool" where
  "no_queue s \<longleftrightarrow> mPoolLock (rtPool s) \<or> (\<forall>p v. rtHeap s p = Some v \<longrightarrow> mMsgs v = [])"

abbreviation locked :: "'z runtime_scheme \<Rightarrow> bool" where
  "locked s \<equiv> mPoolLock (rtPool s)"

text \<open>A mild call keeps both; a calm one, which may queue a message, needs the pool locked.\<close>

definition calm :: "('z runtime_scheme, 'a) op \<Rightarrow> bool" where
  "calm m \<longleftrightarrow> keeps locked shrinks m"

definition mild :: "('z runtime_scheme, 'a) op \<Rightarrow> bool" where
  "mild m \<longleftrightarrow> keeps no_queue shrinks m \<and> calm m"

lemma transp_shrinks [simp]: "transp shrinks"
  by (rule transpI) (auto simp: shrinks_def intro: map_le_trans)

lemma shrinks_refl [simp]: "shrinks s s"
  by (simp add: shrinks_def)

lemma shrinks_locked: "shrinks s t \<Longrightarrow> locked s \<Longrightarrow> locked t"
  by (simp add: shrinks_def)

lemma mildI: "(\<And>s. no_queue s \<Longrightarrow> no_queue (final (m s))) \<Longrightarrow> (\<And>s. shrinks s (final (m s))) \<Longrightarrow> mild m"
  by (simp add: mild_def calm_def keeps_def) (blast intro: shrinks_locked)

lemma calmI: "(\<And>s. locked s \<Longrightarrow> shrinks s (final (m s))) \<Longrightarrow> calm m"
  by (simp add: calm_def keeps_def) (blast intro: shrinks_locked)

lemma mildD: "mild m \<Longrightarrow> no_queue s \<Longrightarrow> no_queue (final (m s)) \<and> shrinks s (final (m s))"
  by (simp add: mild_def keeps_def)

lemma calmD: "calm m \<Longrightarrow> locked s \<Longrightarrow> locked (final (m s)) \<and> shrinks s (final (m s))"
  by (simp add: calm_def keeps_def)

lemma mild_calm: "mild m \<Longrightarrow> calm m"
  by (simp add: mild_def)

lemma calm_bind [keep_intros]: "calm m \<Longrightarrow> (\<And>a. calm (f a)) \<Longrightarrow> calm (bind m f)"
  by (simp add: calm_def keeps_bind)

lemma mild_bind [keep_intros]: "mild m \<Longrightarrow> (\<And>a. mild (f a)) \<Longrightarrow> mild (bind m f)"
  by (simp add: mild_def keeps_bind calm_bind)

lemma mild_same: "(\<And>s. final (m s) = s) \<Longrightarrow> mild m"
  by (rule mildI) simp_all

lemma mild_ret [keep_intros]: "mild (ret a)" "mild (gets g)" "mild (raise e)" "mild (luaL_check v)" "mild (Done a)"
  by (auto intro!: mild_same simp: luaL_check_def split: option.split)

lemma mild_if [keep_intros]: "mild m \<Longrightarrow> mild n \<Longrightarrow> mild (if b then m else n)"
  by simp

lemma mild_option [keep_intros]: "mild m \<Longrightarrow> (\<And>x. mild (f x)) \<Longrightarrow> mild (case v of None \<Rightarrow> m | Some x \<Rightarrow> f x)"
  by (cases v) auto

lemma calm_if [keep_intros]: "calm m \<Longrightarrow> calm n \<Longrightarrow> calm (if b then m else n)"
  by simp

lemma calm_option [keep_intros]: "calm m \<Longrightarrow> (\<And>x. calm (f x)) \<Longrightarrow> calm (case v of None \<Rightarrow> m | Some x \<Rightarrow> f x)"
  by (cases v) auto

text \<open>Updates of fields that neither \<open>shrinks\<close> nor \<open>no_queue\<close> looks at.\<close>

definition unseen :: "('z runtime_scheme \<Rightarrow> 'z runtime_scheme) \<Rightarrow> bool" where
  "unseen f \<longleftrightarrow> (\<forall>s. rtPool (f s) = rtPool s \<and> rtWorkers (f s) = rtWorkers s \<and> rtHeap (f s) = rtHeap s \<and>
     rtNext (f s) = rtNext s \<and> mServices (f s) = mServices s \<and> mAutoId (f s) = mAutoId s \<and>
     mFreeServices (f s) = mFreeServices s)"

lemma unseen_keeps: "unseen f \<Longrightarrow> shrinks s (f s)" "unseen f \<Longrightarrow> no_queue s \<Longrightarrow> no_queue (f s)"
  by (simp_all add: unseen_def no_queue_def shrinks_def)

lemma mild_modify: "unseen f \<Longrightarrow> mild (modify f)"
  by (rule mildI) (simp_all add: unseen_keeps)

lemma mild_acquire: "unseen (upd (\<lambda>_. True)) \<Longrightarrow> mild (acquire held upd)"
  by (rule mildI) (simp_all add: acquire_def unseen_keeps)

lemma mild_release: "unseen (upd (\<lambda>_. False)) \<Longrightarrow> mild (release upd)"
  by (rule mildI) (simp_all add: unseen_keeps)

lemma mild_locks [keep_intros]:
  "mild (acquire mServiceLock mServiceLock_update)" "mild (release mServiceLock_update)"
  "mild (acquire mFreeServiceLock mFreeServiceLock_update)" "mild (release mFreeServiceLock_update)"
  "mild (acquire mPreDestroyServiceLock mPreDestroyServiceLock_update)"
  "mild (release mPreDestroyServiceLock_update)" "mild luaExit"
  by (auto intro!: mild_acquire mild_release mild_modify simp: unseen_def luaExit_def)

lemma mild_pre_destroy [keep_intros]:
  "mild (modify (\<lambda>s. s\<lparr>mPreDestroyServices := f s\<rparr>))"
  by (intro mild_modify) (simp add: unseen_def)

text \<open>Calls on a service: any of them is calm, and mild when it queues no message.\<close>

lemma calm_on_service: "calm (on_service p m)"
  by (rule calmI) (auto simp: on_service_def final_zoom shrinks_def split: option.split)

lemma mild_on_service:
  assumes "\<And>v. mMsgs v = [] \<Longrightarrow> mMsgs (final (m v)) = []"
  shows "mild (on_service p m)"
  by (rule mildI)
     (use assms in \<open>auto simp: on_service_def final_zoom shrinks_def no_queue_def split: option.split if_splits\<close>)

lemma mild_services [keep_intros]:
  "mild (on_service p (ret a))" "mild (on_service p (gets g))" "mild (on_service p Service_getName)"
  "mild (on_service p Service_close)" "mild (on_service p (acquire mMsgLock mMsgLock_update))"
  "mild (on_service p (release mMsgLock_update))"
  "mild (on_service p (modify (\<lambda>v. v\<lparr>mState := b\<rparr>)))" "mild (on_service p (modify (\<lambda>v. v\<lparr>mIsInit := b\<rparr>)))"
  by (auto intro!: mild_on_service simp: Service_getName_def close_cases acquire_def release_def)

lemma calm_pop: "calm (poolop ServiceMsgPool_pop)"
  by (rule calmI) (simp add: poolop_pop_held)

lemma calm_push: "calm (poolop (ServiceMsgPool_push m))"
  by (rule calmI) (simp add: zoom_Spin push_held)

lemma mild_pop_then: 
  assumes "\<And>m. calm (f m)"
  shows "mild (bind (poolop ServiceMsgPool_pop) f)"
proof (rule mildI)
  fix s :: "'a runtime_scheme"
  show s: "shrinks s (final (bind (poolop ServiceMsgPool_pop) f s))"
  proof (cases "locked s")
    case False
    let ?s = "s\<lparr>rtPool := popped (rtPool s)\<rparr>"
    have "shrinks s ?s" "locked ?s" by (simp_all add: shrinks_def popped_def)
    with calmD [OF assms, of ?s] transp_shrinks have "shrinks s (final (f (pool_head (rtPool s)) ?s))"
      by (meson transpD)
    with False show ?thesis by (simp add: poolop_pop)
  qed (simp add: poolop_pop_held)
  assume "no_queue s"
  show "no_queue (final (bind (poolop ServiceMsgPool_pop) f s))"
  proof (cases "locked s")
    case True
    with s show ?thesis by (simp add: shrinks_def no_queue_def)
  next
    case False
    let ?s = "s\<lparr>rtPool := popped (rtPool s)\<rparr>"
    have "locked (final (f (pool_head (rtPool s)) ?s))"
      using calmD [OF assms, of ?s] by (simp add: popped_def)
    with False show ?thesis by (simp add: poolop_pop no_queue_def)
  qed
qed

subsection \<open>The calls of the runtime, one by one\<close>

lemma mild_workerop: 
  assumes "\<And>wm. mFreeWorkers (final (m wm)) = mFreeWorkers wm"
    and "\<And>wm. length (mWorkers (final (m wm))) = length (mWorkers wm)"
    and "\<And>wm w p. mService (mWorkers (final (m wm)) ! w) = Some p \<Longrightarrow> mService (mWorkers wm ! w) = Some p"
  shows "mild (workerop m)"
proof (rule mildI)
  show "no_queue (final (workerop m s))" if "no_queue s" for s :: "'b runtime_scheme"
    using that by (simp add: final_zoom no_queue_def)
  show "shrinks s (final (workerop m s))" for s :: "'b runtime_scheme"
    by (simp add: final_zoom shrinks_def assms(1,2)) (blast dest: assms(3))
qed

lemma mild_worker_calls [keep_intros]:
  "mild (workerop (WorkerMgr_getServiceWorker v))" "mild (workerop (WorkerMgr_getWorker i))"
  "mild (workerop (setService_at w None))"
proof -
  have "WorkerMgr_getServiceWorker v wm = (if mWorkerLock wm then Spin wm else Done (find_service v (mWorkers wm) 0) wm)" for wm
    by (simp add: getServiceWorker_held getServiceWorker_free)
  then show "mild (workerop (WorkerMgr_getServiceWorker v))"
    by (intro mild_workerop) (auto split: if_split_asm)
  show "mild (workerop (WorkerMgr_getWorker i))" by (intro mild_workerop) (auto simp: getWorker_run)
  have nth: "mService ((ws[i := Worker_setService None (ws ! i)]) ! k) = Some p \<Longrightarrow> mService (ws ! k) = Some p"
    for ws :: "worker list" and i k p
    by (cases "i = k"; cases "i < length ws") (simp_all add: Worker_setService_def list_update_beyond)
  show "mild (workerop (setService_at w None))"
    by (cases w; intro mild_workerop) (auto simp: setService_None setService_Some dest: nth)
qed

lemma mild_erase [keep_intros]: "mild (modify (\<lambda>s. s\<lparr>mServices := om_erase i (mServices s)\<rparr>))"
  by (rule mildI) (auto simp: shrinks_def no_queue_def om_find_erase map_le_def)

lemma mild_delete [keep_intros]: "mild (delete_service p)"
  unfolding delete_service_def
  by (intro keep_intros) (rule mildI, auto simp: shrinks_def no_queue_def split: if_splits)

lemma mild_getService [keep_intros]: "mild (ServiceMgr_getService i)"
  unfolding ServiceMgr_getService_def by (intro keep_intros)

lemma calm_send [keep_intros]: "calm (ServiceMgr_send i msg)"
  unfolding ServiceMgr_send_def by (intro keep_intros mild_calm [OF mild_getService] calm_on_service mild_calm [OF mild_ret(1)])

lemma mild_fill [keep_intros]: "mild (fill_buffer g d m)"
  by (rule mild_same) (auto simp: fill_buffer_def memcpy_def bind_def)

lemma mild_query_loop [keep_intros]: "mild (query_loop name es)"
  by (induction es) (auto intro!: keep_intros)

lemma mild_destroy_loop [keep_intros]: "mild (destroy_loop ps)"
  by (induction ps) (auto intro!: keep_intros)

lemma mild_close_loop [keep_intros]: "mild (close_loop is)"
  by (induction "is") (auto intro!: keep_intros mild_pop_then intro: mild_calm)

lemma mild_destory [keep_intros]: "mild (ServiceMgr_destoryService i)"
  unfolding ServiceMgr_destoryService_def by (intro keep_intros)

lemma mild_runtime [keep_intros]:
  "mild (ServiceMgr_queryService name)" "mild ServiceMgr_poll" "mild close_all"
  "mild (ctor_open exists p src)" "mild (ctor_close p ok)"
  unfolding ServiceMgr_queryService_def ServiceMgr_poll_def close_all_def ctor_open_def ctor_close_def
  by (intro keep_intros)+

lemma mild_sendService [keep_intros]: "mild (sendService sid a1 a2 a3 isOk a5)"
  unfolding sendService_def Let_def
  by (intro keep_intros mild_pop_then mild_calm [OF mild_fill] mild_calm [OF mild_ret(1)])

lemma mild_timer_fire [keep_intros]: "mild (timer_fire ec session sid)"
  unfolding timer_fire_def by (intro keep_intros mild_pop_then)

lemma mild_env [keep_intros]:
  "mild (acquire EnvLock EnvLock_update)" "mild (release EnvLock_update)"
  "mild (modify (\<lambda>s. s\<lparr>Envs := f s\<rparr>))" "mild (modify (\<lambda>s. s\<lparr>IoTimers := g s\<rparr>))"
  by (auto intro!: mild_acquire mild_release mild_modify simp: unseen_def)

lemma mild_take_timer [keep_intros]: "mild (take_timer k)"
  unfolding take_timer_def by (intro keep_intros)

lemma mild_api [keep_intros]: "mild (api_run a)"
  by (cases a)
     (auto intro!: keep_intros simp: lua_queryService_def lua_destoryService_def lua_setEnv_def lua_env_def lua_timer_def)

lemma mild_end_script [keep_intros]: "mild (end_script ok fs)"
  by (cases fs) (auto intro!: keep_intros)

lemma keeps_catch:
  assumes m: "keeps I R m" and h: "keeps I R h" and R: "transp R"
  shows "keeps I R (catch m h)"
proof (rule keepsI)
  fix s assume I: "I s"
  show "I (final (catch m h s)) \<and> R s (final (catch m h s))"
  proof (cases "\<exists>t. m s = Fault LuaError t")
    case True
    then obtain t where t: "m s = Fault LuaError t" by blast
    with keepsD [OF m I] have "I t" "R s t" by auto
    with keepsD [OF h \<open>I t\<close>] t R show ?thesis by (auto simp: catch_def dest: transpD)
  next
    case False
    then have "catch m h s = m s" by (auto simp: catch_def split: outcome.split)
    with keepsD [OF m I] show ?thesis by simp
  qed
qed

lemma mild_catch [keep_intros]: "mild m \<Longrightarrow> mild h \<Longrightarrow> mild (catch m h)"
  by (simp add: mild_def calm_def keeps_catch)

text \<open>Draining a queue: while the pool is free, every queue is empty and there is nothing to do.\<close>

lemma calm_drain_loop [keep_intros]: "calm (drain_loop p ms acc)"
  by (induction ms arbitrary: acc)
     (auto intro!: keep_intros calm_on_service calm_push intro: mild_calm mild_ret mild_same simp: lua_view_def)

lemma calm_drain: "calm (Service_drain p)"
  unfolding Service_drain_def by (intro keep_intros calm_on_service mild_calm [OF mild_ret(1)])

lemma drain_empty:
  assumes "rtHeap s p = Some v" "mMsgs v = []"
  shows "Service_drain p s = (if mMsgLock v then Spin s else Done [] s)"
proof (cases "mMsgLock v")
  case True
  with assms show ?thesis by (simp add: Service_drain_def on_service_Spin map_upd_triv)
next
  case False
  then have "v\<lparr>mMsgLock := False\<rparr> = v" by simp
  with False assms show ?thesis
    by (simp add: Service_drain_def on_service_Done on_service_gets map_upd_triv)
qed

lemma drain_idle:
  assumes "no_queue s" "\<not> locked s"
  shows "final (Service_drain p s) = s"
proof (cases "rtHeap s p")
  case None
  then show ?thesis by (simp add: Service_drain_def on_service_None)
next
  case (Some v)
  with assms show ?thesis by (simp add: no_queue_def drain_empty)
qed

lemma mild_drain [keep_intros]: "mild (Service_drain p :: ('z runtime_scheme, lua_msg list) op)"
proof -
  have "no_queue (final (Service_drain p s)) \<and> shrinks s (final (Service_drain p s))" if "no_queue s"
    for s :: "'z runtime_scheme"
  proof (cases "locked s")
    case True
    with calmD [OF calm_drain] show ?thesis by (auto simp: no_queue_def)
  next
    case False
    with drain_idle [OF that] that show ?thesis by simp
  qed
  then show ?thesis by (simp add: mild_def calm_drain keeps_def)
qed

text \<open>No queue is ever drained of a message.\<close>

lemma drain_loop_stuck: "locked s \<Longrightarrow> drain_loop p (m # ms) acc s \<noteq> Done r t"
  by (auto simp: bind_returns lua_view_def on_service_def zoom_def push_held split: option.splits if_splits)

lemma drain_none:
  assumes "no_queue s" and "Service_drain p s = Done ms t"
  shows "ms = []"
proof (cases "rtHeap s p")
  case None
  with assms show ?thesis by (simp add: Service_drain_def on_service_None)
next
  case (Some v)
  show ?thesis
  proof (cases "mMsgs v = []")
    case True
    with Some assms show ?thesis by (simp add: drain_empty split: if_splits)
  next
    case False
    with assms(1) Some have l: "locked s" by (auto simp: no_queue_def)
    obtain m q where q: "mMsgs v = m # q" using False by (cases "mMsgs v") auto
    have "drain_loop p (m # q) [] (s\<lparr>rtHeap := (rtHeap s)(p \<mapsto> v\<lparr>mMsgLock := True\<rparr>)\<rparr>) \<noteq> Done r u" for r u
      using l by (intro drain_loop_stuck) simp
    with assms(2) Some q have False
      by (cases "mMsgLock v")
         (auto simp: Service_drain_def bind_returns on_service_Done on_service_Spin on_service_gets
               simp del: drain_loop.simps)
    then show ?thesis ..
  qed
qed

lemma mild_poll_begin [keep_intros]: "mild (poll_begin hp p)"
  unfolding poll_begin_def by (intro keep_intros)

section \<open>No script ever sees a message\<close>

text \<open>The calls that add a service keep \<open>no_queue\<close> too: they touch no queue that holds a message.\<close>

definition quietly :: "('z runtime_scheme, 'a) op \<Rightarrow> bool" where
  "quietly m \<longleftrightarrow> keeps no_queue (\<lambda>_ _. True) m"

lemma quietlyD: "quietly m \<Longrightarrow> no_queue s \<Longrightarrow> no_queue (final (m s))"
  by (simp add: quietly_def keeps_def)

lemma mild_quietly: "mild m \<Longrightarrow> quietly m"
  by (simp add: quietly_def mild_def keeps_def)

lemma quietly_bind: "quietly m \<Longrightarrow> (\<And>a. quietly (f a)) \<Longrightarrow> quietly (bind m f)"
  by (simp add: quietly_def keeps_bind transp_def)

lemma quietly_queue: "quietly ServiceMgr_getFreeServiceId" "quietly (ServiceMgr_pushFreeServiceId i)"
  by (auto simp: quietly_def keeps_def no_queue_def ServiceMgr_getFreeServiceId_def
      ServiceMgr_pushFreeServiceId_def acquire_def bind_def split: list.split)

lemma quietly_new: "quietly (new_begin name)" "quietly (new_register i p)" "quietly (new_hand w i p u)"
proof -
  have "quietly wait_worker"
    by (auto simp: quietly_def keeps_def wait_worker_def zoom_def bind_def no_queue_def split: outcome.split)
  moreover have "quietly (post_incr mAutoId mAutoId_update)" "quietly (alloc_service i name)" for i
    by (auto simp: quietly_def keeps_def post_incr_def alloc_service_def no_queue_def)
  ultimately show "quietly (new_begin name)"
    unfolding new_begin_def by (intro quietly_bind mild_quietly [OF mild_worker_calls(2)] mild_quietly [OF mild_ret(1)])
  show "quietly (new_register i p)"
    by (auto simp: quietly_def keeps_def new_register_def acquire_def bind_def no_queue_def)
  show "quietly (new_hand w i p u)"
    by (cases w) (auto simp: quietly_def keeps_def new_hand_def zoom_def setService_None setService_Some no_queue_def)
qed

lemma quietly_act: "quietly (lua_act exists a fs)"
proof (cases a)
  case (New name src uniq)
  then show ?thesis by (auto intro!: quietly_bind quietly_new intro: mild_quietly keep_intros)
next
  case DoRegister
  then show ?thesis by (auto intro!: quietly_bind quietly_new intro: mild_quietly keep_intros)
next
  case DoHand
  then show ?thesis by (auto intro!: quietly_bind quietly_new intro: mild_quietly keep_intros)
qed (auto intro!: mild_quietly keep_intros)

lemma next_quiet:
  assumes "no_queue (sRt s)" and "quietly m"
  shows "no_queue (sRt (worker_next w (m (sRt s)) k s))" "no_queue (sRt (main_next (m (sRt s)) k' fs s))"
  using quietlyD [OF assms(2,1)] assms(1)
  by (auto simp: worker_next_def set_pc_def main_next_def set_main_def crashed_def split: outcome.split)

lemma quietly_misc:
  "quietly (poll_begin hp p)" "quietly (ServiceMgr_getService i)" "quietly (take_timer k)"
  "quietly ServiceMgr_poll" "quietly close_all" "quietly (alive p (lua_act exists a fs))"
  "quietly (if i > 0 then ServiceMgr_pushFreeServiceId i else ret ())"
  "quietly (if ok then ServiceMgr_poll else ret ())"
  by (auto intro!: quietly_bind quietly_act quietly_queue intro: mild_quietly keep_intros simp: alive_def)

lemma worker_quiet: "worker_step exists w s t \<Longrightarrow> no_queue (sRt s) \<Longrightarrow> no_queue (sRt t)"
  by (induction rule: worker_step.induct)
     (simp_all add: next_quiet quietly_misc quietly_queue set_pc_def)

lemma main_quiet: "main_step exists s t \<Longrightarrow> no_queue (sRt s) \<Longrightarrow> no_queue (sRt t)"
proof (induction rule: main_step.induct)
  case (m_join s ok k)
  then show ?case by (simp add: set_main_def stop_worker_def no_queue_def)
qed (simp_all add: next_quiet quietly_misc quietly_act set_main_def)

interpretation no_message: inductive_invariant "\<lambda>s. s = server_start threads paths" "server_step exists" "\<lambda>s. no_queue (sRt s)"
  for threads paths exists
  by unfold_locales
     (auto simp: server_start_def core_init_def runtime_init_def runtime.defs no_queue_def
           elim!: server_step.cases dest: worker_quiet main_quiet)

text \<open>
  C2: in every reachable state of the server, whatever the scripts do: a service has a message in
  its queue only when the pool's lock is held (by nobody, for good), and a poll of a service never
  returns a message to the script; it finds an empty queue or does not return.  The messages that
  services send to each other, \<open>Close\<close> and the timers' included, never arrive.
\<close>

theorem no_message_arrives:
  assumes "reachable exists threads paths s"
  shows "(\<forall>p v. rtHeap (sRt s) p = Some v \<and> mMsgs v \<noteq> [] \<longrightarrow> mPoolLock (rtPool (sRt s))) \<and>
    (\<forall>p ms t. Service_drain p (sRt s) = Done ms t \<longrightarrow> ms = [])"
  using no_message.always [OF assms] drain_none by (auto simp: no_queue_def)

end
