(* ===== verification/Ownership.thy ===== *)
theory Ownership
  imports Scheduler
begin

text \<open>
  Who may touch a service: the reachable states of \<open>Scheduler\<close> keep every service in the hands of
  at most one thread.  A service is with the queue of free services, with the thread that is
  inside of its \<open>newService\<close>, with the worker it was given to, or with the worker that took its
  number out of the queue.
\<close>

section \<open>Claims\<close>

fun pc_own :: "pc \<Rightarrow> int set" where
  "pc_own (Polling p i) = (if i = 0 then {int p} else {})"
| "pc_own (InLua p i fs) = (if i = 0 then {int p} else {})"
| "pc_own (Hung q) = pc_own q"
| "pc_own q = {}"

fun pc_borrow :: "pc \<Rightarrow> int set" where
  "pc_borrow (GotId i) = {i}"
| "pc_borrow (Polling p i) = (if i = 0 then {} else {i})"
| "pc_borrow (InLua p i fs) = (if i = 0 then {} else {i})"
| "pc_borrow (Back i) = (if i = 0 then {} else {i})"
| "pc_borrow (Hung q) = pc_borrow q"
| "pc_borrow q = {}"

fun pc_frames :: "pc \<Rightarrow> frame list" where
  "pc_frames (InLua p i fs) = fs"
| "pc_frames (Hung q) = pc_frames q"
| "pc_frames q = []"

fun pc_ok :: "pc \<Rightarrow> bool" where
  "pc_ok (GotId i) = (i \<noteq> 0)"
| "pc_ok (Polling p i) = (i = 0 \<or> i = int p)"
| "pc_ok (InLua p i fs) = (i = 0 \<or> i = int p)"
| "pc_ok (Hung q) = pc_ok q"
| "pc_ok q = True"

text \<open>The service that a worker is polling, its Lua function included.\<close>

fun pc_polls :: "pc \<Rightarrow> ptr option" where
  "pc_polls (Polling p i) = Some p"
| "pc_polls (InLua p i fs) = Some p"
| "pc_polls (Hung q) = pc_polls q"
| "pc_polls q = None"

fun main_frames :: "main_pc \<Rightarrow> frame list" where
  "main_frames (MStart fs) = fs"
| "main_frames (MHung fs) = fs"
| "main_frames m = []"

fun frames_of :: "sys \<Rightarrow> nat option \<Rightarrow> frame list" where
  "frames_of s None = main_frames (sMain s)"
| "frames_of s (Some w) = pc_frames (sPc s w)"

definition worker_service :: "'z runtime_scheme \<Rightarrow> nat \<Rightarrow> ptr option" where
  "worker_service s w =
     (if w < length (mWorkers (rtWorkers s)) then mService (mWorkers (rtWorkers s) ! w) else None)"

lemma worker_service_update [simp]:
  "worker_service (s\<lparr>mServices := m\<rparr>) = worker_service s"
  "worker_service (s\<lparr>mFreeServices := q\<rparr>) = worker_service s"
  by (simp_all add: worker_service_def fun_eq_iff)

datatype holder = InQueue | Creator "nat option" | Own nat | Borrow nat

fun holds :: "sys \<Rightarrow> holder \<Rightarrow> int \<Rightarrow> bool" where
  "holds s InQueue i = (i \<in> set (mFreeServices (sRt s)))"
| "holds s (Creator c) i = (i \<in> f_id ` set (frames_of s c))"
| "holds s (Own w) i = (i \<in> pc_own (sPc s w) \<or> map_option int (worker_service (sRt s) w) = Some i)"
| "holds s (Borrow w) i = (i \<in> pc_borrow (sPc s w))"

abbreviation keys :: "frame list \<Rightarrow> (int \<times> ptr) list" where
  "keys \<equiv> map (\<lambda>f. (f_id f, f_ptr f))"

definition numbers_ok :: "'z runtime_scheme \<Rightarrow> bool" where
  "numbers_ok r \<longleftrightarrow> distinct (mFreeServices r) \<and> int (rtNext r) = mAutoId r \<and> 0 < mAutoId r \<and> om_wf (mServices r) \<and>
     (\<forall>i p. om_find (mServices r) i = Some p \<longrightarrow> i = int p \<and> 0 < i \<and> i < mAutoId r)"

definition frames_ok :: "frame list \<Rightarrow> bool" where
  "frames_ok fs \<longleftrightarrow> distinct (map f_id fs) \<and> (\<forall>f \<in> set fs. f_id f = int (f_ptr f))"

definition owned_ok :: "sys \<Rightarrow> bool" where
  "owned_ok s \<longleftrightarrow>
     (\<forall>h h' i. holds s h i \<longrightarrow> holds s h' i \<longrightarrow> h = h') \<and>
     (\<forall>h i. holds s h i \<longrightarrow> 0 < i \<and> i < mAutoId (sRt s)) \<and>
     numbers_ok (sRt s) \<and> (\<forall>c. frames_ok (frames_of s c)) \<and> (\<forall>w. pc_ok (sPc s w))"

text \<open>A state whose claims are among those of \<open>s\<close>, but for one service that moved to \<open>h0\<close>.\<close>

lemma owned_move:
  assumes s: "owned_ok s"
    and old: "\<And>h i. holds t h i \<Longrightarrow> \<not> (h = h0 \<and> i = j) \<Longrightarrow> holds s h i"
    and only: "\<And>h. holds t h j \<Longrightarrow> h = h0"
    and j: "0 < j" "j < mAutoId (sRt t)" "mAutoId (sRt s) \<le> mAutoId (sRt t)"
    and rest: "numbers_ok (sRt t)" "\<And>c. frames_ok (frames_of t c)" "\<And>w. pc_ok (sPc t w)"
  shows "owned_ok t"
proof -
  have "h = h'" if "holds t h i" "holds t h' i" for h h' i
  proof (cases "i = j")
    case True
    with that only show ?thesis by metis
  next
    case False
    with that old s show ?thesis unfolding owned_ok_def by metis
  qed
  moreover have "0 < i \<and> i < mAutoId (sRt t)" if "holds t h i" for h i
  proof (cases "h = h0 \<and> i = j")
    case False
    with old [OF that] s have "0 < i \<and> i < mAutoId (sRt s)" unfolding owned_ok_def by blast
    with j show ?thesis by simp
  qed (use j in auto)
  ultimately show ?thesis using rest unfolding owned_ok_def by blast
qed

lemma owned_less:
  assumes "owned_ok s" and "\<And>h i. holds t h i \<Longrightarrow> holds s h i" and "mAutoId (sRt s) \<le> mAutoId (sRt t)"
    and "numbers_ok (sRt t)" "\<And>c. frames_ok (frames_of t c)" "\<And>w. pc_ok (sPc t w)"
  shows "owned_ok t"
  unfolding owned_ok_def
proof (intro conjI allI impI)
  fix h h' i assume "holds t h i" "holds t h' i"
  with assms(1,2) show "h = h'" unfolding owned_ok_def by blast
next
  fix h i assume "holds t h i"
  with assms(1,2) have "0 < i \<and> i < mAutoId (sRt s)" unfolding owned_ok_def by blast
  with assms(3) show "0 < i" "i < mAutoId (sRt t)" by auto
qed (use assms in auto)

lemma frames_ok_keys: "keys fs = keys gs \<Longrightarrow> frames_ok fs = frames_ok gs"
proof -
  have "frames_ok fs \<longleftrightarrow> distinct (map fst (keys fs)) \<and> (\<forall>k \<in> set (keys fs). fst k = int (snd k))" for fs
    by (auto simp: frames_ok_def comp_def)
  then show "keys fs = keys gs \<Longrightarrow> frames_ok fs = frames_ok gs" by presburger
qed

lemma ids_keys: "keys fs = keys gs \<Longrightarrow> f_id ` set fs = f_id ` set gs"
  by (metis (no_types, lifting) fst_conv image_image list.set_map image_cong)

section \<open>What a call does to the claims\<close>

definition fewer :: "'z runtime_scheme \<Rightarrow> 'z runtime_scheme \<Rightarrow> bool" where
  "fewer r t \<longleftrightarrow> mFreeServices t = mFreeServices r \<and> mAutoId t = mAutoId r \<and> rtNext t = rtNext r \<and>
     (numbers_ok r \<longrightarrow> numbers_ok t) \<and>
     (\<forall>w p. worker_service t w = Some p \<longrightarrow> worker_service r w = Some p)"

lemma shrinks_fewer:
  assumes "shrinks r t"
  shows "fewer r t"
proof -
  have "numbers_ok t" if "numbers_ok r"
    using assms that by (auto simp: shrinks_def numbers_ok_def map_le_def domI dest!: bspec)
  with assms show ?thesis by (auto simp: shrinks_def fewer_def worker_service_def)
qed

lemma fewer_refl [simp]: "fewer r r"
  by (simp add: fewer_def)

lemma fewer_trans: "fewer r s \<Longrightarrow> fewer s t \<Longrightarrow> fewer r t"
  by (auto simp: fewer_def)

lemma mild_fewer: "mild m \<Longrightarrow> no_queue r \<Longrightarrow> fewer r (final (m r))"
  by (simp add: mildD shrinks_fewer)

lemma mild_Done: "mild m \<Longrightarrow> no_queue r \<Longrightarrow> m r = Done a t \<Longrightarrow> fewer r t"
  using mild_fewer [of m r] by simp

lemma mild_Spin: "mild m \<Longrightarrow> no_queue r \<Longrightarrow> m r = Spin t \<Longrightarrow> fewer r t"
  using mild_fewer [of m r] by simp

lemma new_begin_cases:
  assumes "numbers_ok s"
  shows "case new_begin name s of
      Done (w, i, p) t \<Rightarrow> i = mAutoId s \<and> p = rtNext s \<and> mAutoId t = mAutoId s + 1 \<and>
        mFreeServices t = mFreeServices s \<and> worker_service t = worker_service s \<and> numbers_ok t
    | Spin t \<Rightarrow> fewer s t
    | Fault e t \<Rightarrow> True"
proof -
  have w: "case wait_worker s of
      Done i t \<Rightarrow> \<exists>m. t = s\<lparr>rtWorkers := (rtWorkers s)\<lparr>mFreeWorkers := m\<rparr>\<rparr>
    | Spin t \<Rightarrow> fewer s t | Fault e t \<Rightarrow> True"
  proof (cases "mWorkerLock (rtWorkers s)")
    case True
    then show ?thesis by (simp add: wait_worker_def zoom_Spin useWorker_held fewer_def)
  next
    case False
    then show ?thesis
      by (auto simp: wait_worker_run fewer_def numbers_ok_def worker_service_def split: list.split if_splits)
  qed
  show ?thesis
  proof (cases "wait_worker s")
    case (Done k u)
    with w obtain m where u: "u = s\<lparr>rtWorkers := (rtWorkers s)\<lparr>mFreeWorkers := m\<rparr>\<rparr>" by auto
    from assms show ?thesis
      by (auto simp: new_begin_def Done bind_def u zoom_def getWorker_run post_incr_def alloc_service_def
          numbers_ok_def worker_service_def fun_eq_iff split: outcome.split intro: less_imp_le)
  qed (use w in \<open>simp_all add: new_begin_def\<close>)
qed

lemma end_script_keys:
  "end_script ok fs s = Done r t \<Longrightarrow>
   (fs = [] \<and> r = Ended ok) \<or> (\<exists>fs'. r = Running fs' \<and> keys fs' = keys fs)"
  by (cases fs) (auto simp: bind_returns)

lemma call_keys:
  "lua_act exists (Call a) fs s = Done r t \<Longrightarrow>
   (fs = [] \<and> (\<exists>ok. r = Ended ok)) \<or> (\<exists>fs'. r = Running fs' \<and> keys fs' = keys fs)"
  by (auto simp: catch_def bind_def dest: end_script_keys split: outcome.splits if_splits)

lemma act_effect:
  assumes "no_queue s" "numbers_ok s" "enabled a fs" "lua_act exists a fs s = Done r t"
  obtains (keep) "fewer s t" "(fs = [] \<and> (\<exists>ok. r = Ended ok)) \<or> (\<exists>fs'. r = Running fs' \<and> keys fs' = keys fs)"
    | (new) f where "r = Running (f # fs)" "f_id f = mAutoId s" "f_ptr f = rtNext s"
      "mAutoId t = mAutoId s + 1" "mFreeServices t = mFreeServices s" "numbers_ok t"
      "\<And>w p. worker_service t w = Some p \<Longrightarrow> worker_service s w = Some p"
    | (register) f fs0 fs' where "fs = f # fs0" "r = Running fs'" "keys fs' = keys fs"
      "t = s\<lparr>mServices := om_insert (f_id f) (f_ptr f) (mServices s)\<rparr>"
    | (own) f fs0 w where "fs = f # fs0" "r = Running fs0" "f_uniq f"
      "mAutoId t = mAutoId s" "mFreeServices t = mFreeServices s" "numbers_ok t"
      "\<And>k p. worker_service t k = Some p \<Longrightarrow> worker_service s k = Some p \<or> k = w \<and> p = f_ptr f"
    | (queue) f fs0 where "fs = f # fs0" "r = Running fs0"
      "t = s\<lparr>mFreeServices := mFreeServices s @ [f_id f]\<rparr>"
proof (cases a)
  case (Call c)
  have "mild (lua_act exists a fs)" using Call by (auto intro!: keep_intros)
  from mild_Done [OF this assms(1,4)] call_keys [OF assms(4) [unfolded Call]] show ?thesis by (rule keep)
next
  case (New name src u)
  from assms(4) obtain w i p srcfile s1 where b: "new_begin name s = Done (w, i, p) s1"
    and o: "ctor_open exists p src s1 = Done srcfile t"
    and r: "r = Running (\<lparr>f_worker = w, f_id = i, f_ptr = p, f_uniq = u,
                      f_stage = (if srcfile = None then Register else Load)\<rparr> # fs)"
    by (auto simp: New bind_returns)
  note n = new_begin_cases [OF assms(2), of name, unfolded b, simplified]
  have "no_queue s1" using quietlyD [OF quietly_new(1) assms(1), of name] b by simp
  then have f: "fewer s1 t" by (rule mild_Done [OF mild_runtime(4) _ o])
  show ?thesis by (rule new [OF r]) (use n f in \<open>auto simp: fewer_def\<close>)
next
  case (EndScript ok)
  have "mild (lua_act exists a fs)" using EndScript by (auto intro!: keep_intros)
  from mild_Done [OF this assms(1,4)] end_script_keys [of ok fs s r t] show ?thesis
    using assms(4) EndScript by (intro keep) auto
next
  case DoRegister
  with assms(3) obtain f fs0 where fs: "fs = f # fs0" by (cases fs) auto
  show ?thesis
    by (rule register [OF fs]) (use assms(4) in \<open>auto simp: DoRegister fs bind_returns new_register_def acquire_def split: if_splits\<close>)
next
  case DoHand
  with assms(3) obtain f fs0 where fs: "fs = f # fs0" by (cases fs) auto
  show ?thesis
  proof (cases "f_uniq f")
    case False
    show ?thesis
      by (rule queue [OF fs]) (use assms(4) False in \<open>auto simp: DoHand fs bind_returns new_hand_def\<close>)
  next
    case True
    with assms(4) obtain k where k: "f_worker f = Some k"
      by (cases "f_worker f") (auto simp: DoHand fs bind_returns new_hand_def zoom_def setService_None)
    with True assms(4) have t: "t = s\<lparr>rtWorkers := (rtWorkers s)\<lparr>mWorkers :=
        (mWorkers (rtWorkers s))[k := Worker_setService (Some (f_ptr f)) (mWorkers (rtWorkers s) ! k)]\<rparr>\<rparr>"
      and r: "r = Running fs0"
      by (auto simp: DoHand fs bind_returns new_hand_def zoom_def setService_Some)
    have ws: "worker_service s j = Some p \<or> j = k \<and> p = f_ptr f" if "worker_service t j = Some p" for j p
      using that by (cases "j = k") (auto simp: t worker_service_def Worker_setService_def split: if_splits)
    have n: "numbers_ok t" using assms(2) by (simp add: t numbers_ok_def)
    show ?thesis by (rule own [of f fs0 k]) (use fs True r ws n in \<open>auto simp: t\<close>)
  qed
qed

lemma act_spin:
  assumes "no_queue s" "numbers_ok s" "enabled a fs" "lua_act exists a fs s = Spin t"
  shows "fewer s t"
proof (cases a)
  case (Call c)
  have "mild (lua_act exists a fs)" using Call by (auto intro!: keep_intros)
  from mild_Spin [OF this assms(1,4)] show ?thesis .
next
  case (EndScript ok)
  have "mild (lua_act exists a fs)" using EndScript by (auto intro!: keep_intros)
  from mild_Spin [OF this assms(1,4)] show ?thesis .
next
  case (New name src u)
  have o: "ctor_open exists p src u' \<noteq> Spin v" for p u' v
    by (auto simp: ctor_open_def luaExit_def on_service_def zoom_def bind_def split: option.splits)
  from assms(4) o new_begin_cases [OF assms(2), of name] show ?thesis
    by (auto simp: New bind_def split: outcome.splits prod.splits)
next
  case DoRegister
  with assms(4) show ?thesis
    by (auto simp: new_register_def acquire_def bind_def fewer_def split: if_splits)
next
  case DoHand
  with assms(4) show ?thesis
    by (cases "f_worker (hd fs)")
       (auto simp: new_hand_def zoom_def bind_def setService_None setService_Some split: if_splits)
qed

lemma alive_run: "alive p m s = (case rtHeap s p of None \<Rightarrow> Fault UseAfterFree s | Some v \<Rightarrow> m s)"
  by (auto simp: alive_def on_service_None on_service_Done map_upd_triv split: option.split)

section \<open>Every step keeps the claims\<close>

lemma numbers_ok_start: "owned_ok s \<Longrightarrow> numbers_ok (sRt s)"
  by (simp add: owned_ok_def)

text \<open>A step of a worker that gives no service to anyone.\<close>

lemma owned_set_pc:
  assumes s: "owned_ok s" and f: "fewer (sRt s) r"
    and own: "\<And>i. i \<in> pc_own q \<Longrightarrow> holds s (Own w) i"
    and borrow: "pc_borrow q \<subseteq> pc_borrow (sPc s w)"
    and frames: "keys (pc_frames q) = keys (pc_frames (sPc s w))" and ok: "pc_ok q"
  shows "owned_ok (set_pc w q r s)"
proof (rule owned_less [OF s])
  fix h i assume h: "holds (set_pc w q r s) h i"
  show "holds s h i"
  proof (cases h)
    case (Creator c)
    with h frames show ?thesis
      by (cases c) (auto simp: set_pc_def split: if_splits dest: ids_keys)
  next
    case (Own k)
    with h f own show ?thesis by (auto simp: set_pc_def fewer_def split: if_splits)
  qed (use h f borrow in \<open>auto simp: set_pc_def fewer_def split: if_splits\<close>)
next
  fix c show "frames_ok (frames_of (set_pc w q r s) c)"
    using s frames_ok_keys [OF frames]
    by (cases c) (auto simp: set_pc_def owned_ok_def dest: spec [of _ "Some w"] spec [of _ c])
qed (use s f ok in \<open>auto simp: set_pc_def fewer_def owned_ok_def\<close>)

lemma owned_hung: "owned_ok s \<Longrightarrow> fewer (sRt s) r \<Longrightarrow> owned_ok (set_pc w (Hung (sPc s w)) r s)"
  by (rule owned_set_pc) (auto simp: owned_ok_def)

lemma owned_crash: "owned_ok s \<Longrightarrow> owned_ok (crashed e s)"
proof -
  have f: "frames_of (crashed e s) c = frames_of s c" for c by (cases c) (simp_all add: crashed_def)
  have "holds (crashed e s) h i = holds s h i" for h i
    by (cases h) (simp_all add: f, simp_all add: crashed_def)
  then show "owned_ok s \<Longrightarrow> owned_ok (crashed e s)" unfolding owned_ok_def f by (simp add: crashed_def)
qed

lemma owned_next:
  assumes "owned_ok s" "\<And>t. r = Spin t \<Longrightarrow> fewer (sRt s) t"
    and "\<And>a t. r = Done a t \<Longrightarrow> owned_ok (set_pc w (k a) t s)"
  shows "owned_ok (worker_next w r k s)"
  using assms by (cases r) (auto simp: worker_next_def owned_hung owned_crash)

text \<open>
  A step in which the script of the thread \<open>c\<close> acts.  \<open>t\<close> differs from \<open>s\<close> in the runtime and in
  the frames of \<open>c\<close>.
\<close>

fun script_frames :: "script \<Rightarrow> frame list" where
  "script_frames (Running fs) = fs"
| "script_frames (Ended ok) = []"

definition acted :: "sys \<Rightarrow> nat option \<Rightarrow> script \<Rightarrow> sys \<Rightarrow> bool" where
  "acted s c r t \<longleftrightarrow> frames_of t c = script_frames r \<and> (\<forall>c'. c' \<noteq> c \<longrightarrow> frames_of t c' = frames_of s c') \<and>
     (\<forall>w. pc_own (sPc t w) \<subseteq> pc_own (sPc s w) \<and> pc_borrow (sPc t w) \<subseteq> pc_borrow (sPc s w) \<and> pc_ok (sPc t w))"

lemma acted_frames:
  "acted s c r t \<Longrightarrow> owned_ok s \<Longrightarrow> frames_ok (script_frames r) \<Longrightarrow> frames_ok (frames_of t c')"
  by (cases "c' = c") (auto simp: acted_def owned_ok_def)

lemma acted_holds:
  assumes "acted s c r t" and "holds t h i" and "h \<noteq> Creator c"
    and "h = InQueue \<Longrightarrow> i \<in> set (mFreeServices (sRt s))"
    and "\<And>w. h = Own w \<Longrightarrow> map_option int (worker_service (sRt t) w) = Some i \<Longrightarrow>
           map_option int (worker_service (sRt s) w) = Some i"
  shows "holds s h i"
  using assms by (cases h) (auto simp: acted_def)

lemma owned_act:
  assumes s: "owned_ok s" and act: "acted s c r t" and fs: "frames_of s c = fs"
    and run: "no_queue (sRt s)" "enabled a fs" "lua_act exists a fs (sRt s) = Done r (sRt t)"
  shows "owned_ok t"
proof -
  have n: "numbers_ok (sRt s)" and fok: "frames_ok fs" and pcs: "\<And>w. pc_ok (sPc t w)"
    using s act fs by (auto simp: owned_ok_def acted_def)
  have creator: "holds t (Creator c) i \<longleftrightarrow> i \<in> f_id ` set (script_frames r)" for i
    using act by (simp add: acted_def)
  note frs = acted_frames [OF act s]
  from run(1) n run(2,3) show ?thesis
  proof (cases rule: act_effect)
    case keep
    have k: "keys (script_frames r) = keys fs" using keep(2) by auto
    show ?thesis
    proof (rule owned_less [OF s])
      show "holds s h i" if "holds t h i" for h i
      proof (cases "h = Creator c")
        case True
        with that creator ids_keys [OF k] fs show ?thesis by simp
      next
        case False
        show ?thesis by (rule acted_holds [OF act that False]) (use keep(1) that in \<open>auto simp: fewer_def\<close>)
      qed
      show "numbers_ok (sRt t)" "mAutoId (sRt s) \<le> mAutoId (sRt t)" using keep(1) n by (auto simp: fewer_def)
      show "frames_ok (frames_of t c')" for c' using frs frames_ok_keys [OF k] fok by simp
    qed (rule pcs)
  next
    case (new f)
    have below: "holds s h i \<Longrightarrow> i < mAutoId (sRt s)" for h i using s unfolding owned_ok_def by blast
    have ids: "f_id ` set fs \<subseteq> {..< mAutoId (sRt s)}" using below [of "Creator c"] fs by auto
    have old: "holds s h i" if "holds t h i" "\<not> (h = Creator c \<and> i = mAutoId (sRt s))" for h i
    proof (cases "h = Creator c")
      case True
      with that creator new(1,2) fs show ?thesis by auto
    next
      case False
      show ?thesis by (rule acted_holds [OF act that(1) False]) (use new(5,7) that(1) in auto)
    qed
    show ?thesis
    proof (rule owned_move [OF s, of t "Creator c" "mAutoId (sRt s)"])
      show "h = Creator c" if "holds t h (mAutoId (sRt s))" for h
        using that old below [of h "mAutoId (sRt s)"] by fastforce
      show "0 < mAutoId (sRt s)" using n by (simp add: numbers_ok_def)
      show "frames_ok (frames_of t c')" for c'
        using fok ids new n by (intro frs) (auto simp: frames_ok_def numbers_ok_def)
    qed (use old new pcs in auto)
  next
    case (register f fs0 fs')
    have k: "keys (script_frames r) = keys fs" using register by simp
    have "f_id f = int (f_ptr f)" using fok register(1) by (simp add: frames_ok_def)
    moreover have "holds s (Creator c) (f_id f)" using fs register(1) by simp
    then have "0 < f_id f \<and> f_id f < mAutoId (sRt s)" using s unfolding owned_ok_def by blast
    ultimately have nt: "numbers_ok (sRt t)" using n by (auto simp: register(4) numbers_ok_def om_find_insert split: if_splits)
    show ?thesis
    proof (rule owned_less [OF s])
      show "holds s h i" if "holds t h i" for h i
      proof (cases "h = Creator c")
        case True
        with that creator ids_keys [OF k] fs show ?thesis by simp
      next
        case False
        show ?thesis
          by (rule acted_holds [OF act that False])
             (use that in \<open>auto simp: register(4)\<close>)
      qed
      show "frames_ok (frames_of t c')" for c' using frs frames_ok_keys [OF k] fok by simp
    qed (use pcs nt in \<open>auto simp: register(4)\<close>)
  next
    case (own f fs0 w)
    have f: "f_id f = int (f_ptr f)" "f_id f \<notin> f_id ` set fs0" "holds s (Creator c) (f_id f)" "frames_ok fs0"
      using fok fs own(1) by (auto simp: frames_ok_def)
    have old: "holds s h i \<and> (h = Creator c \<longrightarrow> i \<noteq> f_id f)" if "holds t h i" "\<not> (h = Own w \<and> i = f_id f)" for h i
    proof (cases "h = Creator c")
      case True
      with that(1) creator [of i] own(2) have "i \<in> f_id ` set fs0" by simp
      with True fs own(1) f(2) show ?thesis by (metis holds.simps(2) image_insert insert_iff list.simps(15))
    next
      case False
      have "holds s h i"
        by (rule acted_holds [OF act that(1) False]) (use own that f(1) in \<open>auto dest!: own(7)\<close>)
      with False show ?thesis by simp
    qed
    show ?thesis
    proof (rule owned_move [OF s, of t "Own w" "f_id f"])
      show "h = Own w" if "holds t h (f_id f)" for h
      proof (rule ccontr)
        assume "h \<noteq> Own w"
        with old [OF that] have "holds s h (f_id f)" "h \<noteq> Creator c" by auto
        with f(3) s show False unfolding owned_ok_def by blast
      qed
      show "0 < f_id f" "f_id f < mAutoId (sRt t)" using f(3) s own(4) unfolding owned_ok_def by metis+
      show "frames_ok (frames_of t c')" for c' using frs f(4) own(2) by simp
    qed (use old own pcs in auto)
  next
    case (queue f fs0)
    have f: "f_id f \<notin> f_id ` set fs0" "holds s (Creator c) (f_id f)" "frames_ok fs0"
      using fok fs queue(1) by (auto simp: frames_ok_def)
    have u: "h = Creator c" if "holds s h (f_id f)" for h
      using f(2) that s unfolding owned_ok_def by blast
    have old: "holds s h i \<and> (h = Creator c \<longrightarrow> i \<noteq> f_id f)" if "holds t h i" "\<not> (h = InQueue \<and> i = f_id f)" for h i
    proof (cases "h = Creator c")
      case True
      with that(1) creator [of i] queue(2) have "i \<in> f_id ` set fs0" by simp
      with True fs queue(1) f(1) show ?thesis by (metis holds.simps(2) image_insert insert_iff list.simps(15))
    next
      case False
      have "holds s h i"
        by (rule acted_holds [OF act that(1) False])
           (use that in \<open>auto simp: queue(3)\<close>)
      with False show ?thesis by simp
    qed
    show ?thesis
    proof (rule owned_move [OF s, of t InQueue "f_id f"])
      show "h = InQueue" if "holds t h (f_id f)" for h
        using old [OF that] u by blast
      show "0 < f_id f" "f_id f < mAutoId (sRt t)"
        using f(2) s unfolding owned_ok_def by (metis, simp add: queue(3), metis)
      show "numbers_ok (sRt t)" using n u [of InQueue] by (auto simp: queue(3) numbers_ok_def)
      show "frames_ok (frames_of t c')" for c' using frs f(3) queue(2) by simp
    qed (use old pcs in \<open>auto simp: queue(3)\<close>)
  qed
qed

section \<open>The steps of a worker\<close>

lemma getFree_cases:
  "ServiceMgr_getFreeServiceId s =
     (if mFreeServiceLock s then Spin s
      else case mFreeServices s of [] \<Rightarrow> Done 0 s | i # q \<Rightarrow> Done i (s\<lparr>mFreeServices := q\<rparr>))"
  by (auto simp: ServiceMgr_getFreeServiceId_def split: list.split)

lemma pushFree_cases:
  "ServiceMgr_pushFreeServiceId i s =
     (if mFreeServiceLock s then Spin s else Done () (s\<lparr>mFreeServices := mFreeServices s @ [i]\<rparr>))"
  by (simp add: ServiceMgr_pushFreeServiceId_def)

lemma owned_dequeue:
  assumes s: "owned_ok s" and q: "mFreeServices (sRt s) = i # q" and pc: "sPc s w = Top"
  shows "i \<noteq> 0 \<and> owned_ok (set_pc w (GotId i) ((sRt s)\<lparr>mFreeServices := q\<rparr>) s)" (is "_ \<and> owned_ok ?t")
proof -
  have i: "holds s InQueue i" using q by simp
  with s have b: "0 < i" "i < mAutoId (sRt s)" unfolding owned_ok_def by blast+
  have d: "i \<notin> set q" and n: "numbers_ok (sRt s)" using s q by (auto simp: owned_ok_def numbers_ok_def)
  have old: "holds s h j \<and> (h = InQueue \<longrightarrow> j \<noteq> i)" if "holds ?t h j" "\<not> (h = Borrow w \<and> j = i)" for h j
  proof (cases h)
    case (Creator c)
    with that show ?thesis by (cases c) (auto simp: set_pc_def pc split: if_splits)
  qed (use that d q pc in \<open>auto simp: set_pc_def split: if_splits\<close>)
  have "owned_ok ?t"
  proof (rule owned_move [OF s, of ?t "Borrow w" i])
    show "h = Borrow w" if "holds ?t h i" for h
      using old [OF that] i s unfolding owned_ok_def by blast
    show "numbers_ok (sRt ?t)" using n q by (auto simp: set_pc_def numbers_ok_def)
    show "frames_ok (frames_of ?t c)" for c
      using s by (cases c) (auto simp: set_pc_def owned_ok_def frames_ok_def dest: spec [of _ c])
    show "pc_ok (sPc ?t k)" for k using s b by (auto simp: set_pc_def owned_ok_def)
  qed (use b old in \<open>auto simp: set_pc_def\<close>)
  with b show ?thesis by simp
qed

lemma owned_enqueue:
  assumes s: "owned_ok s" and pc: "sPc s w = Back i" and i: "i > 0"
  shows "owned_ok (set_pc w Top ((sRt s)\<lparr>mFreeServices := mFreeServices (sRt s) @ [i]\<rparr>) s)" (is "owned_ok ?t")
proof -
  have h: "holds s (Borrow w) i" using pc i by simp
  with s have b: "i < mAutoId (sRt s)" unfolding owned_ok_def by blast
  have n: "numbers_ok (sRt s)" using s by (simp add: owned_ok_def)
  have u: "h = Borrow w" if "holds s h i" for h using h that s unfolding owned_ok_def by blast
  have old: "holds s h j \<and> (h = Borrow w \<longrightarrow> j \<noteq> i)" if "holds ?t h j" "\<not> (h = InQueue \<and> j = i)" for h j
  proof (cases h)
    case (Creator c)
    with that show ?thesis by (cases c) (auto simp: set_pc_def pc split: if_splits)
  qed (use that pc in \<open>auto simp: set_pc_def split: if_splits\<close>)
  show ?thesis
  proof (rule owned_move [OF s, of ?t InQueue i])
    show "h = InQueue" if "holds ?t h i" for h using old [OF that] u by blast
    show "numbers_ok (sRt ?t)" using n u [of InQueue] by (auto simp: set_pc_def numbers_ok_def)
    show "frames_ok (frames_of ?t c)" for c
      using s by (cases c) (auto simp: set_pc_def owned_ok_def frames_ok_def dest: spec [of _ c])
    show "pc_ok (sPc ?t k)" for k using s by (auto simp: set_pc_def owned_ok_def)
  qed (use b i old in \<open>auto simp: set_pc_def\<close>)
qed

lemma set_pc_parts:
  "frames_of (set_pc w q r s) c = (if c = Some w then pc_frames q else frames_of s c)"
  "sPc (set_pc w q r s) = (sPc s)(w := q)" "sRt (set_pc w q r s) = r"
  by (cases c) (auto simp: set_pc_def)

lemma worker_owned:
  assumes "worker_step exists w s t" and "w < length (mWorkers (rtWorkers (sRt s)))"
    and q: "no_queue (sRt s)" and s: "owned_ok s"
  shows "owned_ok t"
  using assms(1)
proof cases
  case (w_own p)
  then show ?thesis
    by (auto intro!: owned_set_pc [OF s fewer_refl] simp: worker_service_def assms(2))
next
  case w_queue
  show ?thesis
    unfolding w_queue(1)
  proof (rule owned_next [OF s])
    fix i r assume "ServiceMgr_getFreeServiceId (sRt s) = Done i r"
    then consider "mFreeServices (sRt s) = []" "i = 0" "r = sRt s"
      | q where "mFreeServices (sRt s) = i # q" "r = (sRt s)\<lparr>mFreeServices := q\<rparr>"
      by (auto simp: getFree_cases split: if_splits list.splits)
    then show "owned_ok (set_pc w (if i = 0 then Top else GotId i) r s)"
    proof cases
      case 1
      then show ?thesis by (auto intro!: owned_set_pc [OF s fewer_refl] simp: w_queue(2))
    next
      case 2
      with owned_dequeue [OF s 2(1) w_queue(2)] show ?thesis by simp
    qed
  qed (auto simp: getFree_cases split: if_splits list.splits)
next
  case (w_lookup i)
  have ok: "i \<noteq> 0" using s w_lookup(2) unfolding owned_ok_def by (metis pc_ok.simps(1))
  have num: "numbers_ok (sRt s)" using s by (simp add: owned_ok_def)
  show ?thesis
    unfolding w_lookup(1)
  proof (rule owned_next [OF s])
    fix f r assume "ServiceMgr_getService i (sRt s) = Done f r"
    then have f: "f = om_find (mServices (sRt s)) i" "r = sRt s"
      by (cases "mServiceLock (sRt s)"; simp add: getService_free getService_held)+
    with num ok show "owned_ok (set_pc w (case f of None \<Rightarrow> Top | Some p \<Rightarrow> Polling p i) r s)"
      by (auto intro!: owned_set_pc [OF s fewer_refl] simp: w_lookup(2) numbers_ok_def split: option.split)
  next
    fix r assume "ServiceMgr_getService i (sRt s) = Spin r"
    then show "fewer (sRt s) r" by (cases "mServiceLock (sRt s)") (simp_all add: getService_free getService_held)
  qed
next
  case (w_poll p i hp)
  have ok: "i = 0 \<or> i = int p" using s w_poll(2) unfolding owned_ok_def by (metis pc_ok.simps(2))
  show ?thesis
    unfolding w_poll(1)
  proof (rule owned_next [OF s])
    fix ms r assume "poll_begin hp p (sRt s) = Done ms r"
    then have "fewer (sRt s) r" by (rule mild_Done [OF mild_poll_begin q])
    with ok show "owned_ok (set_pc w (case ms of None \<Rightarrow> Back i | Some ms \<Rightarrow> InLua p i []) r s)"
      by (auto intro!: owned_set_pc [OF s] simp: w_poll(2) split: option.split if_splits)
  qed (rule mild_Spin [OF mild_poll_begin q])
next
  case (w_lua p i fs a)
  have ok: "i = 0 \<or> i = int p" using s w_lua(2) unfolding owned_ok_def by (metis pc_ok.simps(3))
  show ?thesis
    unfolding w_lua(1)
  proof (rule owned_next [OF s])
    fix r u assume "alive p (lua_act exists a fs) (sRt s) = Done r u"
    then have run: "lua_act exists a fs (sRt s) = Done r u" by (auto simp: alive_run split: option.splits)
    have "acted s (Some w) r (set_pc w (after_script p i r) u s)"
      using ok s w_lua(2)
      by (cases r) (auto simp: acted_def set_pc_parts owned_ok_def)
    from owned_act [OF s this _ q w_lua(3)] run show "owned_ok (set_pc w (after_script p i r) u s)"
      by (simp add: w_lua(2) set_pc_def)
  next
    fix u assume "alive p (lua_act exists a fs) (sRt s) = Spin u"
    then have "lua_act exists a fs (sRt s) = Spin u" by (auto simp: alive_run split: option.splits)
    from act_spin [OF q numbers_ok_start [OF s] w_lua(3) this] show "fewer (sRt s) u" .
  qed
next
  case (w_back i)
  show ?thesis
    unfolding w_back(1)
  proof (rule owned_next [OF s])
    fix u r assume "(if i > 0 then ServiceMgr_pushFreeServiceId i else ret ()) (sRt s) = Done u r"
    then show "owned_ok (set_pc w Top r s)"
      using owned_enqueue [OF s w_back(2)]
      by (auto intro!: owned_set_pc [OF s fewer_refl] simp: pushFree_cases w_back(2) split: if_splits)
  qed (auto simp: pushFree_cases split: if_splits)
next
  case w_stop
  then show ?thesis by (auto intro!: owned_set_pc [OF s fewer_refl])
qed

section \<open>The steps of the main thread\<close>

lemma set_main_parts:
  "frames_of (set_main q r s) c = (if c = None then main_frames q else frames_of s c)"
  "sPc (set_main q r s) = sPc s" "sRt (set_main q r s) = r" "sMain (set_main q r s) = q"
  by (cases c; simp add: set_main_def)+

lemma owned_set_main:
  assumes s: "owned_ok s" and f: "fewer (sRt s) r" and k: "keys (main_frames q) = keys (main_frames (sMain s))"
  shows "owned_ok (set_main q r s)"
proof (rule owned_less [OF s])
  show "holds s h i" if "holds (set_main q r s) h i" for h i
  proof (cases h)
    case (Creator c)
    with that ids_keys [OF k] show ?thesis by (cases c) (auto simp: set_main_parts)
  next
    case (Own w)
    with that f show ?thesis by (auto simp: set_main_parts fewer_def)
  qed (use that f in \<open>auto simp: set_main_parts fewer_def\<close>)
  show "frames_ok (frames_of (set_main q r s) c)" for c
    using s frames_ok_keys [OF k] by (auto simp: set_main_parts owned_ok_def dest: spec [of _ None])
qed (use s f in \<open>auto simp: set_main_parts fewer_def owned_ok_def\<close>)

lemma owned_main_next:
  assumes "owned_ok s" "\<And>t. r = Spin t \<Longrightarrow> fewer (sRt s) t" "main_frames (sMain s) = fs"
    and "\<And>a t. r = Done a t \<Longrightarrow> owned_ok (set_main (k a) t s)"
  shows "owned_ok (main_next r k fs s)"
  using assms by (cases r) (auto simp: main_next_def owned_set_main owned_crash)

lemma owned_main_mild:
  assumes "owned_ok s" "no_queue (sRt s)" "mild m" "main_frames (sMain s) = []" "\<And>a. main_frames (k a) = []"
  shows "owned_ok (main_next (m (sRt s)) k [] s)"
  by (rule owned_main_next [OF assms(1)])
     (use assms mild_Spin [OF assms(3,2)] mild_Done [OF assms(3,2)] in \<open>auto intro!: owned_set_main\<close>)

lemma fewer_stop: "fewer r (stop_worker k r)"
proof -
  have "mService (ws[k := (ws ! k)\<lparr>mIsRun := False\<rparr>] ! w) = mService (ws ! w)" for ws :: "worker list" and w
    by (cases "w = k"; cases "k < length ws") (simp_all add: list_update_beyond)
  then have "worker_service (stop_worker k r) = worker_service r"
    by (auto simp: stop_worker_def worker_service_def fun_eq_iff)
  then show ?thesis by (simp add: fewer_def) (simp add: stop_worker_def numbers_ok_def)
qed

lemma main_owned:
  assumes "main_step exists s t" and q: "no_queue (sRt s)" and s: "owned_ok s"
  shows "owned_ok t"
  using assms(1)
proof cases
  case (m_start fs a)
  show ?thesis
    unfolding m_start(1)
  proof (rule owned_main_next [OF s])
    fix r u assume run: "lua_act exists a fs (sRt s) = Done r u"
    have "acted s None r (set_main (after_start r) u s)"
      using s by (cases r) (auto simp: acted_def set_main_parts owned_ok_def)
    from owned_act [OF s this _ q m_start(3)] run m_start(2)
    show "owned_ok (set_main (after_start r) u s)" by (simp add: set_main_parts)
  next
    fix u assume "lua_act exists a fs (sRt s) = Spin u"
    from act_spin [OF q numbers_ok_start [OF s] m_start(3) this] show "fewer (sRt s) u" .
  qed (simp add: m_start(2))
next
  case (m_timer k)
  then show ?thesis using owned_main_mild [OF s q mild_take_timer [of k]] by simp
next
  case m_poll
  then show ?thesis using owned_main_mild [OF s q mild_runtime(2)] by simp
next
  case m_close
  then show ?thesis using owned_main_mild [OF s q mild_runtime(3)] by simp
next
  case (m_end ok k)
  have "mild (if ok then ServiceMgr_poll else ret ())" by (intro keep_intros)
  from owned_main_mild [OF s q this] m_end show ?thesis by simp
qed (auto intro!: owned_set_main [OF s] simp: fewer_stop)

section \<open>Ownership\<close>

lemma owned_start: "owned_ok (server_start threads paths)"
proof -
  have ws: "mService w = None" if "w \<in> set (mWorkers (init_loop [1 .. threads] empty_worker_mgr))" for w
    using initWorker_ok [of threads "()" "init_loop [1 .. threads] empty_worker_mgr"] that
    by (simp add: WorkerMgr_initWorker_def)
  have "\<not> holds (server_start threads paths) h i" for h i
    by (cases h; (cases "case h of Creator c \<Rightarrow> c | _ \<Rightarrow> None")?)
       (auto simp: server_start_def core_init_def runtime_init_def runtime.defs worker_service_def ws)
  moreover have "frames_of (server_start threads paths) c = []" for c
    by (cases c) (simp_all add: server_start_def)
  ultimately show ?thesis
    by (auto simp: owned_ok_def frames_ok_def numbers_ok_def) (simp_all add: server_start_def core_init_def runtime_init_def runtime.defs)
qed

interpretation ownership: inductive_invariant "\<lambda>s. s = server_start threads paths" "server_step exists"
    "\<lambda>s. no_queue (sRt s) \<and> owned_ok s"
  for threads paths exists
proof unfold_locales
  show "no_queue (sRt s) \<and> owned_ok s" if "s = server_start threads paths" for s
    using that owned_start no_message.inv_start [of s threads paths] by simp
  show "no_queue (sRt t) \<and> owned_ok t" if "no_queue (sRt s) \<and> owned_ok s" "server_step exists s t" for s t
    using that by (auto elim!: server_step.cases dest: worker_quiet main_quiet worker_owned main_owned)
qed

lemma polls_claim: "pc_polls q = Some p \<Longrightarrow> pc_ok q \<Longrightarrow> int p \<in> pc_own q \<or> int p \<in> pc_borrow q"
  by (induction q rule: pc_polls.induct) auto

lemma polls_holder:
  "owned_ok s \<Longrightarrow> pc_polls (sPc s w) = Some p \<Longrightarrow> \<exists>h \<in> {Own w, Borrow w}. holds s h (int p)"
  using polls_claim [of "sPc s w" p] unfolding owned_ok_def by auto

lemma owned_exclusive:
  assumes "owned_ok s" and "pc_polls (sPc s w) = Some p"
  shows "(\<forall>w'. pc_polls (sPc s w') = Some p \<longrightarrow> w' = w) \<and>
    int p \<notin> set (mFreeServices (sRt s)) \<and> distinct (mFreeServices (sRt s)) \<and>
    (\<forall>c. \<forall>f \<in> set (frames_of s c). f_ptr f \<noteq> p)"
proof -
  note s = assms(1)
  from polls_holder [OF s assms(2)] obtain h where h: "h \<in> {Own w, Borrow w}" "holds s h (int p)" by blast
  have u: "h' = h" if "holds s h' (int p)" for h' using s h(2) that unfolding owned_ok_def by blast
  have "w' = w" if "pc_polls (sPc s w') = Some p" for w'
    using polls_holder [OF s that] u h(1) by fastforce
  moreover have "int p \<notin> set (mFreeServices (sRt s))" using u [of InQueue] h(1) by auto
  moreover have "f_ptr f \<noteq> p" if "f \<in> set (frames_of s c)" for f c
  proof
    assume "f_ptr f = p"
    with that s have "holds s (Creator c) (int p)" by (auto simp: owned_ok_def frames_ok_def)
    with u h(1) show False by auto
  qed
  ultimately show ?thesis using s by (auto simp: owned_ok_def numbers_ok_def)
qed


section \<open>A run of the server\<close>

text \<open>
  One worker, one service ''a'' that the start script creates as a unique one.  The states of the
  run differ in the service's object, the worker's place, the main thread's place and little else.
\<close>

definition run_state ::
  "bool \<Rightarrow> ptr option \<Rightarrow> service option \<Rightarrow> (int, ptr) omap \<Rightarrow> ptr list \<Rightarrow> pc \<Rightarrow> main_pc \<Rightarrow> fault option \<Rightarrow> sys"
where
  "run_state fresh svc obj services dead q m e =
     \<lparr>sRt = \<lparr>rtPool = \<lparr>mPool = replicate 10 new_msg, mPoolLock = False\<rparr>,
        rtWorkers = \<lparr>mFreeWorkers = (if fresh then [(1, True)] else []),
                     mWorkers = [\<lparr>wId = 1, mIsRun = True, mService = svc\<rparr>], mWorkerLock = False\<rparr>,
        rtHeap = Map.empty(1 := obj), rtNext = (if fresh then 1 else 2), mServices = services,
        mAutoId = (if fresh then 1 else 2), mServicePaths = [''srv''],
        mServiceLock = False, mFreeServices = [], mFreeServiceLock = False,
        mPreDestroyServices = dead, mPreDestroyServiceLock = False, IsRun = True,
        Envs = Map.empty, EnvLock = False, CPath = '''', LuaPath = '''', IoTimers = []\<rparr>,
      sPc = (\<lambda>_. Top)(0 := q), sMain = m, sCrash = e\<rparr>"

definition a_service :: "bool \<Rightarrow> bool \<Rightarrow> service" where
  "a_service st ini = \<lparr>mId = 1, mName = ''a'', mState = st, mIsInit = ini, mMsgs = [], mMsgLock = False\<rparr>"

definition a_frame :: "stage \<Rightarrow> frame" where
  "a_frame st = \<lparr>f_worker = Some 0, f_id = 1, f_ptr = 1, f_uniq = True, f_stage = st\<rparr>"

abbreviation a_lua :: "string \<Rightarrow> bool" where
  "a_lua \<equiv> \<lambda>f. f = ''srv/a.lua''"

abbreviation runs_to :: "sys \<Rightarrow> bool" where
  "runs_to \<equiv> reachable a_lua 1 [''srv'']"

lemma run_0: "runs_to (run_state True None None [] [] Top (MStart []) None)"
proof -
  have "server_start 1 [''srv''] = run_state True None None [] [] Top (MStart []) None"
    by (simp add: server_start_def run_state_def core_init_def runtime.defs fun_eq_iff)
  then show ?thesis using reach_start [of "\<lambda>s. s = server_start 1 [''srv'']" "server_start 1 [''srv'']"] by simp
qed

lemma main_run:
  "runs_to s \<Longrightarrow> sCrash s = None \<Longrightarrow> main_step a_lua s t \<Longrightarrow> runs_to t"
  by (erule reach_step) (rule server_step.main)

lemma worker_run:
  "runs_to s \<Longrightarrow> sCrash s = None \<Longrightarrow> 0 < length (mWorkers (rtWorkers (sRt s))) \<Longrightarrow> worker_step a_lua 0 s t \<Longrightarrow> runs_to t"
  by (erule reach_step) (rule server_step.worker)

lemma run_1: "runs_to (run_state False None (Some (a_service True False)) [] [] Top (MStart [a_frame Load]) None)"
  by (rule main_run [OF run_0])
     (simp add: run_state_def,
      use m_start [of "run_state True None None [] [] Top (MStart []) None" "[]" "New ''a'' ''a.lua'' True" a_lua] in
      \<open>simp add: run_state_def new_begin_def ctor_open_def wait_worker_run zoom_def getWorker_run post_incr_def
        i32_max_def alloc_service_def on_service_Done main_next_def set_main_def a_service_def a_frame_def
        numeral_2_eq_2 fun_eq_iff\<close>)

lemmas run_defs = run_state_def a_service_def a_frame_def main_next_def set_main_def worker_next_def set_pc_def
  zoom_def on_service_Done on_service_gets

lemma run_2: "runs_to (run_state False None (Some (a_service True True)) [] [] Top (MStart [a_frame Register]) None)"
  by (rule main_run [OF run_1])
     (simp add: run_state_def,
      use m_start [of "run_state False None (Some (a_service True False)) [] [] Top (MStart [a_frame Load]) None"
        "[a_frame Load]" "EndScript True" a_lua] in \<open>simp add: run_defs ctor_close_def fun_eq_iff\<close>)

lemma run_3: "runs_to (run_state False None (Some (a_service True True)) [(1, 1)] [] Top (MStart [a_frame Hand]) None)"
  by (rule main_run [OF run_2])
     (simp add: run_state_def,
      use m_start [of "run_state False None (Some (a_service True True)) [] [] Top (MStart [a_frame Register]) None"
        "[a_frame Register]" "DoRegister" a_lua] in \<open>simp add: run_defs new_register_def\<close>)

lemma run_4: "runs_to (run_state False (Some 1) (Some (a_service True True)) [(1, 1)] [] Top (MStart []) None)"
  by (rule main_run [OF run_3])
     (simp add: run_state_def,
      use m_start [of "run_state False None (Some (a_service True True)) [(1, 1)] [] Top (MStart [a_frame Hand]) None"
        "[a_frame Hand]" "DoHand" a_lua] in \<open>simp add: run_defs new_hand_def setService_Some Worker_setService_def\<close>)

lemma run_5: "runs_to (run_state False (Some 1) (Some (a_service True True)) [(1, 1)] [] (Polling 1 0) (MStart []) None)"
  by (rule worker_run [OF run_4])
     (simp_all add: run_state_def,
      use w_own [of "run_state False (Some 1) (Some (a_service True True)) [(1, 1)] [] Top (MStart []) None" 0 1 a_lua]
      in \<open>simp add: run_defs\<close>)

lemma run_6: "runs_to (run_state False (Some 1) (Some (a_service True True)) [(1, 1)] [] (InLua 1 0 []) (MStart []) None)"
  by (rule worker_run [OF run_5])
     (simp_all add: run_state_def,
      use w_poll [of "run_state False (Some 1) (Some (a_service True True)) [(1, 1)] [] (Polling 1 0) (MStart []) None" 0 1 0 a_lua True]
      in \<open>simp add: run_defs poll_begin_def drain_empty fun_eq_iff\<close>)

text \<open>The service's script calls \<open>core.destoryService\<close> with its own number.\<close>

lemma run_7: "runs_to (run_state False None (Some (a_service True False)) [] [1] (InLua 1 0 []) (MStart []) None)"
  by (rule worker_run [OF run_6])
     (simp_all add: run_state_def,
      use w_lua [of "run_state False (Some 1) (Some (a_service True True)) [(1, 1)] [] (InLua 1 0 []) (MStart []) None" 0 1 0 "[]"
          "Call (ADestroy (Some 1))" a_lua]
      in \<open>simp add: run_defs alive_run lua_destoryService_def to_i32_def destory_free catch_def unassign_def
          Worker_getService_def Worker_setService_def bind_def fun_eq_iff\<close>)

lemma run_8: "runs_to (run_state False None (Some (a_service True False)) [] [1] (InLua 1 0 []) MLoop None)"
  by (rule main_run [OF run_7])
     (simp add: run_state_def,
      use m_start [of "run_state False None (Some (a_service True False)) [] [1] (InLua 1 0 []) (MStart []) None"
        "[]" "EndScript True" a_lua] in \<open>simp add: run_defs\<close>)

lemma run_9: "runs_to (run_state False None (Some (a_service True False)) [] [1] (InLua 1 0 []) MIo None)"
  by (rule main_run [OF run_8])
     (simp add: run_state_def,
      use m_iterate [of "run_state False None (Some (a_service True False)) [] [1] (InLua 1 0 []) MLoop None" a_lua]
      in \<open>simp add: run_defs\<close>)

lemma run_10: "runs_to (run_state False None None [] [] (InLua 1 0 []) MLoop None)"
  by (rule main_run [OF run_9])
     (simp add: run_state_def,
      use m_poll [of "run_state False None (Some (a_service True False)) [] [1] (InLua 1 0 []) MIo None" a_lua]
      in \<open>simp add: run_defs poll_deletes fun_eq_iff cong: if_cong\<close>)



theorem no_message_arrives_witness:
  "\<exists>s. runs_to s \<and> sPc s 0 = Polling 1 0 \<and> (\<forall>p ms t. Service_drain p (sRt s) = Done ms t \<longrightarrow> ms = [])"
  using no_message_arrives [OF run_5] run_5
  by (intro exI [of _ "run_state False (Some 1) (Some (a_service True True)) [(1, 1)] [] (Polling 1 0) (MStart []) None"])
     (simp add: run_state_def)

section \<open>Workers are used up\<close>

definition staffed :: "int \<Rightarrow> 'z runtime_scheme \<Rightarrow> bool" where
  "staffed n r \<longleftrightarrow> (\<forall>e \<in> set (mFreeWorkers (rtWorkers r)). 1 \<le> fst e) \<and>
     length (mWorkers (rtWorkers r)) = nat n \<and>
     int (length (mFreeWorkers (rtWorkers r))) + mAutoId r \<le> n + 1"

definition steady :: "int \<Rightarrow> ('z runtime_scheme, 'a) op \<Rightarrow> bool" where
  "steady n m \<longleftrightarrow> keeps (\<lambda>r. no_queue r \<and> staffed n r) (\<lambda>_ _. True) m"

lemma steadyD: "steady n m \<Longrightarrow> no_queue r \<Longrightarrow> staffed n r \<Longrightarrow> staffed n (final (m r))"
  by (simp add: steady_def keeps_def)

lemma steady_bind: "steady n m \<Longrightarrow> (\<And>a. steady n (f a)) \<Longrightarrow> steady n (bind m f)"
  by (simp add: steady_def keeps_bind transp_def)

lemma steady_mild: "mild m \<Longrightarrow> steady n m"
  by (auto simp: steady_def keeps_def staffed_def shrinks_def dest!: mildD)

lemma steadyI:
  "quietly m \<Longrightarrow> (\<And>r. mFreeWorkers (rtWorkers (final (m r))) = mFreeWorkers (rtWorkers r) \<and>
     length (mWorkers (rtWorkers (final (m r)))) = length (mWorkers (rtWorkers r)) \<and>
     mAutoId (final (m r)) = mAutoId r) \<Longrightarrow> steady n m"
  by (simp add: steady_def quietly_def keeps_def staffed_def)

lemma steady_queue: "steady n ServiceMgr_getFreeServiceId" "steady n (ServiceMgr_pushFreeServiceId i)"
  by (auto intro!: steadyI quietly_queue simp: getFree_cases pushFree_cases split: list.split)

lemma staffed_begin: "staffed n r \<Longrightarrow> staffed n (final (new_begin name r))"
proof (cases "mWorkerLock (rtWorkers r) \<or> mFreeWorkers (rtWorkers r) = []")
  case True
  then have "new_begin name r = Spin r"
    by (cases "mWorkerLock (rtWorkers r)")
       (simp_all add: new_begin_def wait_worker_def zoom_def useWorker_held useWorker_free)
  then show "staffed n r \<Longrightarrow> staffed n (final (new_begin name r))" by simp
next
  case False
  then obtain k b m where m: "mFreeWorkers (rtWorkers r) = (k, b) # m" by (cases "mFreeWorkers (rtWorkers r)") auto
  with False show "staffed n r \<Longrightarrow> staffed n (final (new_begin name r))"
    by (cases "mAutoId r = i32_max")
       (auto simp: new_begin_def wait_worker_run zoom_def getWorker_run post_incr_def alloc_service_def staffed_def)
qed

lemma steady_new: "steady n (new_begin name)" "steady n (new_register i p)" "steady n (new_hand w i p u)"
proof -
  show "steady n (new_begin name)"
    using quietly_new(1) [of name] staffed_begin by (auto simp: steady_def quietly_def keeps_def)
  show "steady n (new_register i p)"
    by (rule steadyI [OF quietly_new(2)]) (auto simp: new_register_def acquire_def bind_def)
  show "steady n (new_hand w i p u)"
    by (intro steadyI quietly_new) (cases w; auto simp: new_hand_def zoom_def setService_None setService_Some)
qed

lemma steady_act: "steady n (lua_act exists a fs)"
  by (cases a) (auto intro!: steady_bind steady_new intro: steady_mild keep_intros simp: case_prod_beta)

lemma next_steady:
  assumes "no_queue (sRt s)" "staffed n (sRt s)" "steady n m"
  shows "staffed n (sRt (worker_next w (m (sRt s)) k s))" "staffed n (sRt (main_next (m (sRt s)) k' fs s))"
  using steadyD [OF assms(3,1,2)] assms(2)
  by (auto simp: worker_next_def set_pc_def main_next_def set_main_def crashed_def split: outcome.split)

lemma steady_misc:
  "steady n (poll_begin hp p)" "steady n (ServiceMgr_getService i)" "steady n (take_timer k)"
  "steady n ServiceMgr_poll" "steady n close_all" "steady n (alive p (lua_act exists a fs))"
  "steady n (if i > 0 then ServiceMgr_pushFreeServiceId i else ret ())"
  "steady n (if ok then ServiceMgr_poll else ret ())"
  by (auto intro!: steady_bind steady_act steady_queue intro: steady_mild keep_intros simp: alive_def)

lemma worker_steady: "worker_step exists w s t \<Longrightarrow> no_queue (sRt s) \<Longrightarrow> staffed n (sRt s) \<Longrightarrow> staffed n (sRt t)"
  by (induction rule: worker_step.induct)
     (simp_all add: next_steady steady_misc steady_queue set_pc_def)

lemma main_steady: "main_step exists s t \<Longrightarrow> no_queue (sRt s) \<Longrightarrow> staffed n (sRt s) \<Longrightarrow> staffed n (sRt t)"
proof (induction rule: main_step.induct)
  case (m_join s ok k)
  then show ?case by (simp add: set_main_def stop_worker_def staffed_def)
qed (simp_all add: next_steady steady_misc steady_act set_main_def)

lemma staffed_start:
  assumes "0 \<le> threads"
  shows "staffed threads (sRt (server_start threads paths))"
proof -
  let ?wm = "init_loop [1 .. threads] empty_worker_mgr"
  have w: "workers_ok ?wm" "set (free_ids ?wm) = {1 .. nat threads}" "length (mWorkers ?wm) = nat threads"
    using initWorker_ok [of threads "()" ?wm] by (simp_all add: WorkerMgr_initWorker_def)
  have "distinct (free_ids ?wm)" using w(1) by (simp add: workers_ok_def free_ids_def om_wf_def strict_sorted_iff)
  then have "length (free_ids ?wm) = nat threads" using w(2) distinct_card by fastforce
  with w(1,3) assms show ?thesis
    by (simp add: staffed_def server_start_def core_init_def runtime_init_def runtime.defs workers_ok_def free_ids_def)
qed

lemma staffed_bound:
  assumes "owned_ok s" and "staffed threads (sRt s)"
  shows "mAutoId (sRt s) \<le> threads + 1 \<and>
    (\<forall>i p. om_find (mServices (sRt s)) i = Some p \<longrightarrow> 0 < i \<and> i \<le> threads) \<and>
    (mAutoId (sRt s) = threads + 1 \<longrightarrow>
       (\<forall>ex load name src args uniq. ServiceMgr_newService ex load name src args uniq (sRt s) = Spin (sRt s)))"
proof -
  let ?r = "sRt s"
  have le: "int (length (mFreeWorkers (rtWorkers ?r))) + mAutoId ?r \<le> threads + 1" using assms(2) by (simp add: staffed_def)
  have "numbers_ok ?r" using assms(1) by (simp add: owned_ok_def)
  with le have "\<forall>i p. om_find (mServices ?r) i = Some p \<longrightarrow> 0 < i \<and> i \<le> threads"
    by (fastforce simp: numbers_ok_def)
  moreover have "ServiceMgr_newService ex load name src args uniq ?r = Spin ?r"
    if "mAutoId ?r = threads + 1" for ex name src args uniq
      and load :: "ptr \<Rightarrow> string \<Rightarrow> string \<Rightarrow> core \<Rightarrow> (bool, core) outcome"
  proof -
    from that le have "mFreeWorkers (rtWorkers ?r) = []" by simp
    then have "wait_worker ?r = Spin ?r"
      by (cases "mWorkerLock (rtWorkers ?r)")
         (simp_all add: wait_worker_def zoom_def useWorker_held useWorker_free)
    then show ?thesis by (simp add: ServiceMgr_newService_def)
  qed
  ultimately show ?thesis using le by auto
qed

text \<open>
  C3: workers are used up.  Every call of \<open>newService\<close>, for a unique service or not, takes a worker
  for good (nothing calls \<open>freeWorker\<close>): in every reachable state the services' numbers are at most
  the number of threads, and once that many services have been created, the next \<open>newService\<close> waits
  for a worker without end, holding no lock but with its thread lost.
\<close>

theorem workers_used_up:
  assumes "reachable exists threads paths s" and "0 \<le> threads"
  shows "mAutoId (sRt s) \<le> threads + 1 \<and>
    (\<forall>i p. om_find (mServices (sRt s)) i = Some p \<longrightarrow> 0 < i \<and> i \<le> threads) \<and>
    (mAutoId (sRt s) = threads + 1 \<longrightarrow>
       (\<forall>ex load name src args uniq. ServiceMgr_newService ex load name src args uniq (sRt s) = Spin (sRt s)))"
proof -
  let ?r = "sRt s"
  have q: "no_queue ?r \<and> staffed threads ?r"
    using assms(1)
  proof (induction rule: reach.induct)
    case (reach_start s)
    then show ?case using staffed_start [OF assms(2)] no_message.inv_start by simp
  next
    case (reach_step s t)
    then show ?case by (auto elim!: server_step.cases dest: worker_quiet main_quiet worker_steady main_steady)
  qed
  with ownership.always [OF assms(1)] show ?thesis by (intro staffed_bound) simp_all
qed

theorem workers_used_up_witness:
  "\<exists>s. runs_to s \<and> mAutoId (sRt s) = 2 \<and> ServiceMgr_newService a_lua (quiet True) ''b'' ''a.lua'' '''' False (sRt s) = Spin (sRt s)"
  using workers_used_up [OF run_4] run_4
  by (intro exI [of _ "run_state False (Some 1) (Some (a_service True True)) [(1, 1)] [] Top (MStart []) None"])
     (simp add: run_state_def)

section \<open>Two calls of \<open>newService\<close> at once\<close>

text \<open>
  \<open>auto id = mAutoId; mAutoId++\<close> is two accesses, and no lock is held between them.
\<close>

definition new_read :: "('z runtime_scheme, nat option \<times> int) op" where
  "new_read =
     bind wait_worker (\<lambda>workerId.
     bind (workerop (WorkerMgr_getWorker workerId)) (\<lambda>worker.
     bind (gets mAutoId) (\<lambda>i. ret (worker, i))))"

definition new_count :: "int \<Rightarrow> string \<Rightarrow> ('z runtime_scheme, ptr) op" where
  "new_count i name = andthen (post_incr mAutoId mAutoId_update) (alloc_service i name)"

lemma new_begin_parts:
  "new_begin name = bind new_read (\<lambda>(worker, i). bind (new_count i name) (\<lambda>p. ret (worker, i, p)))"
proof (rule ext)
  fix s :: "'a runtime_scheme"
  have wk: "workerop (WorkerMgr_getWorker k) u = Done (if k < 1 \<or> k > length (mWorkers (rtWorkers u)) then None else Some (k - 1)) u"
    for k and u :: "'a runtime_scheme" by (simp add: zoom_def getWorker_run)
  show "new_begin name s = bind new_read (\<lambda>(worker, i). bind (new_count i name) (\<lambda>p. ret (worker, i, p))) s"
    by (cases "wait_worker s")
       (simp_all add: new_begin_def new_read_def new_count_def bind_assoc wk bind_def post_incr_def)
qed

text \<open>Two threads inside \<open>newService\<close>, the second reading the counter before the first has counted.\<close>

definition two_at_once :: "string \<Rightarrow> string \<Rightarrow> ('z runtime_scheme, (int \<times> ptr) \<times> (int \<times> ptr)) op" where
  "two_at_once na nb =
     bind new_read (\<lambda>(wa, ia).
     bind new_read (\<lambda>(wb, ib).
     bind (new_count ia na) (\<lambda>pa.
     bind (new_count ib nb) (\<lambda>pb.
     andthen (new_register ia pa)
    (andthen (new_register ib pb)
    (andthen (new_hand wa ia pa True)
    (andthen (new_hand wb ib pb True)
       (ret ((ia, pa), (ib, pb))))))))))"

text \<open>
  C6: two threads that create a service at the same time can give both services one number.  Each
  of the two gets a worker of its own that polls it, but only the first is registered: whatever is
  sent to the number reaches the first one, and no lookup ever finds the second.
\<close>

theorem racing_newService:
  fixes s :: "'z runtime_scheme"
  assumes "\<not> mServiceLock s" "\<not> mWorkerLock (rtWorkers s)" "om_wf (mServices s)"
    and "mFreeWorkers (rtWorkers s) = (wa, ba) # (wb, bb) # rest"
    and "1 \<le> wa" "wa < wb" "wb \<le> length (mWorkers (rtWorkers s))"
    and "mAutoId s + 2 \<le> i32_max" "om_find (mServices s) (mAutoId s) = None"
  shows "\<exists>t. two_at_once na nb s = Done ((mAutoId s, rtNext s), (mAutoId s, Suc (rtNext s))) t \<and>
    om_find (mServices t) = (om_find (mServices s))(mAutoId s \<mapsto> rtNext s) \<and>
    mService (mWorkers (rtWorkers t) ! (wa - 1)) = Some (rtNext s) \<and>
    mService (mWorkers (rtWorkers t) ! (wb - 1)) = Some (Suc (rtNext s)) \<and>
    ServiceMgr_getService (mAutoId s) t = Done (Some (rtNext s)) t"
proof -
  have n: "mAutoId s \<noteq> i32_max" "mAutoId s + 1 \<noteq> i32_max" using assms(8) by auto
  have w: "wa - 1 \<noteq> wb - 1" "wa - 1 < length (mWorkers (rtWorkers s))" "wb - 1 < length (mWorkers (rtWorkers s))"
    using assms by auto
  have m: "om_find (om_insert (mAutoId s) (Suc (rtNext s)) (om_insert (mAutoId s) (rtNext s) (mServices s))) =
      (om_find (mServices s))(mAutoId s \<mapsto> rtNext s)"
    using assms(3,9) by (simp add: om_find_insert)
  show ?thesis
    using assms n w
    by (simp add: two_at_once_def new_read_def new_count_def wait_worker_run zoom_def getWorker_run post_incr_def
        alloc_service_def new_register_def new_hand_def setService_Some Worker_setService_def m getService_free)
qed

theorem racing_newService_witness:
  "\<exists>t. two_at_once ''a'' ''b'' (runtime_init 2 []) = Done ((1, 1), (1, 2)) t \<and>
    mService (mWorkers (rtWorkers t) ! 0) = Some 1 \<and> mService (mWorkers (rtWorkers t) ! 1) = Some 2 \<and>
    ServiceMgr_getService 1 t = Done (Some 1) t"
proof -
  have "[1 .. 2 :: int] = [1, 2]" by (simp add: upto_rec1)
  then have "init_loop [1 .. 2] empty_worker_mgr =
    \<lparr>mFreeWorkers = [(1, True), (2, True)], mWorkers = [Worker_ctor 1, Worker_ctor 2], mWorkerLock = False\<rparr>"
    by (simp add: empty_worker_mgr_def)
  then show ?thesis
    using racing_newService [of "runtime_init 2 []" 1 True 2 True "[]" "''a''" "''b''"]
    by (auto simp: runtime_init_def i32_max_def numeral_2_eq_2)
qed

end
