(* ===== verification/Network.thy ===== *)
theory Network
  imports LuaService
begin

text \<open>
  What the network components share: objects on a heap of their own that are reached through
  pointers, and the callback of every component, which takes a message out of the pool, fills it
  in and sends it to the service that set the component up.
\<close>

section \<open>Objects behind pointers\<close>

definition on_obj ::
  "('s \<Rightarrow> nat \<Rightarrow> 'o option) \<Rightarrow> (((nat \<Rightarrow> 'o option) \<Rightarrow> nat \<Rightarrow> 'o option) \<Rightarrow> 's \<Rightarrow> 's) \<Rightarrow> nat \<Rightarrow> ('o, 'a) op \<Rightarrow> ('s, 'a) op"
where
  "on_obj heap upd p m s =
     (case heap s p of
        None \<Rightarrow> Fault UseAfterFree s
      | Some v \<Rightarrow> zoom (\<lambda>_. v) (\<lambda>f. upd (\<lambda>h. h(p \<mapsto> f v))) m s)"

lemma on_obj_None [op_spec]: "heap s p = None \<Longrightarrow> on_obj heap upd p m s = Fault UseAfterFree s"
  by (simp add: on_obj_def)

lemma on_obj_Done [op_spec]:
  "heap s p = Some v \<Longrightarrow> m v = Done a v' \<Longrightarrow> on_obj heap upd p m s = Done a (upd (\<lambda>h. h(p \<mapsto> v')) s)"
  by (simp add: on_obj_def zoom_def)

lemma on_obj_Spin [op_spec]:
  "heap s p = Some v \<Longrightarrow> m v = Spin v' \<Longrightarrow> on_obj heap upd p m s = Spin (upd (\<lambda>h. h(p \<mapsto> v')) s)"
  by (simp add: on_obj_def zoom_def)

section \<open>Notifying a service\<close>

definition notify ::
  "(service_msg \<Rightarrow> ('z runtime_scheme, service_msg) op) \<Rightarrow> int \<Rightarrow> ('z runtime_scheme, unit) op"
where
  "notify fill serviceId =
     bind (poolop ServiceMsgPool_pop) (\<lambda>msg.
     bind (fill msg) (\<lambda>msg. ServiceMgr_send (to_i32 serviceId) msg))"

text \<open>The service of that number is there to take a message: nothing its sender needs is locked.\<close>

definition ready_for :: "'z runtime_scheme \<Rightarrow> int \<Rightarrow> ptr \<Rightarrow> service \<Rightarrow> bool" where
  "ready_for s serviceId p v \<longleftrightarrow> \<not> mPoolLock (rtPool s) \<and> pool_ok (rtPool s) \<and> \<not> mServiceLock s \<and>
     om_find (mServices s) (to_i32 serviceId) = Some p \<and> rtHeap s p = Some v \<and> mIsInit v \<and> \<not> mMsgLock v"

text \<open>The state after one message went to that service.\<close>

definition queued :: "ptr \<Rightarrow> service \<Rightarrow> service_msg \<Rightarrow> 'z runtime_scheme \<Rightarrow> 'z runtime_scheme" where
  "queued p v m s = s\<lparr>rtPool := popped (rtPool s), rtHeap := (rtHeap s)(p \<mapsto> v\<lparr>mMsgs := mMsgs v @ [m]\<rparr>)\<rparr>"

lemma notify_run [op_spec]:
  assumes "ready_for s serviceId p v"
    and "fill (pool_head (rtPool s)) (s\<lparr>rtPool := popped (rtPool s)\<rparr>) = Done m (s\<lparr>rtPool := popped (rtPool s)\<rparr>)"
  shows "notify fill serviceId s = Done () (queued p v m s)"
  using assms by (simp add: notify_def poolop_pop send_run ready_for_def queued_def)

lemma notify_stuck [op_spec]: "mPoolLock (rtPool s) \<Longrightarrow> notify fill serviceId s = Spin s"
  by (simp add: notify_def poolop_pop_held)

text \<open>
  What a callback with data sends: the message that \<open>hdr\<close> has filled in, with the bytes \<open>d\<close> copied into
  its buffer, which grows where it is too small.
\<close>

definition with_data :: "(service_msg \<Rightarrow> service_msg) \<Rightarrow> bytes \<Rightarrow> service_msg \<Rightarrow> service_msg" where
  "with_data hdr d m =
     (let m1 = (hdr m)\<lparr>msg_dataLen := length d\<rparr>
      in m1\<lparr>msg_data := filled (length (msg_data m1) < msg_dataLen m1) d (msg_data m1)\<rparr>)"

lemma notify_data:
  assumes "ready_for s sid q w"
  shows "notify (\<lambda>m. let m1 = (hdr m)\<lparr>msg_dataLen := length d\<rparr>
      in fill_buffer (length (msg_data m1) < msg_dataLen m1) d m1) sid s =
    Done () (queued q w (with_data hdr d (pool_head (rtPool s))) s)"
proof (rule notify_run [OF assms])
  have "g \<or> length d \<le> length b" if "g = (length b < length d)" for g and b :: bytes using that by auto
  then show "(let m1 = (hdr (pool_head (rtPool s)))\<lparr>msg_dataLen := length d\<rparr>
      in fill_buffer (length (msg_data m1) < msg_dataLen m1) d m1) (s\<lparr>rtPool := popped (rtPool s)\<rparr>) =
    Done (with_data hdr d (pool_head (rtPool s))) (s\<lparr>rtPool := popped (rtPool s)\<rparr>)"
    by (simp add: Let_def with_data_def fill_buffer_run)
qed

lemma with_data_ok: "msg_ok (hdr m) \<Longrightarrow> msg_ok (with_data hdr d m)"
  by (auto simp: with_data_def msg_ok_def Let_def)

lemma with_data_table: "msg_table (with_data hdr d m) = (msg_table (hdr m))\<lparr>lm_data := d\<rparr>"
  by (simp add: with_data_def msg_table_def Let_def)

text \<open>A message out of the pool has no field set but \<open>fd\<close>, which \<open>reset\<close> forgets.\<close>

lemma ready_head:
  assumes "ready_for s sid q w"
  shows "msg_ok (pool_head (rtPool s))" "msg_source (pool_head (rtPool s)) = 0" "msg_status (pool_head (rtPool s)) = 0"
    "msg_error (pool_head (rtPool s)) = []" "\<not> msg_isOk (pool_head (rtPool s))"
proof -
  have "pool_ok (rtPool s)" using assms by (simp add: ready_for_def)
  then have r: "msg_ok (pool_head (rtPool s))" "ServiceMsg_reset (pool_head (rtPool s)) = pool_head (rtPool s)"
    using pool_head_ok by auto
  show "msg_ok (pool_head (rtPool s))" by (rule r)
  show "msg_source (pool_head (rtPool s)) = 0" "msg_status (pool_head (rtPool s)) = 0"
    "msg_error (pool_head (rtPool s)) = []" "\<not> msg_isOk (pool_head (rtPool s))"
    using reset_fields [of "pool_head (rtPool s)"] unfolding r(2) by blast+
qed

text \<open>A notification touches the pool and the service heap only.\<close>

lemma send_frame: "\<exists>h. final (ServiceMgr_send i m s) = s\<lparr>rtHeap := h\<rparr>"
proof (cases "mServiceLock s")
  case True
  then show ?thesis by (intro exI [of _ "rtHeap s"]) (simp add: send_held)
next
  case False
  have same: "\<exists>h. s = s\<lparr>rtHeap := h\<rparr>" by (rule exI [of _ "rtHeap s"]) simp
  from False same show ?thesis
    by (auto simp: send_run split: option.split)
qed

lemma notify_frame:
  assumes "\<And>m s. final (fill m s) = s"
  shows "\<exists>pl h. final (notify fill i s) = s\<lparr>rtPool := pl, rtHeap := h\<rparr>"
proof (cases "mPoolLock (rtPool s)")
  case True
  then show ?thesis by (intro exI [of _ "rtPool s"] exI [of _ "rtHeap s"]) (simp add: notify_stuck)
next
  case False
  let ?s = "s\<lparr>rtPool := popped (rtPool s)\<rparr>"
  have same: "\<exists>pl h. ?s = s\<lparr>rtPool := pl, rtHeap := h\<rparr>"
    by (rule exI [of _ "popped (rtPool s)"], rule exI [of _ "rtHeap s"]) simp
  show ?thesis
  proof (cases "fill (pool_head (rtPool s)) ?s")
    case (Done m t)
    with assms [of "pool_head (rtPool s)" ?s] have t: "t = ?s" by simp
    obtain h where "final (ServiceMgr_send (to_i32 i) m ?s) = ?s\<lparr>rtHeap := h\<rparr>" using send_frame by blast
    with False Done t show ?thesis by (auto simp: notify_def poolop_pop)
  next
    case (Spin t)
    with assms [of "pool_head (rtPool s)" ?s] False same show ?thesis by (auto simp: notify_def poolop_pop)
  next
    case (Fault e t)
    with assms [of "pool_head (rtPool s)" ?s] False same show ?thesis by (auto simp: notify_def poolop_pop)
  qed
qed

lemma final_fill: "final (fill_buffer g d m s) = s"
  by (simp add: fill_buffer_def memcpy_def bind_def)

text \<open>The service of \<open>sample\<close>, with nothing in its queue.\<close>

definition idle_service :: service where
  "idle_service = \<lparr>mId = 1, mName = ''a'', mState = True, mIsInit = True, mMsgs = [], mMsgLock = False\<rparr>"

end
