(* ===== verification/TcpServer.thy ===== *)
theory TcpServer
  imports Network
begin

text \<open>
  \<open>src/socket/tcp/server\<close> and \<open>src/socket/tcp/session\<close>: TCP servers, their sessions and the Lua
  calls on them.  Asio is not part of the repository: the results of its calls are parameters
  (\<open>wr sock data\<close> is the number of bytes that \<open>write_some\<close> took, \<open>None\<close> on an error; \<open>peer\<close> is
  \<open>remote_endpoint\<close>), and its completions are calls of \<open>TcpServer_onAcceptor\<close> and
  \<open>TcpSession_read\<close>, which return whether the next \<open>async_accept\<close> or \<open>async_read_some\<close> was posted.
  A listening server's three callbacks are always set together, by \<open>listenTcpServer\<close>: they are kept
  as the two numbers they capture.
\<close>

section \<open>State\<close>

datatype TcpMsgType = TcpConnect | TcpConnectError | TcpClose | TcpMsg

fun tcp_type_code :: "TcpMsgType \<Rightarrow> 32 word" where
  "tcp_type_code TcpConnect = 1"
| "tcp_type_code TcpConnectError = 2"
| "tcp_type_code TcpClose = 3"
| "tcp_type_code TcpMsg = 4"

record tcp_session =
  seId :: int
  seFd :: "64 word"
  seSocket :: nat

record tcp_server =
  tvId :: int
  tvAcceptor :: bool
  tvAutoId :: "64 word"
  tvSessions :: "(64 word, tcp_session) omap"
  tvLock :: bool
  tvFuncs :: "(int \<times> int) option"

record tcp = core +
  tcpHeap :: "nat \<Rightarrow> tcp_server option"
  tcpNext :: nat
  tcpServers :: "(int, nat) omap"
  tcpAutoId :: int
  tcpLock :: bool
  tcpWire :: "(nat \<times> bytes) list"

interpretation server_lock: lock_field tvLock tvLock_update
  by unfold_locales simp_all

interpretation tcp_mgr_lock: lock_field tcpLock tcpLock_update
  by unfold_locales simp_all

abbreviation on_server :: "nat \<Rightarrow> (tcp_server, 'a) op \<Rightarrow> ('z tcp_scheme, 'a) op" where
  "on_server \<equiv> on_obj tcpHeap tcpHeap_update"

section \<open>The callbacks: \<open>listenTcpServer\<close>\<close>

definition tcp_msg :: "TcpMsgType \<Rightarrow> int \<Rightarrow> 64 word \<Rightarrow> service_msg \<Rightarrow> service_msg" where
  "tcp_msg k i fd m =
     m\<lparr>msg_type := msg_type_code MsgTcpServer, msg_status := tcp_type_code k,
       msg_session := to_u32 i, msg_fd := ucast fd\<rparr>"

definition tcp_onConnect :: "int \<Rightarrow> int \<Rightarrow> 64 word \<Rightarrow> ('z tcp_scheme, unit) op" where
  "tcp_onConnect i serviceId fd = notify (\<lambda>m. ret (tcp_msg TcpConnect i fd m)) serviceId"

definition tcp_onClose :: "int \<Rightarrow> int \<Rightarrow> 64 word \<Rightarrow> ('z tcp_scheme, unit) op" where
  "tcp_onClose i serviceId fd = notify (\<lambda>m. ret (tcp_msg TcpClose i fd m)) serviceId"

definition tcp_onMsg :: "int \<Rightarrow> int \<Rightarrow> 64 word \<Rightarrow> bytes \<Rightarrow> ('z tcp_scheme, unit) op" where
  "tcp_onMsg i serviceId fd msgData =
     notify (\<lambda>m. let m1 = (tcp_msg TcpMsg i fd m)\<lparr>msg_dataLen := length msgData\<rparr>
                 in fill_buffer (length (msg_data m1) < msg_dataLen m1) msgData m1) serviceId"

definition callback :: "nat \<Rightarrow> (int \<Rightarrow> int \<Rightarrow> ('z tcp_scheme, unit) op) \<Rightarrow> ('z tcp_scheme, unit) op" where
  "callback p f =
     bind (on_server p (gets tvFuncs)) (\<lambda>c. case c of None \<Rightarrow> ret () | Some (i, serviceId) \<Rightarrow> f i serviceId)"

section \<open>\<open>TcpServer\<close>\<close>

definition TcpServer_ctor :: "int \<Rightarrow> tcp_server" where
  "TcpServer_ctor i =
     \<lparr>tvId = i, tvAcceptor = False, tvAutoId = 1, tvSessions = [], tvLock = False, tvFuncs = None\<rparr>"

text \<open>
  \<open>make_address\<close> throws on a bad address, \<open>open\<close>, \<open>bind\<close> and \<open>listen\<close> on a failure; nothing between
  here and \<open>main\<close> catches.
\<close>

definition TcpServer_listen :: "bool \<Rightarrow> bool \<Rightarrow> (tcp_server, bool) op" where
  "TcpServer_listen host_ok bind_ok =
     bind (gets tvAcceptor) (\<lambda>a.
       if a then ret False
       else if \<not> host_ok then raise UncaughtException
       else andthen (modify (\<lambda>v. v\<lparr>tvAcceptor := True\<rparr>))
           (if \<not> bind_ok then raise UncaughtException else ret True))"

definition TcpServer_close :: "(tcp_server, unit) op" where
  "TcpServer_close =
     bind (gets tvAcceptor) (\<lambda>a.
       if a then
         andthen (modify (\<lambda>v. v\<lparr>tvAcceptor := False\<rparr>))
        (andthen (acquire tvLock tvLock_update)
        (andthen (modify (\<lambda>v. v\<lparr>tvSessions := []\<rparr>)) (release tvLock_update)))
       else ret ())"

text \<open>The three setters, which \<open>listenTcpServer\<close> calls one after the other.\<close>

definition TcpServer_setOnFuncs :: "int \<Rightarrow> int \<Rightarrow> (tcp_server, unit) op" where
  "TcpServer_setOnFuncs i serviceId = modify (\<lambda>v. v\<lparr>tvFuncs := Some (i, serviceId)\<rparr>)"

definition erase_session :: "64 word \<Rightarrow> (tcp_server, unit) op" where
  "erase_session fd =
     andthen (acquire tvLock tvLock_update)
    (bind (gets tvSessions) (\<lambda>m.
       case om_find m fd of
         None \<Rightarrow> release tvLock_update
       | Some se \<Rightarrow> andthen (modify (\<lambda>v. v\<lparr>tvSessions := om_erase fd (tvSessions v)\<rparr>))
                            (release tvLock_update)))"

definition TcpServer_close_fd :: "nat \<Rightarrow> 64 word \<Rightarrow> ('z tcp_scheme, unit) op" where
  "TcpServer_close_fd p fd =
     andthen (callback p (\<lambda>i serviceId. tcp_onClose i serviceId fd)) (on_server p (erase_session fd))"

definition find_session :: "64 word \<Rightarrow> (tcp_server, tcp_session option) op" where
  "find_session fd =
     andthen (acquire tvLock tvLock_update)
    (bind (gets tvSessions) (\<lambda>m.
       case om_find m fd of
         None \<Rightarrow> andthen (release tvLock_update) (ret None)
       | Some se \<Rightarrow> andthen (release tvLock_update) (ret (Some se))))"

definition TcpServer_onMsg :: "nat \<Rightarrow> 64 word \<Rightarrow> bytes \<Rightarrow> ('z tcp_scheme, unit) op" where
  "TcpServer_onMsg p fd msgData = callback p (\<lambda>i serviceId. tcp_onMsg i serviceId fd msgData)"

text \<open>\<open>onAcceptor\<close>; \<open>ec\<close> is the error of the accept.  The counter is 64 bits wide and wraps.\<close>

definition accept_session :: "nat \<Rightarrow> (tcp_server, 64 word) op" where
  "accept_session sock =
     andthen (acquire tvLock tvLock_update)
    (bind (gets tvAutoId) (\<lambda>fd.
     andthen (modify (\<lambda>v. v\<lparr>tvAutoId := tvAutoId v + 1\<rparr>))
    (andthen (modify (\<lambda>v. v\<lparr>tvSessions :=
        om_insert fd \<lparr>seId = tvId v, seFd = fd, seSocket = sock\<rparr> (tvSessions v)\<rparr>))
    (andthen (release tvLock_update) (ret fd)))))"

definition TcpServer_onAcceptor :: "nat \<Rightarrow> bool \<Rightarrow> nat \<Rightarrow> ('z tcp_scheme, bool) op" where
  "TcpServer_onAcceptor p ec sock =
     (if ec then ret False
      else
        bind (on_server p (accept_session sock)) (\<lambda>fd.
        andthen (callback p (\<lambda>i serviceId. tcp_onConnect i serviceId fd))
          (bind (on_server p (gets tvAcceptor)) (\<lambda>a. if a then ret True else raise NullPointer))))"

section \<open>\<open>TcpServerMgr\<close>\<close>

definition TcpServerMgr_newServer :: "('z tcp_scheme, int) op" where
  "TcpServerMgr_newServer =
     bind (post_incr tcpAutoId tcpAutoId_update) (\<lambda>i.
     bind (gets tcpNext) (\<lambda>p.
     andthen (modify (\<lambda>s. s\<lparr>tcpHeap := (tcpHeap s)(p \<mapsto> TcpServer_ctor i), tcpNext := Suc p\<rparr>))
    (andthen (acquire tcpLock tcpLock_update)
    (andthen (modify (\<lambda>s. s\<lparr>tcpServers := om_insert i p (tcpServers s)\<rparr>))
    (andthen (release tcpLock_update) (ret i))))))"

definition TcpServerMgr_getServer :: "int \<Rightarrow> ('z tcp_scheme, nat option) op" where
  "TcpServerMgr_getServer i =
     andthen (acquire tcpLock tcpLock_update)
    (bind (gets tcpServers) (\<lambda>m.
       case om_find m i of
         None \<Rightarrow> andthen (release tcpLock_update) (ret None)
       | Some p \<Rightarrow> andthen (release tcpLock_update) (ret (Some p))))"

definition TcpServerMgr_destroyServer :: "int \<Rightarrow> ('z tcp_scheme, unit) op" where
  "TcpServerMgr_destroyServer i =
     andthen (acquire tcpLock tcpLock_update)
    (bind (gets tcpServers) (\<lambda>m.
       case om_find m i of
         None \<Rightarrow> release tcpLock_update
       | Some p \<Rightarrow> andthen (modify (\<lambda>s. s\<lparr>tcpServers := om_erase i (tcpServers s)\<rparr>))
                           (release tcpLock_update)))"

definition TcpServerMgr_close :: "int \<Rightarrow> 64 word \<Rightarrow> ('z tcp_scheme, unit) op" where
  "TcpServerMgr_close i fd =
     andthen (acquire tcpLock tcpLock_update)
    (bind (gets tcpServers) (\<lambda>m.
       case om_find m i of
         None \<Rightarrow> release tcpLock_update
       | Some p \<Rightarrow> andthen (TcpServer_close_fd p fd) (release tcpLock_update)))"

section \<open>\<open>TcpSession\<close>\<close>

definition TcpSession_close :: "tcp_session \<Rightarrow> ('z tcp_scheme, unit) op" where
  "TcpSession_close se = TcpServerMgr_close (seId se) (seFd se)"

definition TcpSession_send ::
  "(nat \<Rightarrow> bytes \<Rightarrow> nat option) \<Rightarrow> tcp_session \<Rightarrow> bytes \<Rightarrow> ('z tcp_scheme, bool) op"
where
  "TcpSession_send wr se data =
     (case wr (seSocket se) data of
        None \<Rightarrow> andthen (TcpSession_close se) (ret False)
      | Some n \<Rightarrow> andthen (modify (\<lambda>s. s\<lparr>tcpWire := tcpWire s @ [(seSocket se, take n data)]\<rparr>)) (ret True))"

definition TcpSession_getRemoteInfo ::
  "(nat \<Rightarrow> (string \<times> 16 word) option) \<Rightarrow> tcp_session \<Rightarrow> ('z tcp_scheme, string \<times> 16 word) op"
where
  "TcpSession_getRemoteInfo peer se =
     (case peer (seSocket se) of None \<Rightarrow> raise UncaughtException | Some r \<Rightarrow> ret r)"

text \<open>\<open>onMsg\<close>: \<open>ec\<close> is the error of the read (the end of the stream is one), \<open>data\<close> what it read.\<close>

definition TcpSession_onMsg :: "tcp_session \<Rightarrow> bool \<Rightarrow> bytes \<Rightarrow> ('z tcp_scheme, bool) op" where
  "TcpSession_onMsg se ec data =
     (if ec then ret False
      else if length data = 0 then ret True
      else bind (TcpServerMgr_getServer (seId se)) (\<lambda>server.
             case server of
               None \<Rightarrow> ret False
             | Some p \<Rightarrow> andthen (TcpServer_onMsg p (seFd se) data) (ret True)))"

text \<open>
  The completion of a read.  Only its server's map keeps a session alive (each call drops its
  \<open>shared_ptr\<close> before it returns), and \<open>doRead\<close> binds the bare \<open>this\<close>: the object can be gone when
  its read completes.  With an error, \<open>onMsg\<close> returns without touching it.
\<close>

definition session_alive :: "tcp_session \<Rightarrow> 'z tcp_scheme \<Rightarrow> bool" where
  "session_alive se s =
     list_ex (\<lambda>p. case tcpHeap s p of None \<Rightarrow> False | Some v \<Rightarrow> om_find (tvSessions v) (seFd se) = Some se)
       [0 ..< tcpNext s]"

definition TcpSession_read :: "tcp_session \<Rightarrow> bool \<Rightarrow> bytes \<Rightarrow> ('z tcp_scheme, bool) op" where
  "TcpSession_read se ec data =
     bind (gets (session_alive se)) (\<lambda>a. if ec \<or> a then TcpSession_onMsg se ec data else raise UseAfterFree)"

text \<open>\<open>TcpServer::send\<close> and \<open>TcpServer::getRemoteInfo\<close>.\<close>

definition TcpServer_send ::
  "(nat \<Rightarrow> bytes \<Rightarrow> nat option) \<Rightarrow> nat \<Rightarrow> 64 word \<Rightarrow> bytes \<Rightarrow> ('z tcp_scheme, bool) op"
where
  "TcpServer_send wr p fd data =
     bind (on_server p (find_session fd)) (\<lambda>se.
       case se of None \<Rightarrow> ret False | Some session \<Rightarrow> TcpSession_send wr session data)"

definition TcpServer_getRemoteInfo ::
  "(nat \<Rightarrow> (string \<times> 16 word) option) \<Rightarrow> nat \<Rightarrow> int \<Rightarrow> ('z tcp_scheme, (string \<times> 16 word) option) op"
where
  "TcpServer_getRemoteInfo peer p fd =
     bind (on_server p (find_session (word_of_int fd))) (\<lambda>se.
       case se of None \<Rightarrow> ret None
       | Some session \<Rightarrow> bind (TcpSession_getRemoteInfo peer session) (\<lambda>r. ret (Some r)))"

section \<open>The Lua calls: \<open>luaTcpServer.cpp\<close>\<close>

definition destroyTcpServer :: "int option \<Rightarrow> ('z tcp_scheme, unit) op" where
  "destroyTcpServer a1 = bind (luaL_check a1) (\<lambda>i. TcpServerMgr_destroyServer (to_i32 i))"

definition listenTcpServer ::
  "bool \<Rightarrow> bool \<Rightarrow> int option \<Rightarrow> int option \<Rightarrow> int option \<Rightarrow> ('z tcp_scheme, bool) op"
where
  "listenTcpServer host_ok bind_ok sid a1 a2 =
     bind (luaL_check a1) (\<lambda>i.
     bind (luaL_check a2) (\<lambda>port.
     bind (TcpServerMgr_getServer (to_i32 i)) (\<lambda>server.
       case server of
         None \<Rightarrow> ret False
       | Some p \<Rightarrow>
           bind (on_server p (TcpServer_listen host_ok bind_ok)) (\<lambda>r.
             if r then
               bind (luaL_check sid) (\<lambda>serviceId.
               andthen (on_server p (TcpServer_setOnFuncs i serviceId)) (ret True))
             else ret False))))"

definition sendTcpServer ::
  "(nat \<Rightarrow> bytes \<Rightarrow> nat option) \<Rightarrow> int option \<Rightarrow> int option \<Rightarrow> bytes option \<Rightarrow> ('z tcp_scheme, bool) op"
where
  "sendTcpServer wr a1 a2 a3 =
     bind (luaL_check a1) (\<lambda>i.
     bind (luaL_check a2) (\<lambda>fd.
     bind (luaL_check a3) (\<lambda>data.
     bind (TcpServerMgr_getServer (to_i32 i)) (\<lambda>server.
       case server of None \<Rightarrow> ret False | Some p \<Rightarrow> TcpServer_send wr p (word_of_int fd) data))))"

definition closeTcpServer :: "int option \<Rightarrow> int option \<Rightarrow> ('z tcp_scheme, unit) op" where
  "closeTcpServer a1 a2 =
     bind (luaL_check a1) (\<lambda>i.
     bind (luaL_check a2) (\<lambda>fd.
     bind (TcpServerMgr_getServer (to_i32 i)) (\<lambda>server.
       case server of None \<Rightarrow> ret () | Some p \<Rightarrow> TcpServer_close_fd p (word_of_int fd))))"

text \<open>\<open>None\<close> is no result at all; the pointer that \<open>getRemoteInfo\<close> returns is not checked.\<close>

definition getRemoteInfoTcpServer ::
  "(nat \<Rightarrow> (string \<times> 16 word) option) \<Rightarrow> int option \<Rightarrow> int option \<Rightarrow> ('z tcp_scheme, (string \<times> 16 word) option) op"
where
  "getRemoteInfoTcpServer peer a1 a2 =
     bind (luaL_check a1) (\<lambda>i.
     bind (luaL_check a2) (\<lambda>fd.
     bind (TcpServerMgr_getServer (to_i32 i)) (\<lambda>server.
       case server of
         None \<Rightarrow> ret None
       | Some p \<Rightarrow> bind (TcpServer_getRemoteInfo peer p (to_i32 fd)) (\<lambda>r.
                      case r of None \<Rightarrow> raise NullPointer | Some x \<Rightarrow> ret (Some x)))))"

end
