(* ===== verification/TcpFacts.thy ===== *)
theory TcpFacts
  imports TcpServer
begin

text \<open>
  What the TCP server's calls and events do, the invariant that ties file descriptors to sessions,
  and the registry of servers as an instance of \<open>id_registry\<close>.
\<close>

section \<open>The manager as a registry\<close>

definition tcp_ready :: "'z tcp_scheme \<Rightarrow> bool" where
  "tcp_ready s \<longleftrightarrow> \<not> tcpLock s \<and> om_wf (tcpServers s) \<and> (\<forall>i \<in> dom (om_find (tcpServers s)). i < tcpAutoId s)"

lemma getServer_free [op_spec]:
  "\<not> tcpLock s \<Longrightarrow> TcpServerMgr_getServer i s = Done (om_find (tcpServers s) i) s"
  by (simp add: TcpServerMgr_getServer_def split: option.split)

lemma getServer_held [op_spec]: "tcpLock s \<Longrightarrow> TcpServerMgr_getServer i s = Spin s"
  by (simp add: TcpServerMgr_getServer_def)

lemma newServer_free [op_spec]:
  "\<not> tcpLock s \<Longrightarrow> tcpAutoId s \<noteq> i32_max \<Longrightarrow>
   TcpServerMgr_newServer s = Done (tcpAutoId s)
     (s\<lparr>tcpHeap := (tcpHeap s)(tcpNext s \<mapsto> TcpServer_ctor (tcpAutoId s)), tcpNext := Suc (tcpNext s),
        tcpServers := om_insert (tcpAutoId s) (tcpNext s) (tcpServers s), tcpAutoId := tcpAutoId s + 1\<rparr>)"
  by (simp add: TcpServerMgr_newServer_def post_incr_def)

lemma destroyServer_free [op_spec]:
  "\<not> tcpLock s \<Longrightarrow>
   TcpServerMgr_destroyServer i s =
     Done () (case om_find (tcpServers s) i of None \<Rightarrow> s | Some p \<Rightarrow> s\<lparr>tcpServers := om_erase i (tcpServers s)\<rparr>)"
  by (simp add: TcpServerMgr_destroyServer_def split: option.split)

interpretation tcp_registry: id_registry TcpServerMgr_newServer TcpServerMgr_getServer TcpServerMgr_destroyServer
    "\<lambda>s. om_find (tcpServers s)" tcpAutoId tcp_ready
proof unfold_locales
  fix s :: "'z tcp_scheme" and i
  assume s: "tcp_ready s"
  show "om_find (tcpServers s) i \<noteq> None \<Longrightarrow> i < tcpAutoId s"
    using s by (auto simp: tcp_ready_def)
  show "TcpServerMgr_newServer s = Fault SignedOverflow s" if "tcpAutoId s = i32_max"
    using that by (simp add: TcpServerMgr_newServer_def post_incr_def)
  show "TcpServerMgr_getServer i s = Done (om_find (tcpServers s) i) s"
    using s by (simp add: tcp_ready_def getServer_free)
  show "\<exists>v t. TcpServerMgr_newServer s = Done (tcpAutoId s) t \<and> tcp_ready t \<and>
      om_find (tcpServers t) = (om_find (tcpServers s))(tcpAutoId s \<mapsto> v) \<and> tcpAutoId t = tcpAutoId s + 1"
    if "tcpAutoId s \<noteq> i32_max"
  proof -
    have w: "om_wf (tcpServers s)" and b: "\<forall>i \<in> dom (om_find (tcpServers s)). i < tcpAutoId s" and l: "\<not> tcpLock s"
      using s by (auto simp: tcp_ready_def)
    have f: "om_find (tcpServers s) (tcpAutoId s) = None" using om.counter_fresh [OF b] .
    have c: "\<forall>i \<in> dom (om_find (om_insert (tcpAutoId s) (tcpNext s) (tcpServers s))). i < tcpAutoId s + 1"
      by (rule om.counter_ins [OF w b]) simp
    show ?thesis
      by (intro exI [of _ "tcpNext s"]) (use that l w c f in \<open>simp add: newServer_free tcp_ready_def om.find_ins_fresh\<close>)
  qed
  show "\<exists>t. TcpServerMgr_destroyServer i s = Done () t \<and> tcp_ready t \<and>
      om_find (tcpServers t) = (om_find (tcpServers s))(i := None) \<and> tcpAutoId t = tcpAutoId s"
  proof (cases "om_find (tcpServers s) i")
    case None
    then have "(om_find (tcpServers s))(i := None) = om_find (tcpServers s)" by auto
    with None s show ?thesis by (simp add: destroyServer_free tcp_ready_def)
  next
    case (Some p)
    with s show ?thesis
      by (auto simp: destroyServer_free tcp_ready_def om.find_era intro: om.counter_era)
  qed
qed

text \<open>
  In any sequence of \<open>new\<close>, lookup and \<open>destroy\<close> on TCP servers, the numbers handed out are
  consecutive, from the counter on, so that no two servers share a number; and the sequence comes
  to its end while the counter stays below \<open>2^31\<close>.
\<close>

theorem tcp_server_numbers:
  fixes s :: "'z tcp_scheme"
  assumes "tcp_ready s" and "tcpAutoId s + int (length cs) \<le> i32_max"
  shows "\<exists>rs t. run_all (reg_exec TcpServerMgr_newServer TcpServerMgr_getServer TcpServerMgr_destroyServer) cs s = Done rs t \<and>
    reg_ids rs = [tcpAutoId s .. tcpAutoId t - 1]"
proof -
  obtain rs t where r: "run_all tcp_registry.exec cs s = Done rs t"
    using tcp_registry.run_returns [OF assms] by blast
  with tcp_registry.ids_of_run [OF assms(1) r] show ?thesis by auto
qed

text \<open>A server state with nothing in it yet, over a core state.\<close>

definition tcp_init :: "core \<Rightarrow> tcp" where
  "tcp_init c = core.extend c \<lparr>tcpHeap = Map.empty, tcpNext = 1, tcpServers = [], tcpAutoId = 1, tcpLock = False, tcpWire = []\<rparr>"

lemma tcp_init_ready [simp]: "tcp_ready (tcp_init c)"
  by (simp add: tcp_ready_def tcp_init_def core.defs)

theorem tcp_server_numbers_witness:
  "\<exists>rs t. run_all (reg_exec TcpServerMgr_newServer TcpServerMgr_getServer TcpServerMgr_destroyServer)
      [RNew, RNew, RDestroy 1, RNew] (tcp_init (core_init (sample False []))) = Done rs t \<and>
    reg_ids rs = [1 .. tcpAutoId t - 1]"
  using tcp_server_numbers [of "tcp_init (core_init (sample False []))" "[RNew, RNew, RDestroy 1, RNew]"]
  by (simp add: i32_max_def) (simp add: tcp_init_def core.defs)

section \<open>Calls and events, branch by branch\<close>

lemma on_server_gets [op_spec]:
  "tcpHeap s p = Some v \<Longrightarrow> on_server p (gets f) s = Done (f v) s"
  by (simp add: on_obj_def zoom_def map_upd_triv)

lemma callback_run [op_spec]:
  "tcpHeap s p = Some v \<Longrightarrow>
   callback p f s = (case tvFuncs v of None \<Rightarrow> Done () s | Some (i, sid) \<Rightarrow> f i sid s)"
  by (simp add: callback_def on_server_gets split: option.split)

lemma find_session_run [op_spec]:
  "find_session fd v = (if tvLock v then Spin v else Done (om_find (tvSessions v) fd) v)"
  by (simp add: find_session_def split: option.split)

lemma on_server_find [op_spec]:
  "tcpHeap s p = Some v \<Longrightarrow> \<not> tvLock v \<Longrightarrow>
   on_server p (find_session fd) s = Done (om_find (tvSessions v) fd) s"
  by (simp add: on_obj_Done find_session_run map_upd_triv)

text \<open>The service that a listening server's callbacks send to can take a message.\<close>

definition serves :: "'z tcp_scheme \<Rightarrow> nat \<Rightarrow> tcp_server \<Rightarrow> int \<Rightarrow> int \<Rightarrow> ptr \<Rightarrow> service \<Rightarrow> bool" where
  "serves s p v i sid q w \<longleftrightarrow> tcpHeap s p = Some v \<and> \<not> tvLock v \<and> tvFuncs v = Some (i, sid) \<and> ready_for s sid q w"

lemma queued_tcp [simp]:
  "tcpHeap (queued q w m s) = tcpHeap s" "tcpServers (queued q w m s) = tcpServers s"
  "tcpLock (queued q w m s) = tcpLock s"
  by (simp_all add: queued_def)

definition erase_fd :: "nat \<Rightarrow> tcp_server \<Rightarrow> 64 word \<Rightarrow> 'z tcp_scheme \<Rightarrow> 'z tcp_scheme" where
  "erase_fd p v fd s = s\<lparr>tcpHeap := (tcpHeap s)(p \<mapsto> v\<lparr>tvSessions := om_erase fd (tvSessions v)\<rparr>)\<rparr>"

lemma om_erase_absent: "om_find m k = None \<Longrightarrow> om_erase k m = m"
  by (induction m) (auto split: if_splits)

lemma erase_session_run [op_spec]:
  "erase_session fd v =
     (if tvLock v then Spin v else Done () (v\<lparr>tvSessions := om_erase fd (tvSessions v)\<rparr>))"
  by (auto simp: erase_session_def om_erase_absent split: option.split)

lemma close_fd_run [op_spec]:
  assumes "serves s p v i sid q w"
  shows "TcpServer_close_fd p fd s =
    Done () (erase_fd p v fd (queued q w (tcp_msg TcpClose i fd (pool_head (rtPool s))) s))"
proof -
  let ?m = "tcp_msg TcpClose i fd (pool_head (rtPool s))"
  have "callback p (\<lambda>i serviceId. tcp_onClose i serviceId fd) s = Done () (queued q w ?m s)"
    using assms by (simp add: serves_def callback_run tcp_onClose_def notify_run)
  with assms show ?thesis
    by (simp add: TcpServer_close_fd_def on_obj_Done erase_session_run erase_fd_def serves_def)
qed

section \<open>File descriptors and sessions\<close>

definition sv_ok :: "tcp_server \<Rightarrow> bool" where
  "sv_ok v \<longleftrightarrow> om_wf (tvSessions v) \<and>
     (\<forall>fd se. om_find (tvSessions v) fd = Some se \<longrightarrow> seFd se = fd \<and> seId se = tvId v \<and> fd < tvAutoId v)"

text \<open>From \<open>v\<close> to \<open>v'\<close> no descriptor that was handed out was given to another session.\<close>

definition sv_grows :: "tcp_server \<Rightarrow> tcp_server \<Rightarrow> bool" where
  "sv_grows v v' \<longleftrightarrow> tvId v' = tvId v \<and> tvAutoId v \<le> tvAutoId v' \<and>
     (\<forall>fd < tvAutoId v. om_find (tvSessions v') fd \<in> {None, om_find (tvSessions v) fd})"

definition tcp_ok :: "'z tcp_scheme \<Rightarrow> bool" where
  "tcp_ok s \<longleftrightarrow> om_wf (tcpServers s) \<and>
     (\<forall>i p. om_find (tcpServers s) i = Some p \<longrightarrow> i < tcpAutoId s \<and> (\<exists>v. tcpHeap s p = Some v \<and> tvId v = i)) \<and>
     (\<forall>p v. tcpHeap s p = Some v \<longrightarrow> p < tcpNext s \<and> sv_ok v \<and> tvId v < tcpAutoId s \<and>
        (\<forall>p' v'. tcpHeap s p' = Some v' \<and> tvId v' = tvId v \<longrightarrow> p' = p))"

definition tcp_grows :: "'z tcp_scheme \<Rightarrow> 'z tcp_scheme \<Rightarrow> bool" where
  "tcp_grows s t \<longleftrightarrow> (\<forall>p v. tcpHeap s p = Some v \<longrightarrow> (\<exists>v'. tcpHeap t p = Some v' \<and> sv_grows v v'))"

abbreviation tcp_keeps :: "('z tcp_scheme, 'a) op \<Rightarrow> bool" where
  "tcp_keeps \<equiv> keeps tcp_ok tcp_grows"

lemma sv_grows_refl [simp]: "sv_grows v v"
  by (simp add: sv_grows_def)

lemma sv_grows_trans:
  assumes "sv_grows u v" "sv_grows v w"
  shows "sv_grows u w"
  unfolding sv_grows_def
proof (intro conjI allI impI)
  show "tvId w = tvId u" "tvAutoId u \<le> tvAutoId w"
    using assms by (auto simp: sv_grows_def)
  fix fd assume fd: "fd < tvAutoId u"
  with assms(1) have "fd < tvAutoId v" by (auto simp: sv_grows_def)
  with fd assms have "om_find (tvSessions w) fd \<in> {None, om_find (tvSessions v) fd}"
      "om_find (tvSessions v) fd \<in> {None, om_find (tvSessions u) fd}"
    unfolding sv_grows_def by blast+
  then show "om_find (tvSessions w) fd \<in> {None, om_find (tvSessions u) fd}" by auto
qed

lemma tcp_grows_refl [simp]: "tcp_grows s s"
  by (simp add: tcp_grows_def)

lemma transp_tcp [simp]: "transp tcp_grows"
  by (rule transpI) (auto simp: tcp_grows_def, metis sv_grows_trans)

lemma tcp_bind [keep_intros]: "tcp_keeps m \<Longrightarrow> (\<And>a. tcp_keeps (f a)) \<Longrightarrow> tcp_keeps (bind m f)"
  by (rule keeps_bind) auto

lemma tcp_same:
  assumes "\<And>s. tcpHeap (final (m s)) = tcpHeap s \<and> tcpNext (final (m s)) = tcpNext s \<and>
    tcpServers (final (m s)) = tcpServers s \<and> tcpAutoId (final (m s)) = tcpAutoId s"
  shows "tcp_keeps m"
  by (rule keepsI) (simp add: tcp_ok_def tcp_grows_def assms)

lemma tcp_plain [keep_intros]:
  "tcp_keeps (ret a)" "tcp_keeps (gets g)" "tcp_keeps (raise e)" "tcp_keeps (luaL_check v)"
  "tcp_keeps (acquire tcpLock tcpLock_update)" "tcp_keeps (release tcpLock_update)"
  "tcp_keeps (modify (\<lambda>s. s\<lparr>tcpWire := w s\<rparr>))"
  by (auto intro!: tcp_same simp: luaL_check_def acquire_def split: option.split)

lemma tcp_if [keep_intros]: "tcp_keeps m \<Longrightarrow> tcp_keeps n \<Longrightarrow> tcp_keeps (if b then m else n)"
  by simp

lemma tcp_option [keep_intros]:
  "tcp_keeps m \<Longrightarrow> (\<And>x. tcp_keeps (f x)) \<Longrightarrow> tcp_keeps (case v of None \<Rightarrow> m | Some x \<Rightarrow> f x)"
  by (cases v) auto

lemma tcp_notify:
  assumes "\<And>m s. final (fill m s) = s"
  shows "tcp_keeps (notify fill sid)"
proof (rule tcp_same)
  fix s :: "'a tcp_scheme"
  obtain pl h where "final (notify fill sid s) = s\<lparr>rtPool := pl, rtHeap := h\<rparr>"
    using notify_frame [of fill sid s] assms by blast
  then show "tcpHeap (final (notify fill sid s)) = tcpHeap s \<and> tcpNext (final (notify fill sid s)) = tcpNext s \<and>
    tcpServers (final (notify fill sid s)) = tcpServers s \<and> tcpAutoId (final (notify fill sid s)) = tcpAutoId s"
    by simp
qed

lemma tcp_callbacks [keep_intros]:
  "tcp_keeps (tcp_onConnect i sid fd)" "tcp_keeps (tcp_onClose i sid fd)" "tcp_keeps (tcp_onMsg i sid fd d)"
  by (auto intro!: tcp_notify simp: tcp_onConnect_def tcp_onClose_def tcp_onMsg_def final_fill Let_def)

lemma on_server_ok:
  assumes s: "tcp_ok s" and m: "\<And>v. tcpHeap s p = Some v \<Longrightarrow> sv_ok v \<Longrightarrow> sv_ok (final (m v)) \<and> sv_grows v (final (m v))"
  shows "tcp_ok (final (on_server p m s)) \<and> tcp_grows s (final (on_server p m s))"
proof (cases "tcpHeap s p")
  case None
  with s show ?thesis by (simp add: on_obj_None)
next
  case (Some v)
  then have f: "final (on_server p m s) = s\<lparr>tcpHeap := (tcpHeap s)(p \<mapsto> final (m v))\<rparr>"
    by (simp add: on_obj_def final_zoom)
  from s Some m [of v] have v: "sv_ok (final (m v))" "sv_grows v (final (m v))" by (auto simp: tcp_ok_def)
  then have "tvId (final (m v)) = tvId v" by (simp add: sv_grows_def)
  with s Some v show ?thesis by (fastforce simp: f tcp_ok_def tcp_grows_def)
qed

lemma tcp_on_server:
  "(\<And>v. sv_ok v \<Longrightarrow> sv_ok (final (m v)) \<and> sv_grows v (final (m v))) \<Longrightarrow> tcp_keeps (on_server p m)"
  by (rule keepsI) (rule on_server_ok)

lemma tcp_server_calls [keep_intros]:
  "tcp_keeps (on_server p (gets g))" "tcp_keeps (on_server p (find_session fd))"
  "tcp_keeps (on_server p (erase_session fd))" "tcp_keeps (on_server p (TcpServer_listen h b))"
  "tcp_keeps (on_server p (TcpServer_setOnFuncs i sid))"
  by (rule tcp_on_server; auto simp: TcpServer_setOnFuncs_def find_session_run erase_session_run TcpServer_listen_def sv_ok_def sv_grows_def om_find_erase)+

lemma tcp_callback [keep_intros]: "(\<And>i sid. tcp_keeps (f i sid)) \<Longrightarrow> tcp_keeps (callback p f)"
  unfolding callback_def by (intro keep_intros) (auto intro: keep_intros)

text \<open>Accepting a connection: the only event that hands out a descriptor.\<close>

definition no_wrap :: "'z tcp_scheme \<Rightarrow> bool" where
  "no_wrap s \<longleftrightarrow> (\<forall>p v. tcpHeap s p = Some v \<longrightarrow> tvAutoId v \<noteq> - 1)"

lemma less_succ_word:
  fixes a b :: "64 word"
  assumes "b \<noteq> - 1"
  shows "a < b + 1 \<longleftrightarrow> a \<le> b" "b \<le> b + 1"
proof -
  have "unat (b + 1) = unat b + 1"
    using assms unatSuc [of b] by (metis Suc_eq_plus1 add.commute eq_neg_iff_add_eq_0)
  then show "a < b + 1 \<longleftrightarrow> a \<le> b" "b \<le> b + 1" by (auto simp: word_less_nat_alt word_le_nat_alt)
qed

lemma accept_session_ok:
  assumes "sv_ok v" "tvAutoId v \<noteq> - 1"
  shows "sv_ok (final (accept_session sock v)) \<and> sv_grows v (final (accept_session sock v))"
proof (cases "tvLock v")
  case False
  have f: "om_find (tvSessions v) (tvAutoId v) = None"
    using assms(1) by (cases "om_find (tvSessions v) (tvAutoId v)") (auto simp: sv_ok_def)
  note w = less_succ_word [OF assms(2)]
  from False assms(1) f show ?thesis
    by (auto simp: accept_session_def sv_ok_def sv_grows_def om.find_ins_fresh w less_imp_le split: if_splits)
qed (use assms in \<open>simp add: accept_session_def\<close>)

lemma tcp_keeps_steps [keep_intros]:
  "tcp_keeps (TcpServerMgr_getServer i)" "tcp_keeps (TcpServer_close_fd p fd)"
  "tcp_keeps (TcpServer_onMsg p fd d)"
  unfolding TcpServerMgr_getServer_def TcpServer_close_fd_def TcpServer_onMsg_def
  by (auto intro!: keep_intros)

lemma tcp_keeps_session [keep_intros]:
  "tcp_keeps (TcpSession_send wr se d)" "tcp_keeps (TcpSession_getRemoteInfo peer se)" "tcp_keeps (TcpSession_read se ec d)"
  unfolding TcpSession_read_def TcpSession_send_def TcpSession_close_def TcpServerMgr_close_def TcpSession_getRemoteInfo_def TcpSession_onMsg_def
  by (auto intro!: keep_intros)

lemma tcp_keeps_lua [keep_intros]:
  "tcp_keeps (listenTcpServer h b sid a1 a2)" "tcp_keeps (sendTcpServer wr a1 a2 a3)"
  "tcp_keeps (closeTcpServer a1 a2)" "tcp_keeps (getRemoteInfoTcpServer peer a1 a2)"
  unfolding listenTcpServer_def sendTcpServer_def closeTcpServer_def getRemoteInfoTcpServer_def
    TcpServer_send_def TcpServer_getRemoteInfo_def
  by (auto intro!: keep_intros)

lemma tcp_keeps_destroy: "tcp_keeps (destroyTcpServer a1)"
proof -
  have "tcp_keeps (modify (\<lambda>s. s\<lparr>tcpServers := om_erase i (tcpServers s)\<rparr>))" for i
    by (rule keepsI) (auto simp: tcp_ok_def tcp_grows_def om_find_erase)
  then show ?thesis
    unfolding destroyTcpServer_def TcpServerMgr_destroyServer_def by (auto intro!: keep_intros)
qed

lemma tcp_added:
  assumes s: "tcp_ok s"
    and t: "tcpHeap t = (tcpHeap s)(tcpNext s \<mapsto> TcpServer_ctor (tcpAutoId s))" "tcpNext t = Suc (tcpNext s)"
      "tcpAutoId t = tcpAutoId s + 1"
      "tcpServers t = tcpServers s \<or> tcpServers t = om_insert (tcpAutoId s) (tcpNext s) (tcpServers s)"
  shows "tcp_ok t \<and> tcp_grows s t"
proof -
  let ?c = "TcpServer_ctor (tcpAutoId s)"
  have c: "sv_ok ?c" "tvId ?c = tcpAutoId s" by (simp_all add: sv_ok_def TcpServer_ctor_def)
  have old: "p < tcpNext s" "sv_ok v" "tvId v < tcpAutoId s" "\<And>p' v'. tcpHeap s p' = Some v' \<Longrightarrow> tvId v' = tvId v \<Longrightarrow> p' = p"
    if "tcpHeap s p = Some v" for p v
    using s that by (auto simp: tcp_ok_def)
  then have fr: "tcpHeap s (tcpNext s) = None" by (cases "tcpHeap s (tcpNext s)") auto
  have reg: "i < tcpAutoId s" "\<exists>v. tcpHeap s p = Some v \<and> tvId v = i" if "om_find (tcpServers s) i = Some p" for i p
    using s that by (auto simp: tcp_ok_def)
  have w: "om_wf (tcpServers s)" using s by (simp add: tcp_ok_def)
  have "om_find (tcpServers s) (tcpAutoId s) = None" using reg(1) by (cases "om_find (tcpServers s) (tcpAutoId s)") auto
  with t(4) w have m: "om_wf (tcpServers t)"
    "om_find (tcpServers t) i = Some p \<Longrightarrow> om_find (tcpServers s) i = Some p \<or> i = tcpAutoId s \<and> p = tcpNext s" for i p
    by (auto simp: om.find_ins_fresh split: if_splits)
  have "i < tcpAutoId t \<and> (\<exists>v. tcpHeap t p = Some v \<and> tvId v = i)" if "om_find (tcpServers t) i = Some p" for i p
    using m(2) [OF that]
  proof
    assume o: "om_find (tcpServers s) i = Some p"
    from reg(2) [OF o] fr have "p \<noteq> tcpNext s" by auto
    with reg [OF o] t(1,3) show ?thesis by auto
  qed (use c t(1,3) in auto)
  moreover have "p < tcpNext t \<and> sv_ok v \<and> tvId v < tcpAutoId t" if "tcpHeap t p = Some v" for p v
    using that old(1-3) [of p v] c t(1-3) by (auto simp: less_Suc_eq split: if_splits)
  moreover have "p' = p" if "tcpHeap t p = Some v" "tcpHeap t p' = Some v'" "tvId v' = tvId v" for p v p' v'
  proof -
    have "p = tcpNext s \<longleftrightarrow> tvId v = tcpAutoId s" using that(1) old(3) [of p v] c(2) t(1) by (auto split: if_splits)
    moreover have "p' = tcpNext s \<longleftrightarrow> tvId v' = tcpAutoId s" using that(2) old(3) [of p' v'] c(2) t(1) by (auto split: if_splits)
    ultimately show ?thesis using that old(4) [of p v p' v'] t(1) by (cases "p = tcpNext s") auto
  qed
  ultimately have "tcp_ok t" using m(1) unfolding tcp_ok_def by blast
  moreover have "tcp_grows s t" using t(1) fr by (auto simp: tcp_grows_def)
  ultimately show ?thesis by blast
qed

lemma tcp_new_ok:
  assumes "tcp_ok s"
  shows "tcp_ok (final (TcpServerMgr_newServer s)) \<and> tcp_grows s (final (TcpServerMgr_newServer s))"
proof (cases "tcpAutoId s = i32_max")
  case True
  with assms show ?thesis by (simp add: TcpServerMgr_newServer_def post_incr_def)
next
  case False
  show ?thesis
    by (cases "tcpLock s"; rule tcp_added [OF assms])
       (simp_all add: False newServer_free, simp_all add: TcpServerMgr_newServer_def post_incr_def False)
qed

lemma tcp_accept_ok:
  fixes s :: "'z tcp_scheme"
  assumes "tcp_ok s" "no_wrap s"
  shows "tcp_ok (final (TcpServer_onAcceptor p ec sock s)) \<and> tcp_grows s (final (TcpServer_onAcceptor p ec sock s))"
proof (cases ec)
  case False
  define A where "A = (on_server p (accept_session sock) :: ('z tcp_scheme, 64 word) op)"
  define B where "B = (\<lambda>fd. andthen (callback p (\<lambda>i serviceId. tcp_onConnect i serviceId fd))
      (bind (on_server p (gets tvAcceptor)) (\<lambda>a. if a then ret True else raise NullPointer))
      :: ('z tcp_scheme, bool) op)"
  have A: "tcp_ok (final (A s)) \<and> tcp_grows s (final (A s))"
    unfolding A_def by (rule on_server_ok [OF assms(1)]) (use assms(2) accept_session_ok in \<open>auto simp: no_wrap_def\<close>)
  have B: "tcp_keeps (B fd)" for fd unfolding B_def by (auto intro!: keep_intros)
  have run: "TcpServer_onAcceptor p ec sock s = bind A B s"
    using False by (simp add: TcpServer_onAcceptor_def A_def B_def)
  show ?thesis
  proof (cases "A s")
    case (Done fd u)
    with A keepsD [OF B, of u fd] show ?thesis
      by (auto simp: run dest: transpD [OF transp_tcp])
  qed (use A in \<open>simp_all add: run\<close>)
qed (use assms in \<open>simp add: TcpServer_onAcceptor_def\<close>)

text \<open>Everything that can happen to the TCP servers: the calls of scripts and asio's completions.\<close>

datatype tcp_event =
    ENew
  | EDestroyServer "int option"
  | EListen bool bool "int option" "int option" "int option"
  | ESend "nat \<Rightarrow> bytes \<Rightarrow> nat option" "int option" "int option" "bytes option"
  | ECloseFd "int option" "int option"
  | EInfo "nat \<Rightarrow> (string \<times> 16 word) option" "int option" "int option"
  | EAccept nat bool nat
  | ERead tcp_session bool bytes

fun tcp_handle :: "tcp_event \<Rightarrow> ('z tcp_scheme, unit) op" where
  "tcp_handle ENew = andthen TcpServerMgr_newServer (ret ())"
| "tcp_handle (EDestroyServer a1) = destroyTcpServer a1"
| "tcp_handle (EListen h b sid a1 a2) = andthen (listenTcpServer h b sid a1 a2) (ret ())"
| "tcp_handle (ESend wr a1 a2 a3) = andthen (sendTcpServer wr a1 a2 a3) (ret ())"
| "tcp_handle (ECloseFd a1 a2) = closeTcpServer a1 a2"
| "tcp_handle (EInfo peer a1 a2) = andthen (getRemoteInfoTcpServer peer a1 a2) (ret ())"
| "tcp_handle (EAccept p ec sock) = andthen (TcpServer_onAcceptor p ec sock) (ret ())"
| "tcp_handle (ERead se ec d) = andthen (TcpSession_read se ec d) (ret ())"

lemma final_unit: "final (andthen m (ret ()) s) = final (m s)"
  by (cases "m s") simp_all

text \<open>
  C15: whatever happens to the TCP servers (calls of scripts, connections, reads and writes that
  fail), and wherever it stops, every session in a server's map is filed under its own descriptor,
  belongs to that server and has a descriptor below the server's counter, and no two servers have
  one number; and no descriptor that was handed out is ever given to another connection, while a
  server's 64-bit counter is not at its very last value.
\<close>

theorem tcp_descriptors:
  fixes s :: "'z tcp_scheme"
  assumes "tcp_ok s" and "no_wrap s"
  shows "tcp_ok (final (tcp_handle e s)) \<and> tcp_grows s (final (tcp_handle e s))"
proof (cases e)
  case ENew
  with tcp_new_ok [OF assms(1)] show ?thesis by (simp add: final_unit)
next
  case (EAccept p ec sock)
  with tcp_accept_ok [OF assms] show ?thesis by (simp add: final_unit)
next
  case (EDestroyServer a1)
  with keepsD [OF tcp_keeps_destroy assms(1)] show ?thesis by simp
next
  case (EListen h b sid a1 a2)
  with keepsD [OF tcp_keeps_lua(1) assms(1)] show ?thesis by (simp add: final_unit)
next
  case (ESend wr a1 a2 a3)
  with keepsD [OF tcp_keeps_lua(2) assms(1)] show ?thesis by (simp add: final_unit)
next
  case (ECloseFd a1 a2)
  with keepsD [OF tcp_keeps_lua(3) assms(1)] show ?thesis by simp
next
  case (EInfo peer a1 a2)
  with keepsD [OF tcp_keeps_lua(4) assms(1)] show ?thesis by (simp add: final_unit)
next
  case (ERead se ec d)
  with keepsD [OF tcp_keeps_session(3) assms(1)] show ?thesis by (simp add: final_unit)
qed


section \<open>Connections\<close>

lemma accept_session_run:
  "\<not> tvLock v \<Longrightarrow> accept_session sock v =
     Done (tvAutoId v) (v\<lparr>tvAutoId := tvAutoId v + 1, tvSessions :=
       om_insert (tvAutoId v) \<lparr>seId = tvId v, seFd = tvAutoId v, seSocket = sock\<rparr> (tvSessions v)\<rparr>)"
  by (simp add: accept_session_def)

definition accepted :: "nat \<Rightarrow> tcp_server \<Rightarrow> nat \<Rightarrow> 'z tcp_scheme \<Rightarrow> 'z tcp_scheme" where
  "accepted p v sock s = s\<lparr>tcpHeap := (tcpHeap s)(p \<mapsto> v\<lparr>tvAutoId := tvAutoId v + 1, tvSessions :=
     om_insert (tvAutoId v) \<lparr>seId = tvId v, seFd = tvAutoId v, seSocket = sock\<rparr> (tvSessions v)\<rparr>)\<rparr>"

lemma onAcceptor_run [op_spec]:
  assumes "serves s p v i sid q w" "tvAcceptor v"
  shows "TcpServer_onAcceptor p False sock s =
    Done True (queued q w (tcp_msg TcpConnect i (tvAutoId v) (pool_head (rtPool s))) (accepted p v sock s))"
proof -
  let ?s = "accepted p v sock s"
  let ?t = "queued q w (tcp_msg TcpConnect i (tvAutoId v) (pool_head (rtPool s))) ?s"
  have v: "tcpHeap s p = Some v" "\<not> tvLock v" "tvFuncs v = Some (i, sid)" using assms(1) by (auto simp: serves_def)
  have r: "ready_for ?s sid q w" "rtPool ?s = rtPool s"
    using assms(1) by (simp_all add: serves_def ready_for_def accepted_def)
  have c: "callback p (\<lambda>i serviceId. tcp_onConnect i serviceId (tvAutoId v)) ?s = Done () ?t"
    using v r by (simp add: callback_run accepted_def) (simp add: tcp_onConnect_def notify_run)
  have a: "on_server p (accept_session sock) s = Done (tvAutoId v) ?s"
    using v by (simp add: on_obj_Done accept_session_run accepted_def)
  have g: "on_server p (gets tvAcceptor) ?t = Done True ?t"
    using assms(2) by (simp add: on_server_gets accepted_def)
  show ?thesis by (simp add: TcpServer_onAcceptor_def a c g)
qed

text \<open>
  C17: a connection to a listening server gets the next descriptor and a session, and the service is
  told \<open>Connect\<close> with the server's number and the low 32 bits of the descriptor; the server goes on
  accepting.  An accept that fails changes nothing but ends the accepting for good: no other is
  posted, and \<open>listen\<close> refuses to start again.
\<close>

theorem tcp_accept:
  fixes s :: "'z tcp_scheme"
  assumes "serves s p v i sid q w" "tvAcceptor v"
  shows "TcpServer_onAcceptor p True sock s = Done False s \<and>
    on_server p (TcpServer_listen h b) s = Done False s \<and>
    (\<exists>t. TcpServer_onAcceptor p False sock s = Done True t \<and>
      tcpHeap t = (tcpHeap s)(p \<mapsto> v\<lparr>tvAutoId := tvAutoId v + 1, tvSessions :=
        om_insert (tvAutoId v) \<lparr>seId = tvId v, seFd = tvAutoId v, seSocket = sock\<rparr> (tvSessions v)\<rparr>) \<and>
      rtHeap t = (rtHeap s)(q \<mapsto> w\<lparr>mMsgs := mMsgs w @ [tcp_msg TcpConnect i (tvAutoId v) (pool_head (rtPool s))]\<rparr>))"
proof -
  have v: "tcpHeap s p = Some v" using assms(1) by (auto simp: serves_def)
  have "TcpServer_listen h b v = Done False v" using assms(2) by (simp add: TcpServer_listen_def)
  from on_obj_Done [where heap = tcpHeap and upd = tcpHeap_update and m = "TcpServer_listen h b", OF v this] v
  have "on_server p (TcpServer_listen h b) s = Done False s"
    by (simp add: map_upd_triv)
  with onAcceptor_run [OF assms] show ?thesis
    by (simp add: TcpServer_onAcceptor_def) (simp add: queued_def accepted_def)
qed

text \<open>
  A peer that goes away is not noticed: the read that ends with an error stops the reading but
  leaves the session in the map and tells no one.  Conversely, a script's \<open>close\<close> on any
  descriptor, one that was never connected included, tells the service \<open>Close\<close>; and asking for
  the address of a descriptor that is not connected dereferences a null pointer.
\<close>

theorem tcp_close_asymmetry:
  fixes s :: "'z tcp_scheme"
  assumes "\<not> tcpLock s" "om_find (tcpServers s) (to_i32 i) = Some p" "serves s p v i' sid q w"
  shows "TcpSession_onMsg se True d s = Done False s \<and>
    (om_find (tvSessions v) (word_of_int fd) = None \<longrightarrow>
      closeTcpServer (Some i) (Some fd) s =
        Done () (queued q w (tcp_msg TcpClose i' (word_of_int fd) (pool_head (rtPool s))) s)) \<and>
    (om_find (tvSessions v) (word_of_int (to_i32 fd)) = None \<longrightarrow>
      getRemoteInfoTcpServer peer (Some i) (Some fd) s = Fault NullPointer s)"
proof -
  have v: "tcpHeap s p = Some v" "\<not> tvLock v" using assms(3) by (simp_all add: serves_def)
  have "erase_fd p v (word_of_int fd) (queued q w m s) = queued q w m s"
    if "om_find (tvSessions v) (word_of_int fd) = None" for m
    using that v(1) by (simp add: erase_fd_def om_erase_absent queued_def map_upd_triv)
  with assms v show ?thesis
    by (simp add: TcpSession_onMsg_def closeTcpServer_def getServer_free close_fd_run [OF assms(3)]
        getRemoteInfoTcpServer_def TcpServer_getRemoteInfo_def on_server_find)
qed

section \<open>Reads\<close>

lemma session_alive_iff:
  assumes "tcp_ok s"
  shows "session_alive se s \<longleftrightarrow> (\<exists>p v. tcpHeap s p = Some v \<and> om_find (tvSessions v) (seFd se) = Some se)"
proof -
  have "p < tcpNext s" if "tcpHeap s p = Some v" for p v using assms that by (auto simp: tcp_ok_def)
  then show ?thesis by (force simp: session_alive_def list_ex_iff split: option.splits)
qed

lemma session_dead:
  assumes s: "tcp_ok s" and v: "tcpHeap s p = Some v" and se: "om_find (tvSessions v) fd = Some se"
    and t: "tcpHeap t = (tcpHeap s)(p \<mapsto> v\<lparr>tvSessions := om_erase fd (tvSessions v)\<rparr>)"
  shows "\<not> session_alive se t"
proof -
  have o: "om_wf (tvSessions v)" "seFd se = fd" "seId se = tvId v" using s v se by (auto simp: tcp_ok_def sv_ok_def)
  have "om_find (tvSessions v') (seFd se) \<noteq> Some se" if h: "tcpHeap t p' = Some v'" for p' v'
  proof (cases "p' = p")
    case True
    with h t o show ?thesis by (auto simp: om_find_erase)
  next
    case False
    with h t have h': "tcpHeap s p' = Some v'" by simp
    show ?thesis
    proof
      assume "om_find (tvSessions v') (seFd se) = Some se"
      with s h' have "seId se = tvId v'" by (auto simp: tcp_ok_def sv_ok_def)
      with s v h' False o(3) show False by (auto simp: tcp_ok_def)
    qed
  qed
  then show ?thesis by (auto simp: session_alive_def list_ex_iff split: option.splits)
qed


text \<open>
  Destroying a TCP server takes its number away and nothing else: it goes on accepting
  connections and telling its service about them, under a number that no call accepts any more, so
  they can be neither answered nor closed, and what they send is dropped.
\<close>

theorem tcp_destroyed_still_accepts:
  fixes s :: "'z tcp_scheme"
  assumes "tcp_ok s" "\<not> tcpLock s" "om_find (tcpServers s) (to_i32 i) = Some p" "serves s p v i' sid q w"
    and "tvAcceptor v"
  shows "\<exists>t u. destroyTcpServer (Some i) s = Done () t \<and> TcpServer_onAcceptor p False sock t = Done True u \<and>
    rtHeap u q = Some (w\<lparr>mMsgs := mMsgs w @ [tcp_msg TcpConnect i' (tvAutoId v) (pool_head (rtPool s))]\<rparr>) \<and>
    (\<forall>wr fd data. sendTcpServer wr (Some i) (Some fd) (Some data) u = Done False u) \<and>
    (\<forall>fd. closeTcpServer (Some i) (Some fd) u = Done () u) \<and>
    (\<forall>se data. seId se = to_i32 i \<longrightarrow> data \<noteq> [] \<longrightarrow> TcpSession_onMsg se False data u = Done False u)"
proof -
  let ?t = "s\<lparr>tcpServers := om_erase (to_i32 i) (tcpServers s)\<rparr>"
  have d: "destroyTcpServer (Some i) s = Done () ?t"
    using assms(2,3) by (simp add: destroyTcpServer_def destroyServer_free)
  have "serves ?t p v i' sid q w" using assms(4) by (simp add: serves_def ready_for_def)
  note r = onAcceptor_run [OF this assms(5), of sock]
  let ?u = "queued q w (tcp_msg TcpConnect i' (tvAutoId v) (pool_head (rtPool ?t))) (accepted p v sock ?t)"
  have "om_wf (tcpServers s)" using assms(1) by (simp add: tcp_ok_def)
  then have u: "om_find (tcpServers ?u) (to_i32 i) = None" "\<not> tcpLock ?u"
    using assms(2) by (simp_all add: queued_def accepted_def om_find_erase)
  have h: "rtHeap ?u q = Some (w\<lparr>mMsgs := mMsgs w @ [tcp_msg TcpConnect i' (tvAutoId v) (pool_head (rtPool s))]\<rparr>)"
    by (simp add: queued_def)
  show ?thesis
    by (intro exI [of _ ?t] exI [of _ ?u])
       (use d r h u in \<open>simp add: sendTcpServer_def closeTcpServer_def TcpSession_onMsg_def getServer_free\<close>)
qed

section \<open>The properties at a concrete state\<close>

text \<open>Server 1, set up by service 1, with one connection: descriptor 1 on the socket 7.\<close>

definition a_server :: tcp_server where
  "a_server = \<lparr>tvId = 1, tvAcceptor = True, tvAutoId = 2,
     tvSessions = [(1, \<lparr>seId = 1, seFd = 1, seSocket = 7\<rparr>)], tvLock = False, tvFuncs = Some (1, 1)\<rparr>"

definition tcp_sample :: tcp where
  "tcp_sample = core.extend (core_init (sample False []))
     \<lparr>tcpHeap = [1 \<mapsto> a_server], tcpNext = 2, tcpServers = [(1, 1)], tcpAutoId = 2, tcpLock = False, tcpWire = []\<rparr>"

lemma tcp_sample_parts:
  "tcpHeap tcp_sample = [1 \<mapsto> a_server]" "tcpServers tcp_sample = [(1, 1)]" "\<not> tcpLock tcp_sample"
  "tcpNext tcp_sample = 2" "tcpAutoId tcp_sample = 2" "tcpWire tcp_sample = []"
  "rtPool tcp_sample = \<lparr>mPool = [], mPoolLock = False\<rparr>" "rtHeap tcp_sample = [1 \<mapsto> idle_service]"
  by (simp_all add: tcp_sample_def core.defs core_init_def runtime.defs sample_def idle_service_def)

lemma tcp_sample_serves: "serves tcp_sample 1 a_server 1 1 1 idle_service"
  by (simp add: serves_def tcp_sample_parts)
     (simp add: a_server_def ready_for_def tcp_sample_def core.defs core_init_def runtime.defs sample_def
        pool_ok_def to_i32_def idle_service_def)

lemma tcp_sample_ok: "tcp_ok tcp_sample" "no_wrap tcp_sample"
  by (auto simp: tcp_ok_def no_wrap_def sv_ok_def tcp_sample_parts a_server_def split: if_splits)

lemma tcp_sample_server: "om_find (tcpServers tcp_sample) (to_i32 1) = Some 1"
  by (simp add: tcp_sample_parts to_i32_def)

theorem tcp_descriptors_witness:
  "tcp_ok (final (tcp_handle (EAccept 1 False 8) tcp_sample)) \<and>
   tcp_grows tcp_sample (final (tcp_handle (EAccept 1 False 8) tcp_sample))"
  by (rule tcp_descriptors [OF tcp_sample_ok])


theorem tcp_accept_witness:
  "\<exists>t. TcpServer_onAcceptor 1 False 8 tcp_sample = Done True t \<and>
     (\<exists>v. tcpHeap t 1 = Some v \<and> tvAutoId v = 3 \<and> map fst (tvSessions v) = [1, 2])"
  using tcp_accept [OF tcp_sample_serves, where sock = 8 and h = True and b = True] by (auto simp: a_server_def)


theorem tcp_close_asymmetry_witness:
  "TcpSession_onMsg \<lparr>seId = 1, seFd = 1, seSocket = 7\<rparr> True [] tcp_sample = Done False tcp_sample \<and>
   returns (closeTcpServer (Some 1) (Some 99) tcp_sample) \<and>
   getRemoteInfoTcpServer (\<lambda>s. None) (Some 1) (Some 99) tcp_sample = Fault NullPointer tcp_sample"
  using tcp_close_asymmetry [OF tcp_sample_parts(3) tcp_sample_server tcp_sample_serves, of "\<lparr>seId = 1, seFd = 1, seSocket = 7\<rparr>" "[]" 99 "\<lambda>s. None"]
  by (simp add: a_server_def to_i32_def)

theorem tcp_destroyed_still_accepts_witness:
  "\<exists>t u. destroyTcpServer (Some 1) tcp_sample = Done () t \<and> TcpServer_onAcceptor 1 False 8 t = Done True u \<and>
     sendTcpServer (\<lambda>s d. Some 1) (Some 1) (Some 2) (Some [65]) u = Done False u"
  using tcp_destroyed_still_accepts [OF tcp_sample_ok(1) tcp_sample_parts(3) tcp_sample_server tcp_sample_serves, of 8]
  by (auto simp: a_server_def)

end
