(* ===== verification/TcpClient.thy ===== *)
theory TcpClient
  imports Network
begin

text \<open>
  \<open>src/socket/tcp/client\<close>: TCP clients, their manager and the Lua calls on them.  Asio's results
  are parameters and its completions are calls, as for the servers: \<open>TcpClient_onConnect\<close> and
  \<open>TcpClient_onMsg\<close> return whether another read was posted.  Starting to connect opens the socket.
  The four callbacks are set together, by \<open>connectTcpClient\<close>, and kept as the two numbers they
  capture.
\<close>

section \<open>State\<close>

datatype client_status = CConnect | CConnectError | CClose | CMsg

fun client_code :: "client_status \<Rightarrow> 32 word" where
  "client_code CConnect = 1"
| "client_code CConnectError = 2"
| "client_code CClose = 3"
| "client_code CMsg = 4"

record tcp_client =
  tcOpen :: bool
  tcSocket :: nat
  tcFuncs :: "(int \<times> int) option"

record tcpc = core +
  tccHeap :: "nat \<Rightarrow> tcp_client option"
  tccNext :: nat
  tccClients :: "(int, nat) omap"
  tccAutoId :: int
  tccLock :: bool
  tccWire :: "(nat \<times> bytes) list"

interpretation tcc_mgr_lock: lock_field tccLock tccLock_update
  by unfold_locales simp_all

abbreviation on_client :: "nat \<Rightarrow> (tcp_client, 'a) op \<Rightarrow> ('z tcpc_scheme, 'a) op" where
  "on_client \<equiv> on_obj tccHeap tccHeap_update"

section \<open>The callbacks: \<open>connectTcpClient\<close>\<close>

definition client_msg :: "client_status \<Rightarrow> int \<Rightarrow> service_msg \<Rightarrow> service_msg" where
  "client_msg k i m =
     m\<lparr>msg_type := msg_type_code MsgTcpClient, msg_status := client_code k, msg_session := to_u32 i\<rparr>"

definition client_onConnect :: "int \<Rightarrow> int \<Rightarrow> ('z tcpc_scheme, unit) op" where
  "client_onConnect i serviceId = notify (\<lambda>m. ret (client_msg CConnect i m)) serviceId"

definition client_onConnectError :: "string \<Rightarrow> int \<Rightarrow> int \<Rightarrow> ('z tcpc_scheme, unit) op" where
  "client_onConnectError err i serviceId =
     notify (\<lambda>m. ret ((client_msg CConnectError i m)\<lparr>msg_error := err\<rparr>)) serviceId"

definition client_onClose :: "int \<Rightarrow> int \<Rightarrow> ('z tcpc_scheme, unit) op" where
  "client_onClose i serviceId = notify (\<lambda>m. ret (client_msg CClose i m)) serviceId"

definition client_onMsg :: "bytes \<Rightarrow> int \<Rightarrow> int \<Rightarrow> ('z tcpc_scheme, unit) op" where
  "client_onMsg msgData i serviceId =
     notify (\<lambda>m. let m1 = (client_msg CMsg i m)\<lparr>msg_dataLen := length msgData\<rparr>
                 in fill_buffer (length (msg_data m1) < msg_dataLen m1) msgData m1) serviceId"

definition client_callback :: "nat \<Rightarrow> (int \<Rightarrow> int \<Rightarrow> ('z tcpc_scheme, unit) op) \<Rightarrow> ('z tcpc_scheme, unit) op" where
  "client_callback p f =
     bind (on_client p (gets tcFuncs)) (\<lambda>c. case c of None \<Rightarrow> ret () | Some (i, serviceId) \<Rightarrow> f i serviceId)"

section \<open>\<open>TcpClient\<close>\<close>

definition TcpClient_ctor :: "nat \<Rightarrow> tcp_client" where
  "TcpClient_ctor sock = \<lparr>tcOpen = False, tcSocket = sock, tcFuncs = None\<rparr>"

definition TcpClient_connect :: "bool \<Rightarrow> bool \<Rightarrow> (tcp_client, bool) op" where
  "TcpClient_connect host_ok resolved =
     bind (gets tcOpen) (\<lambda>o'.
       if o' then ret False
       else if \<not> host_ok then raise UncaughtException
       else if \<not> resolved then ret False
       else andthen (modify (\<lambda>c. c\<lparr>tcOpen := True\<rparr>)) (ret True))"

definition TcpClient_close :: "nat \<Rightarrow> ('z tcpc_scheme, unit) op" where
  "TcpClient_close p =
     bind (on_client p (gets tcOpen)) (\<lambda>o'.
       if \<not> o' then ret ()
       else andthen (on_client p (modify (\<lambda>c. c\<lparr>tcOpen := False\<rparr>))) (client_callback p client_onClose))"

definition TcpClient_send :: "(nat \<Rightarrow> bytes \<Rightarrow> nat option) \<Rightarrow> nat \<Rightarrow> bytes \<Rightarrow> ('z tcpc_scheme, bool) op" where
  "TcpClient_send wr p data =
     bind (on_client p (gets (\<lambda>c. (tcOpen c, tcSocket c)))) (\<lambda>c.
       if \<not> fst c then ret False
       else case wr (snd c) data of
              None \<Rightarrow> ret False
            | Some n \<Rightarrow> andthen (modify (\<lambda>s. s\<lparr>tccWire := tccWire s @ [(snd c, take n data)]\<rparr>)) (ret True))"

text \<open>The four setters, which \<open>connectTcpClient\<close> calls one after the other.\<close>

definition TcpClient_setOnFuncs :: "int \<Rightarrow> int \<Rightarrow> (tcp_client, unit) op" where
  "TcpClient_setOnFuncs i serviceId = modify (\<lambda>c. c\<lparr>tcFuncs := Some (i, serviceId)\<rparr>)"

definition TcpClient_onMsg :: "nat \<Rightarrow> bool \<Rightarrow> bytes \<Rightarrow> ('z tcpc_scheme, bool) op" where
  "TcpClient_onMsg p ec data =
     (if ec then andthen (TcpClient_close p) (ret False)
      else andthen (client_callback p (client_onMsg data)) (ret True))"

definition TcpClient_onConnect :: "nat \<Rightarrow> string option \<Rightarrow> ('z tcpc_scheme, bool) op" where
  "TcpClient_onConnect p ec =
     (case ec of
        Some err \<Rightarrow> andthen (client_callback p (client_onConnectError err)) (ret False)
      | None \<Rightarrow> andthen (client_callback p client_onConnect) (ret True))"

section \<open>\<open>TcpClientMgr\<close>\<close>

definition TcpClientMgr_newClient :: "('z tcpc_scheme, int) op" where
  "TcpClientMgr_newClient =
     bind (post_incr tccAutoId tccAutoId_update) (\<lambda>i.
     bind (gets tccNext) (\<lambda>p.
     andthen (modify (\<lambda>s. s\<lparr>tccHeap := (tccHeap s)(p \<mapsto> TcpClient_ctor p), tccNext := Suc p\<rparr>))
    (andthen (acquire tccLock tccLock_update)
    (andthen (modify (\<lambda>s. s\<lparr>tccClients := om_insert i p (tccClients s)\<rparr>))
    (andthen (release tccLock_update) (ret i))))))"

definition TcpClientMgr_getClient :: "int \<Rightarrow> ('z tcpc_scheme, nat option) op" where
  "TcpClientMgr_getClient i =
     andthen (acquire tccLock tccLock_update)
    (bind (gets tccClients) (\<lambda>m.
       case om_find m i of
         None \<Rightarrow> andthen (release tccLock_update) (ret None)
       | Some p \<Rightarrow> andthen (release tccLock_update) (ret (Some p))))"

definition TcpClientMgr_destroyClient :: "int \<Rightarrow> ('z tcpc_scheme, unit) op" where
  "TcpClientMgr_destroyClient i =
     andthen (acquire tccLock tccLock_update)
    (bind (gets tccClients) (\<lambda>m.
       case om_find m i of
         None \<Rightarrow> release tccLock_update
       | Some p \<Rightarrow> andthen (modify (\<lambda>s. s\<lparr>tccClients := om_erase i (tccClients s)\<rparr>))
                           (release tccLock_update)))"

section \<open>The Lua calls: \<open>luaTcpClient.cpp\<close>\<close>

text \<open>A missing host makes \<open>lua_tostring\<close> return null, which \<open>std::string\<close> does not take.\<close>

definition connectTcpClient ::
  "(string \<Rightarrow> bool) \<Rightarrow> (string \<Rightarrow> bool) \<Rightarrow> int option \<Rightarrow> int option \<Rightarrow> string option \<Rightarrow> int option \<Rightarrow> ('z tcpc_scheme, bool) op"
where
  "connectTcpClient host_ok resolved sid a1 host a3 =
     bind (luaL_check a1) (\<lambda>i.
     bind (luaL_check a3) (\<lambda>port.
     bind (TcpClientMgr_getClient (to_i32 i)) (\<lambda>client.
       case client of
         None \<Rightarrow> ret False
       | Some p \<Rightarrow>
           (case host of
              None \<Rightarrow> raise UncaughtException
            | Some h \<Rightarrow>
                bind (on_client p (TcpClient_connect (host_ok (c_str h)) (resolved (c_str h)))) (\<lambda>r.
                  if r then
                    bind (luaL_check sid) (\<lambda>serviceId.
                    andthen (on_client p (TcpClient_setOnFuncs i serviceId)) (ret True))
                  else ret False)))))"

definition destroyTcpClient :: "int option \<Rightarrow> ('z tcpc_scheme, unit) op" where
  "destroyTcpClient a1 = bind (luaL_check a1) (\<lambda>i. TcpClientMgr_destroyClient (to_i32 i))"

definition closeTcpClient :: "int option \<Rightarrow> ('z tcpc_scheme, unit) op" where
  "closeTcpClient a1 =
     bind (luaL_check a1) (\<lambda>i.
     bind (TcpClientMgr_getClient (to_i32 i)) (\<lambda>client.
       case client of None \<Rightarrow> ret () | Some p \<Rightarrow> TcpClient_close p))"

definition sendTcpClient ::
  "(nat \<Rightarrow> bytes \<Rightarrow> nat option) \<Rightarrow> int option \<Rightarrow> bytes option \<Rightarrow> ('z tcpc_scheme, bool) op"
where
  "sendTcpClient wr a1 a2 =
     bind (luaL_check a1) (\<lambda>i.
     bind (luaL_check a2) (\<lambda>data.
     bind (TcpClientMgr_getClient (to_i32 i)) (\<lambda>client.
       case client of None \<Rightarrow> ret False | Some p \<Rightarrow> TcpClient_send wr p data)))"

section \<open>The manager as a registry\<close>

definition tcc_ready :: "'z tcpc_scheme \<Rightarrow> bool" where
  "tcc_ready s \<longleftrightarrow> \<not> tccLock s \<and> om_wf (tccClients s) \<and> (\<forall>i \<in> dom (om_find (tccClients s)). i < tccAutoId s)"

lemma getClient_free [op_spec]:
  "\<not> tccLock s \<Longrightarrow> TcpClientMgr_getClient i s = Done (om_find (tccClients s) i) s"
  by (simp add: TcpClientMgr_getClient_def split: option.split)

lemma newClient_free [op_spec]:
  "\<not> tccLock s \<Longrightarrow> tccAutoId s \<noteq> i32_max \<Longrightarrow>
   TcpClientMgr_newClient s = Done (tccAutoId s)
     (s\<lparr>tccHeap := (tccHeap s)(tccNext s \<mapsto> TcpClient_ctor (tccNext s)), tccNext := Suc (tccNext s),
        tccClients := om_insert (tccAutoId s) (tccNext s) (tccClients s), tccAutoId := tccAutoId s + 1\<rparr>)"
  by (simp add: TcpClientMgr_newClient_def post_incr_def)

lemma destroyClient_free [op_spec]:
  "\<not> tccLock s \<Longrightarrow>
   TcpClientMgr_destroyClient i s =
     Done () (case om_find (tccClients s) i of None \<Rightarrow> s | Some p \<Rightarrow> s\<lparr>tccClients := om_erase i (tccClients s)\<rparr>)"
  by (simp add: TcpClientMgr_destroyClient_def split: option.split)

interpretation tcc_registry: id_registry TcpClientMgr_newClient TcpClientMgr_getClient TcpClientMgr_destroyClient
    "\<lambda>s. om_find (tccClients s)" tccAutoId tcc_ready
proof unfold_locales
  fix s :: "'z tcpc_scheme" and i
  assume s: "tcc_ready s"
  show "om_find (tccClients s) i \<noteq> None \<Longrightarrow> i < tccAutoId s"
    using s by (auto simp: tcc_ready_def)
  show "TcpClientMgr_newClient s = Fault SignedOverflow s" if "tccAutoId s = i32_max"
    using that by (simp add: TcpClientMgr_newClient_def post_incr_def)
  show "TcpClientMgr_getClient i s = Done (om_find (tccClients s) i) s"
    using s by (simp add: tcc_ready_def getClient_free)
  show "\<exists>v t. TcpClientMgr_newClient s = Done (tccAutoId s) t \<and> tcc_ready t \<and>
      om_find (tccClients t) = (om_find (tccClients s))(tccAutoId s \<mapsto> v) \<and> tccAutoId t = tccAutoId s + 1"
    if "tccAutoId s \<noteq> i32_max"
  proof -
    have w: "om_wf (tccClients s)" and b: "\<forall>i \<in> dom (om_find (tccClients s)). i < tccAutoId s" and l: "\<not> tccLock s"
      using s by (auto simp: tcc_ready_def)
    have c: "\<forall>i \<in> dom (om_find (om_insert (tccAutoId s) (tccNext s) (tccClients s))). i < tccAutoId s + 1"
      by (rule om.counter_ins [OF w b]) simp
    show ?thesis
      by (intro exI [of _ "tccNext s"])
         (use that l w c om.counter_fresh [OF b] in \<open>simp add: newClient_free tcc_ready_def om.find_ins_fresh\<close>)
  qed
  show "\<exists>t. TcpClientMgr_destroyClient i s = Done () t \<and> tcc_ready t \<and>
      om_find (tccClients t) = (om_find (tccClients s))(i := None) \<and> tccAutoId t = tccAutoId s"
  proof (cases "om_find (tccClients s) i")
    case None
    then have "(om_find (tccClients s))(i := None) = om_find (tccClients s)" by auto
    with None s show ?thesis by (simp add: destroyClient_free tcc_ready_def)
  next
    case (Some p)
    with s show ?thesis
      by (auto simp: destroyClient_free tcc_ready_def om.find_era intro: om.counter_era)
  qed
qed

text \<open>
  Once a TCP client is destroyed, no later sequence of \<open>new\<close>, lookup and \<open>destroy\<close> brings its
  number back: \<open>send\<close> on it is false and \<open>close\<close> on it does nothing, from then on.
\<close>

theorem tcp_client_gone:
  fixes s :: "'z tcpc_scheme"
  assumes "tcc_ready s" and "i < tccAutoId s" "to_i32 i = i"
    and "destroyTcpClient (Some i) s = Done () t"
    and "run_all (reg_exec TcpClientMgr_newClient TcpClientMgr_getClient TcpClientMgr_destroyClient) cs t = Done rs u"
  shows "sendTcpClient wr (Some i) (Some data) u = Done False u \<and> closeTcpClient (Some i) u = Done () u"
proof -
  have "TcpClientMgr_destroyClient i s = Done () t" using assms(3,4) by (simp add: destroyTcpClient_def)
  from tcc_registry.destroyed_forever [OF assms(1,2) this assms(5)] assms(3) show ?thesis
    by (simp add: sendTcpClient_def closeTcpClient_def)
qed

section \<open>The end of a connection\<close>

lemma on_client_gets [op_spec]:
  "tccHeap s p = Some c \<Longrightarrow> on_client p (gets f) s = Done (f c) s"
  by (simp add: on_obj_def zoom_def map_upd_triv)

lemma client_callback_run [op_spec]:
  "tccHeap s p = Some c \<Longrightarrow>
   client_callback p f s = (case tcFuncs c of None \<Rightarrow> Done () s | Some (i, sid) \<Rightarrow> f i sid s)"
  by (simp add: client_callback_def on_client_gets split: option.split)

definition shut :: "nat \<Rightarrow> tcp_client \<Rightarrow> 'z tcpc_scheme \<Rightarrow> 'z tcpc_scheme" where
  "shut p c s = s\<lparr>tccHeap := (tccHeap s)(p \<mapsto> c\<lparr>tcOpen := False\<rparr>)\<rparr>"

lemma close_closed [op_spec]: "tccHeap s p = Some c \<Longrightarrow> \<not> tcOpen c \<Longrightarrow> TcpClient_close p s = Done () s"
  by (simp add: TcpClient_close_def on_client_gets)

lemma close_open [op_spec]:
  assumes "tccHeap s p = Some c" "tcOpen c" "tcFuncs c = Some (i, sid)" "ready_for s sid q w"
  shows "TcpClient_close p s = Done () (queued q w (client_msg CClose i (pool_head (rtPool s))) (shut p c s))"
proof -
  have "ready_for (shut p c s) sid q w" "rtPool (shut p c s) = rtPool s"
    using assms(4) by (simp_all add: ready_for_def shut_def)
  then have n: "client_onClose i sid (shut p c s) =
      Done () (queued q w (client_msg CClose i (pool_head (rtPool s))) (shut p c s))"
    by (simp add: client_onClose_def notify_run)
  have "tccHeap (shut p c s) p = Some (c\<lparr>tcOpen := False\<rparr>)" by (simp add: shut_def)
  from client_callback_run [OF this] assms(3) n have "client_callback p client_onClose (shut p c s) =
      Done () (queued q w (client_msg CClose i (pool_head (rtPool s))) (shut p c s))"
    by simp
  moreover have "on_client p (modify (\<lambda>c. c\<lparr>tcOpen := False\<rparr>)) s = Done () (shut p c s)"
    using assms(1) by (simp add: on_obj_Done shut_def)
  ultimately show ?thesis using assms(1,2) by (simp add: TcpClient_close_def on_client_gets)
qed

text \<open>A connection ends by the script's \<open>close\<close> or by a read that fails (the peer's close is one).\<close>

datatype client_end = ScriptCloses | ReadFails bytes

fun end_connection :: "nat \<Rightarrow> client_end \<Rightarrow> ('z tcpc_scheme, unit) op" where
  "end_connection p ScriptCloses = TcpClient_close p"
| "end_connection p (ReadFails d) = andthen (TcpClient_onMsg p True d) (ret ())"

lemma end_connection_close: "end_connection p e = TcpClient_close p"
proof -
  have "(\<lambda>_. ret ()) = (ret :: unit \<Rightarrow> ('a tcpc_scheme, unit) op)" by (simp add: fun_eq_iff)
  then show ?thesis by (cases e) (simp_all add: TcpClient_onMsg_def bind_assoc)
qed

lemma ends_when_closed:
  "tccHeap s p = Some c \<Longrightarrow> \<not> tcOpen c \<Longrightarrow>
   run_all (end_connection p) es s = Done (replicate (length es) ()) s"
  by (induction es) (simp_all add: end_connection_close close_closed)

text \<open>
  C19: however the end of an open client's connection comes about, by the script, by failing reads
  or by both in any number and order, the service is told \<open>Close\<close> exactly once, and \<open>send\<close> is
  false from then on.
\<close>

theorem tcp_client_closes_once:
  fixes s :: "'z tcpc_scheme"
  assumes "tccHeap s p = Some c" "tcOpen c" "tcFuncs c = Some (i, sid)" "ready_for s sid q w" and "es \<noteq> []"
  shows "\<exists>t. run_all (end_connection p) es s = Done (replicate (length es) ()) t \<and>
    rtHeap t = (rtHeap s)(q \<mapsto> w\<lparr>mMsgs := mMsgs w @ [client_msg CClose i (pool_head (rtPool s))]\<rparr>) \<and>
    (\<forall>wr data. TcpClient_send wr p data t = Done False t)"
proof -
  let ?t = "queued q w (client_msg CClose i (pool_head (rtPool s))) (shut p c s)"
  obtain e es' where es: "es = e # es'" using assms(5) by (cases es) auto
  have h: "tccHeap ?t p = Some (c\<lparr>tcOpen := False\<rparr>)" by (simp add: queued_def shut_def)
  have "run_all (end_connection p) es s = Done (replicate (length es) ()) ?t"
    using ends_when_closed [OF h, of es'] close_open [OF assms(1-4)]
    by (simp add: es end_connection_close)
  moreover have "TcpClient_send wr p data ?t = Done False ?t" for wr data
    using h by (simp add: TcpClient_send_def on_client_gets)
  moreover have "rtHeap ?t = (rtHeap s)(q \<mapsto> w\<lparr>mMsgs := mMsgs w @ [client_msg CClose i (pool_head (rtPool s))]\<rparr>)"
    by (simp add: queued_def shut_def)
  ultimately show ?thesis by blast
qed

text \<open>
  What a connected client receives reaches its service as one message of exactly those bytes
  (up to the read buffer's 4096), an empty read included, and reading goes on.
\<close>

theorem tcp_client_receives:
  fixes s :: "'z tcpc_scheme"
  assumes "tccHeap s p = Some c" "tcFuncs c = Some (i, sid)" "ready_for s sid q w"
  shows "\<exists>m t. TcpClient_onMsg p False data s = Done True t \<and>
    rtHeap t = (rtHeap s)(q \<mapsto> w\<lparr>mMsgs := mMsgs w @ [m]\<rparr>) \<and> msg_ok m \<and>
    msg_table m = \<lparr>lm_msgType = 9, lm_session = uint (to_u32 i), lm_source = 0, lm_data = data,
      lm_error = '''', lm_status = 4, lm_fd = uint (msg_fd (pool_head (rtPool s))), lm_isOk = False\<rparr>"
proof -
  let ?m = "with_data (client_msg CMsg i) data (pool_head (rtPool s))"
  note head = ready_head [OF assms(3)]
  have "client_onMsg data i sid s = Done () (queued q w ?m s)"
    unfolding client_onMsg_def by (rule notify_data [OF assms(3)])
  then have "TcpClient_onMsg p False data s = Done True (queued q w ?m s)"
    using assms(1,2) by (simp add: TcpClient_onMsg_def client_callback_run)
  moreover have "msg_ok ?m" by (rule with_data_ok) (use head(1) in \<open>simp add: msg_ok_def client_msg_def\<close>)
  moreover have "msg_table ?m = \<lparr>lm_msgType = 9, lm_session = uint (to_u32 i), lm_source = 0, lm_data = data,
      lm_error = '''', lm_status = 4, lm_fd = uint (msg_fd (pool_head (rtPool s))), lm_isOk = False\<rparr>"
    unfolding with_data_table using head by (simp add: msg_table_def client_msg_def c_str_def)
  ultimately show ?thesis by (intro exI [of _ ?m] exI [of _ "queued q w ?m s"]) (simp add: queued_def)
qed

section \<open>The properties at a concrete state\<close>

definition client_sample :: tcpc where
  "client_sample = core.extend (core_init (sample False []))
     \<lparr>tccHeap = [1 \<mapsto> \<lparr>tcOpen = True, tcSocket = 1, tcFuncs = Some (1, 1)\<rparr>], tccNext = 2,
      tccClients = [(1, 1)], tccAutoId = 2, tccLock = False, tccWire = []\<rparr>"

lemma client_sample_parts:
  "tccHeap client_sample = [1 \<mapsto> \<lparr>tcOpen = True, tcSocket = 1, tcFuncs = Some (1, 1)\<rparr>]"
  "tccClients client_sample = [(1, 1)]" "\<not> tccLock client_sample" "tccAutoId client_sample = 2"
  by (simp_all add: client_sample_def core.defs)

lemma client_sample_ready:
  "ready_for client_sample 1 1 idle_service"
  by (simp add: ready_for_def client_sample_def core.defs core_init_def runtime.defs sample_def pool_ok_def to_i32_def idle_service_def)

lemma client_sample_tcc: "tcc_ready client_sample"
  by (simp add: tcc_ready_def client_sample_parts)

theorem tcp_client_gone_witness:
  "\<exists>t u. destroyTcpClient (Some 1) client_sample = Done () t \<and>
     run_all (reg_exec TcpClientMgr_newClient TcpClientMgr_getClient TcpClientMgr_destroyClient) [RNew] t = Done [RId 2] u \<and>
     sendTcpClient (\<lambda>s d. Some 1) (Some 1) (Some [65]) u = Done False u"
proof -
  have d: "destroyTcpClient (Some 1) client_sample = Done () (client_sample\<lparr>tccClients := []\<rparr>)"
    by (simp add: destroyTcpClient_def destroyClient_free client_sample_parts to_i32_def)
  obtain u where r: "run_all (reg_exec TcpClientMgr_newClient TcpClientMgr_getClient TcpClientMgr_destroyClient) [RNew]
      (client_sample\<lparr>tccClients := []\<rparr>) = Done [RId 2] u"
    by (simp add: newClient_free client_sample_parts i32_max_def)
  from tcp_client_gone [OF client_sample_tcc _ _ d r] d r show ?thesis
    by (auto simp: client_sample_parts to_i32_def)
qed

theorem tcp_client_closes_once_witness:
  "\<exists>t. run_all (end_connection 1) [ScriptCloses, ReadFails []] client_sample =
      Done (replicate (length [ScriptCloses, ReadFails []]) ()) t \<and>
    rtHeap t = (rtHeap client_sample)(1 \<mapsto>
      idle_service\<lparr>mMsgs := mMsgs idle_service @ [client_msg CClose 1 (pool_head (rtPool client_sample))]\<rparr>) \<and>
    (\<forall>wr data. TcpClient_send wr 1 data t = Done False t)"
  by (rule tcp_client_closes_once [OF _ _ _ client_sample_ready, where c = "\<lparr>tcOpen = True, tcSocket = 1, tcFuncs = Some (1, 1)\<rparr>"])
     (simp_all add: client_sample_parts)

theorem tcp_client_receives_witness:
  "\<exists>m t. TcpClient_onMsg 1 False [1, 2] client_sample = Done True t \<and>
    rtHeap t = (rtHeap client_sample)(1 \<mapsto> idle_service\<lparr>mMsgs := mMsgs idle_service @ [m]\<rparr>) \<and> msg_ok m \<and>
    msg_table m = \<lparr>lm_msgType = 9, lm_session = uint (to_u32 1), lm_source = 0, lm_data = [1, 2],
      lm_error = '''', lm_status = 4, lm_fd = uint (msg_fd (pool_head (rtPool client_sample))), lm_isOk = False\<rparr>"
  by (rule tcp_client_receives [OF _ _ client_sample_ready, where c = "\<lparr>tcOpen = True, tcSocket = 1, tcFuncs = Some (1, 1)\<rparr>"])
     (simp_all add: client_sample_parts)

end
