(* ===== verification/Websocket.thy ===== *)
theory Websocket
  imports Network
begin

text \<open>
  \<open>src/websocket/server\<close>: websocket servers, their manager and the Lua calls.  The ixwebsocket
  library is not part of the repository: a \<open>WebSocket*\<close> is a number, \<open>wsend sock data\<close> is whether
  its \<open>send\<close> succeeded, and its callback with a message is a call of \<open>onServerMsg\<close>, from a thread
  of the connection.  \<open>listenWebsocketServer\<close> sets the three callbacks together; \<open>close\<close> clears
  two of them.
\<close>

section \<open>State\<close>

datatype WebsocketMsgType = WsOpen | WsClose | WsMsg

fun ws_type_code :: "WebsocketMsgType \<Rightarrow> 32 word" where
  "ws_type_code WsOpen = 1"
| "ws_type_code WsClose = 2"
| "ws_type_code WsMsg = 3"

record ws_server =
  wvServer :: bool
  wvAutoId :: "64 word"
  wvSessions :: "(64 word, nat) omap"
  wvReverse :: "(nat, 64 word) omap"
  wvFuncs :: "(int \<times> int) option"
  wvCloseFunc :: "(int \<times> int) option"
  wvLock :: bool

record ws = core +
  wsHeap :: "nat \<Rightarrow> ws_server option"
  wsNext :: nat
  wsServers :: "(int, nat) omap"
  wsAutoId :: int
  wsLock :: bool
  wsWire :: "(nat \<times> bytes) list"
  wsClosing :: "nat list"

interpretation ws_mgr_lock: lock_field wsLock wsLock_update
  by unfold_locales simp_all

interpretation ws_server_lock: lock_field wvLock wvLock_update
  by unfold_locales simp_all

abbreviation on_ws :: "nat \<Rightarrow> (ws_server, 'a) op \<Rightarrow> ('z ws_scheme, 'a) op" where
  "on_ws \<equiv> on_obj wsHeap wsHeap_update"

section \<open>The callbacks: \<open>listenWebsocketServer\<close>\<close>

definition ws_msg :: "WebsocketMsgType \<Rightarrow> int \<Rightarrow> 64 word \<Rightarrow> service_msg \<Rightarrow> service_msg" where
  "ws_msg k i fd m =
     m\<lparr>msg_type := msg_type_code MsgWebsocketServer, msg_status := ws_type_code k,
       msg_session := to_u32 i, msg_fd := ucast fd\<rparr>"

definition ws_onConnect :: "64 word \<Rightarrow> int \<Rightarrow> int \<Rightarrow> ('z ws_scheme, unit) op" where
  "ws_onConnect fd i serviceId = notify (\<lambda>m. ret (ws_msg WsOpen i fd m)) serviceId"

definition ws_onClose :: "64 word \<Rightarrow> int \<Rightarrow> int \<Rightarrow> ('z ws_scheme, unit) op" where
  "ws_onClose fd i serviceId = notify (\<lambda>m. ret (ws_msg WsClose i fd m)) serviceId"

definition ws_onMsg :: "64 word \<Rightarrow> bytes \<Rightarrow> int \<Rightarrow> int \<Rightarrow> ('z ws_scheme, unit) op" where
  "ws_onMsg fd msgData i serviceId =
     notify (\<lambda>m. let m1 = (ws_msg WsMsg i fd m)\<lparr>msg_dataLen := length msgData\<rparr>
                 in fill_buffer (length (msg_data m1) < msg_dataLen m1) msgData m1) serviceId"

definition ws_callback ::
  "(ws_server \<Rightarrow> (int \<times> int) option) \<Rightarrow> nat \<Rightarrow> (int \<Rightarrow> int \<Rightarrow> ('z ws_scheme, unit) op) \<Rightarrow> ('z ws_scheme, unit) op"
where
  "ws_callback g p f =
     bind (on_ws p (gets g)) (\<lambda>c. case c of None \<Rightarrow> ret () | Some (i, serviceId) \<Rightarrow> f i serviceId)"

section \<open>\<open>WebsocketServer\<close>\<close>

definition WebsocketServer_ctor :: ws_server where
  "WebsocketServer_ctor =
     \<lparr>wvServer = False, wvAutoId = 1, wvSessions = [], wvReverse = [], wvFuncs = None, wvCloseFunc = None,
      wvLock = False\<rparr>"

text \<open>The three setters, which \<open>listenWebsocketServer\<close> calls one after the other.\<close>

definition WebsocketServer_setOnFuncs :: "int \<Rightarrow> int \<Rightarrow> (ws_server, unit) op" where
  "WebsocketServer_setOnFuncs i serviceId = modify (\<lambda>v. v\<lparr>wvFuncs := Some (i, serviceId), wvCloseFunc := Some (i, serviceId)\<rparr>)"

text \<open>\<open>listened\<close> is the result of the library's \<open>listen\<close>.\<close>

definition WebsocketServer_listen :: "bool \<Rightarrow> (ws_server, bool) op" where
  "WebsocketServer_listen listened =
     bind (gets wvServer) (\<lambda>b.
       if b then ret False
       else andthen (modify (\<lambda>v. v\<lparr>wvServer := True\<rparr>)) (if \<not> listened then ret False else ret True))"

definition WebsocketServer_send :: "(nat \<Rightarrow> bytes \<Rightarrow> bool) \<Rightarrow> nat \<Rightarrow> 64 word \<Rightarrow> bytes \<Rightarrow> ('z ws_scheme, bool) op" where
  "WebsocketServer_send wsend p fd data =
     andthen (on_ws p (acquire wvLock wvLock_update))
    (bind (on_ws p (gets wvSessions)) (\<lambda>m.
       case om_find m fd of
         None \<Rightarrow> andthen (on_ws p (release wvLock_update)) (ret False)
       | Some sock \<Rightarrow>
           andthen (modify (\<lambda>s. if wsend sock data then s\<lparr>wsWire := wsWire s @ [(sock, data)]\<rparr> else s))
          (andthen (on_ws p (release wvLock_update))
             (if \<not> wsend sock data then ret False else ret True))))"

definition WebsocketServer_close :: "(ws_server, unit) op" where
  "WebsocketServer_close =
     bind (gets wvServer) (\<lambda>b.
       if b then modify (\<lambda>v. v\<lparr>wvFuncs := None, wvServer := False, wvReverse := [], wvSessions := [], wvAutoId := 1\<rparr>)
       else ret ())"

definition WebsocketServer_close_fd :: "nat \<Rightarrow> 64 word \<Rightarrow> ('z ws_scheme, unit) op" where
  "WebsocketServer_close_fd p fd =
     andthen (on_ws p (acquire wvLock wvLock_update))
    (bind (on_ws p (gets wvSessions)) (\<lambda>m.
       case om_find m fd of
         None \<Rightarrow> on_ws p (release wvLock_update)
       | Some sock \<Rightarrow>
           andthen (on_ws p (release wvLock_update))
             (modify (\<lambda>s. s\<lparr>wsClosing := wsClosing s @ [sock]\<rparr>))))"

datatype ws_event = Open nat | Close nat | Message nat bytes | Other

fun onServerMsg :: "nat \<Rightarrow> ws_event \<Rightarrow> ('z ws_scheme, unit) op" where
  "onServerMsg p (Open sock) =
     bind (on_ws p (gets wvAutoId)) (\<lambda>fd.
     andthen (on_ws p (modify (\<lambda>v. v\<lparr>wvAutoId := wvAutoId v + 1\<rparr>)))
    (andthen (on_ws p (acquire wvLock wvLock_update))
    (andthen (on_ws p (modify (\<lambda>v. v\<lparr>wvSessions := om_insert fd sock (wvSessions v),
                                     wvReverse := om_insert sock fd (wvReverse v)\<rparr>)))
    (andthen (on_ws p (release wvLock_update))
       (ws_callback wvFuncs p (ws_onConnect fd))))))"
| "onServerMsg p (Close sock) =
     andthen (on_ws p (acquire wvLock wvLock_update))
    (bind (on_ws p (gets wvReverse)) (\<lambda>m.
       case om_find m sock of
         None \<Rightarrow> on_ws p (release wvLock_update)
       | Some fd \<Rightarrow>
           andthen (ws_callback wvCloseFunc p (ws_onClose fd))
          (andthen (on_ws p (modify (\<lambda>v. v\<lparr>wvSessions := om_erase fd (wvSessions v),
                                           wvReverse := om_erase sock (wvReverse v)\<rparr>)))
             (on_ws p (release wvLock_update)))))"
| "onServerMsg p (Message sock data) =
     andthen (on_ws p (acquire wvLock wvLock_update))
    (bind (on_ws p (gets wvReverse)) (\<lambda>m.
       case om_find m sock of
         None \<Rightarrow> on_ws p (release wvLock_update)
       | Some fd \<Rightarrow>
           andthen (on_ws p (release wvLock_update)) (ws_callback wvFuncs p (ws_onMsg fd data))))"
| "onServerMsg p Other = ret ()"

section \<open>\<open>WebsocketServerMgr\<close>\<close>

definition WebsocketServerMgr_newServer :: "('z ws_scheme, int) op" where
  "WebsocketServerMgr_newServer =
     bind (post_incr wsAutoId wsAutoId_update) (\<lambda>i.
     bind (gets wsNext) (\<lambda>p.
     andthen (modify (\<lambda>s. s\<lparr>wsHeap := (wsHeap s)(p \<mapsto> WebsocketServer_ctor), wsNext := Suc p\<rparr>))
    (andthen (acquire wsLock wsLock_update)
    (andthen (modify (\<lambda>s. s\<lparr>wsServers := om_insert i p (wsServers s)\<rparr>))
    (andthen (release wsLock_update) (ret i))))))"

definition WebsocketServerMgr_getServer :: "int \<Rightarrow> ('z ws_scheme, nat option) op" where
  "WebsocketServerMgr_getServer i =
     andthen (acquire wsLock wsLock_update)
    (bind (gets wsServers) (\<lambda>m.
       case om_find m i of
         None \<Rightarrow> andthen (release wsLock_update) (ret None)
       | Some p \<Rightarrow> andthen (release wsLock_update) (ret (Some p))))"

definition WebsocketServerMgr_destroyServer :: "int \<Rightarrow> ('z ws_scheme, unit) op" where
  "WebsocketServerMgr_destroyServer i =
     andthen (acquire wsLock wsLock_update)
    (bind (gets wsServers) (\<lambda>m.
       case om_find m i of
         None \<Rightarrow> release wsLock_update
       | Some p \<Rightarrow> andthen (modify (\<lambda>s. s\<lparr>wsServers := om_erase i (wsServers s)\<rparr>))
                           (release wsLock_update)))"

section \<open>The Lua calls: \<open>luaWebsocketServer.cpp\<close>\<close>

text \<open>\<open>listened\<close> gets the port (16 bits), the host and the number of connections, with their defaults.\<close>

definition listenWebsocketServer ::
  "(16 word \<Rightarrow> string \<Rightarrow> int \<Rightarrow> bool) \<Rightarrow> int option \<Rightarrow> int option \<Rightarrow> int option \<Rightarrow> string option \<Rightarrow> int option \<Rightarrow>
   ('z ws_scheme, bool) op"
where
  "listenWebsocketServer listened sid a1 a2 a3 a4 =
     bind (luaL_check a1) (\<lambda>i.
     bind (luaL_check a2) (\<lambda>port.
     let host = (case a3 of None \<Rightarrow> ''127.0.0.1'' | Some h \<Rightarrow> c_str h);
         maxConnection = (case a4 of None \<Rightarrow> 0 | Some n \<Rightarrow> to_i32 n);
         maxConnection = (if maxConnection = 0 then 1000 else maxConnection)
     in bind (WebsocketServerMgr_getServer (to_i32 i)) (\<lambda>server.
       case server of
         None \<Rightarrow> ret False
       | Some p \<Rightarrow>
           bind (on_ws p (WebsocketServer_listen (listened (word_of_int port) host maxConnection))) (\<lambda>r.
             if r then
               bind (luaL_check sid) (\<lambda>serviceId.
               andthen (on_ws p (WebsocketServer_setOnFuncs i serviceId))
                 (ret True))
             else ret False))))"

definition destroyWebsocketServer :: "int option \<Rightarrow> ('z ws_scheme, unit) op" where
  "destroyWebsocketServer a1 = bind (luaL_check a1) (\<lambda>i. WebsocketServerMgr_destroyServer (to_i32 i))"

definition sendWebsocketServer ::
  "(nat \<Rightarrow> bytes \<Rightarrow> bool) \<Rightarrow> int option \<Rightarrow> int option \<Rightarrow> bytes option \<Rightarrow> ('z ws_scheme, bool) op"
where
  "sendWebsocketServer wsend a1 a2 a3 =
     bind (luaL_check a1) (\<lambda>i.
     bind (luaL_check a2) (\<lambda>fd.
     bind (luaL_check a3) (\<lambda>data.
     bind (WebsocketServerMgr_getServer (to_i32 i)) (\<lambda>server.
       case server of None \<Rightarrow> ret False | Some p \<Rightarrow> WebsocketServer_send wsend p (word_of_int fd) data))))"

definition closeWebsocketServer :: "int option \<Rightarrow> int option \<Rightarrow> ('z ws_scheme, unit) op" where
  "closeWebsocketServer a1 a2 =
     bind (luaL_check a1) (\<lambda>i.
     bind (luaL_check a2) (\<lambda>fd.
     bind (WebsocketServerMgr_getServer (to_i32 i)) (\<lambda>server.
       case server of None \<Rightarrow> ret () | Some p \<Rightarrow> WebsocketServer_close_fd p (word_of_int fd))))"

end
