(* ===== verification/WsFacts.thy ===== *)
theory WsFacts
  imports Websocket
begin

text \<open>
  What the websocket server's calls and events do: the two maps between descriptors and sockets
  stay inverse to each other, and what a close, a failed \<open>listen\<close> and a locked pool lead to.
\<close>

section \<open>The manager as a registry\<close>

definition ws_ready :: "'z ws_scheme \<Rightarrow> bool" where
  "ws_ready s \<longleftrightarrow> \<not> wsLock s \<and> om_wf (wsServers s) \<and> (\<forall>i \<in> dom (om_find (wsServers s)). i < wsAutoId s)"

lemma wsGet_free [op_spec]:
  "\<not> wsLock s \<Longrightarrow> WebsocketServerMgr_getServer i s = Done (om_find (wsServers s) i) s"
  by (simp add: WebsocketServerMgr_getServer_def split: option.split)

lemma wsNew_free [op_spec]:
  "\<not> wsLock s \<Longrightarrow> wsAutoId s \<noteq> i32_max \<Longrightarrow>
   WebsocketServerMgr_newServer s = Done (wsAutoId s)
     (s\<lparr>wsHeap := (wsHeap s)(wsNext s \<mapsto> WebsocketServer_ctor), wsNext := Suc (wsNext s),
        wsServers := om_insert (wsAutoId s) (wsNext s) (wsServers s), wsAutoId := wsAutoId s + 1\<rparr>)"
  by (simp add: WebsocketServerMgr_newServer_def post_incr_def)

lemma wsDestroy_free [op_spec]:
  "\<not> wsLock s \<Longrightarrow>
   WebsocketServerMgr_destroyServer i s =
     Done () (case om_find (wsServers s) i of None \<Rightarrow> s | Some p \<Rightarrow> s\<lparr>wsServers := om_erase i (wsServers s)\<rparr>)"
  by (simp add: WebsocketServerMgr_destroyServer_def split: option.split)

interpretation ws_registry: id_registry WebsocketServerMgr_newServer WebsocketServerMgr_getServer
    WebsocketServerMgr_destroyServer "\<lambda>s. om_find (wsServers s)" wsAutoId ws_ready
proof unfold_locales
  fix s :: "'z ws_scheme" and i
  assume s: "ws_ready s"
  show "om_find (wsServers s) i \<noteq> None \<Longrightarrow> i < wsAutoId s"
    using s by (auto simp: ws_ready_def)
  show "WebsocketServerMgr_newServer s = Fault SignedOverflow s" if "wsAutoId s = i32_max"
    using that by (simp add: WebsocketServerMgr_newServer_def post_incr_def)
  show "WebsocketServerMgr_getServer i s = Done (om_find (wsServers s) i) s"
    using s by (simp add: ws_ready_def wsGet_free)
  show "\<exists>v t. WebsocketServerMgr_newServer s = Done (wsAutoId s) t \<and> ws_ready t \<and>
      om_find (wsServers t) = (om_find (wsServers s))(wsAutoId s \<mapsto> v) \<and> wsAutoId t = wsAutoId s + 1"
    if "wsAutoId s \<noteq> i32_max"
  proof -
    have w: "om_wf (wsServers s)" and b: "\<forall>i \<in> dom (om_find (wsServers s)). i < wsAutoId s" and l: "\<not> wsLock s"
      using s by (auto simp: ws_ready_def)
    have c: "\<forall>i \<in> dom (om_find (om_insert (wsAutoId s) (wsNext s) (wsServers s))). i < wsAutoId s + 1"
      by (rule om.counter_ins [OF w b]) simp
    show ?thesis
      by (intro exI [of _ "wsNext s"])
         (use that l w c om.counter_fresh [OF b] in \<open>simp add: wsNew_free ws_ready_def om.find_ins_fresh\<close>)
  qed
  show "\<exists>t. WebsocketServerMgr_destroyServer i s = Done () t \<and> ws_ready t \<and>
      om_find (wsServers t) = (om_find (wsServers s))(i := None) \<and> wsAutoId t = wsAutoId s"
  proof (cases "om_find (wsServers s) i")
    case None
    then have "(om_find (wsServers s))(i := None) = om_find (wsServers s)" by auto
    with None s show ?thesis by (simp add: wsDestroy_free ws_ready_def)
  next
    case (Some p)
    with s show ?thesis
      by (auto simp: wsDestroy_free ws_ready_def om.find_era intro: om.counter_era)
  qed
qed

section \<open>Running the calls\<close>

definition put_ws :: "nat \<Rightarrow> ws_server \<Rightarrow> 'z ws_scheme \<Rightarrow> 'z ws_scheme" where
  "put_ws p v s = s\<lparr>wsHeap := (wsHeap s)(p \<mapsto> v)\<rparr>"

lemma put_ws_upd: "wsHeap_update (\<lambda>h. h(p \<mapsto> v)) s = put_ws p v s"
  by (cases s) (simp add: put_ws_def)

lemma put_ws_get [simp]: "wsHeap (put_ws p v s) p = Some v"
  by (simp add: put_ws_def)

lemma put_ws_put [simp]: "put_ws p v (put_ws p w s) = put_ws p v s"
  by (simp add: put_ws_def)

lemma put_ws_same: "wsHeap s p = Some v \<Longrightarrow> put_ws p v s = s"
  by (simp add: put_ws_def map_upd_triv)

lemma put_ws_other [simp]:
  "wsServers (put_ws p v s) = wsServers s" "wsLock (put_ws p v s) = wsLock s" "rtPool (put_ws p v s) = rtPool s"
  "rtHeap (put_ws p v s) = rtHeap s" "ready_for (put_ws p v s) sid q w = ready_for s sid q w"
  by (simp_all add: put_ws_def ready_for_def)

lemma on_ws_run [op_spec]:
  "wsHeap s p = Some v \<Longrightarrow>
   on_ws p m s = (case m v of Done a v' \<Rightarrow> Done a (put_ws p v' s) | Spin v' \<Rightarrow> Spin (put_ws p v' s)
     | Fault e v' \<Rightarrow> Fault e (put_ws p v' s))"
  by (cases "m v") (simp_all add: on_obj_def zoom_def put_ws_upd)

lemma queued_ws [simp]:
  "wsHeap (queued q w m s) = wsHeap s" "wsServers (queued q w m s) = wsServers s" "wsLock (queued q w m s) = wsLock s"
  by (simp_all add: queued_def)

lemma put_ws_queued: "put_ws p v (queued q w m s) = queued q w m (put_ws p v s)"
  by (simp add: put_ws_def queued_def)

lemma ws_callback_run [op_spec]:
  "wsHeap s p = Some v \<Longrightarrow>
   ws_callback g p f s = (case g v of None \<Rightarrow> Done () s | Some (i, sid) \<Rightarrow> f i sid s)"
  by (simp add: ws_callback_def on_ws_run put_ws_same split: option.split)

lemma unlocked_same: "\<not> wvLock v \<Longrightarrow> v\<lparr>wvLock := False\<rparr> = v"
  by simp

lemma unlock_after:
  "\<not> wvLock v \<Longrightarrow>
   v\<lparr>wvAutoId := a, wvSessions := ss, wvReverse := rr, wvLock := False\<rparr> =
   v\<lparr>wvAutoId := a, wvSessions := ss, wvReverse := rr\<rparr>"
  "\<not> wvLock v \<Longrightarrow>
   v\<lparr>wvSessions := ss, wvReverse := rr, wvLock := False\<rparr> = v\<lparr>wvSessions := ss, wvReverse := rr\<rparr>"
  by (cases v; simp)+

definition opened :: "ws_server \<Rightarrow> nat \<Rightarrow> ws_server" where
  "opened v sock = v\<lparr>wvAutoId := wvAutoId v + 1, wvSessions := om_insert (wvAutoId v) sock (wvSessions v),
     wvReverse := om_insert sock (wvAutoId v) (wvReverse v)\<rparr>"

definition closed :: "ws_server \<Rightarrow> 64 word \<Rightarrow> nat \<Rightarrow> ws_server" where
  "closed v fd sock = v\<lparr>wvSessions := om_erase fd (wvSessions v), wvReverse := om_erase sock (wvReverse v)\<rparr>"

lemma open_run [op_spec]:
  assumes "wsHeap s p = Some v" "\<not> wvLock v"
  shows "onServerMsg p (Open sock) s = ws_callback wvFuncs p (ws_onConnect (wvAutoId v)) (put_ws p (opened v sock) s)"
  using assms by (simp add: on_ws_run put_ws_same opened_def unlock_after)

lemma message_run [op_spec]:
  assumes "wsHeap s p = Some v" "\<not> wvLock v"
  shows "onServerMsg p (Message sock data) s =
    (case om_find (wvReverse v) sock of None \<Rightarrow> Done () s | Some fd \<Rightarrow> ws_callback wvFuncs p (ws_onMsg fd data) s)"
  using assms by (simp add: on_ws_run put_ws_same unlocked_same split: option.split)

lemma close_run [op_spec]:
  assumes "wsHeap s p = Some v" "\<not> wvLock v" "wvCloseFunc v = Some (i, sid)" "ready_for s sid q w"
  shows "onServerMsg p (Close sock) s =
    (case om_find (wvReverse v) sock of
       None \<Rightarrow> Done () s
     | Some fd \<Rightarrow> Done () (queued q w (ws_msg WsClose i fd (pool_head (rtPool s))) (put_ws p (closed v fd sock) s)))"
proof (cases "om_find (wvReverse v) sock")
  case None
  with assms show ?thesis by (simp add: on_ws_run put_ws_same unlocked_same)
next
  case (Some fd)
  let ?l = "put_ws p (v\<lparr>wvLock := True\<rparr>) s"
  have n: "ws_callback wvCloseFunc p (ws_onClose fd) ?l = Done () (queued q w (ws_msg WsClose i fd (pool_head (rtPool s))) ?l)"
    using assms(3,4) by (simp add: ws_callback_run) (simp add: ws_onClose_def notify_run)
  with Some assms show ?thesis
    by (simp add: on_ws_run put_ws_queued closed_def unlock_after)
qed

lemma ws_send_run [op_spec]:
  assumes "wsHeap s p = Some v" "\<not> wvLock v"
  shows "WebsocketServer_send wsend p fd data s =
    (case om_find (wvSessions v) fd of
       None \<Rightarrow> Done False s
     | Some sock \<Rightarrow> if wsend sock data then Done True (s\<lparr>wsWire := wsWire s @ [(sock, data)]\<rparr>) else Done False s)"
proof -
  have h: "wsHeap (put_ws p u s\<lparr>wsWire := x\<rparr>) p = Some u" for u x by (simp add: put_ws_def)
  have w: "put_ws p v (put_ws p u s\<lparr>wsWire := x\<rparr>) = s\<lparr>wsWire := x\<rparr>" for u x
    using assms(1) by (simp add: put_ws_def map_upd_triv)
  have "wsWire (put_ws p u s) = wsWire s" for u by (simp add: put_ws_def)
  with assms h w show ?thesis
    by (simp add: WebsocketServer_send_def on_ws_run put_ws_same unlocked_same split: option.split)
qed

section \<open>The two session maps\<close>

definition ws_paired :: "ws_server \<Rightarrow> bool" where
  "ws_paired v \<longleftrightarrow> om_wf (wvSessions v) \<and> om_wf (wvReverse v) \<and>
     (\<forall>fd sock. om_find (wvSessions v) fd = Some sock \<longleftrightarrow> om_find (wvReverse v) sock = Some fd) \<and>
     (\<forall>fd \<in> dom (om_find (wvSessions v)). fd < wvAutoId v)"

text \<open>The sockets that are open after events, and that an \<open>Open\<close> is of a socket that is not open yet.\<close>

fun socks :: "nat set \<Rightarrow> ws_event list \<Rightarrow> nat set" where
  "socks S [] = S"
| "socks S (Open k # es) = socks (insert k S) es"
| "socks S (Close k # es) = socks (S - {k}) es"
| "socks S (Message k d # es) = socks S es"
| "socks S (Other # es) = socks S es"

fun opens :: "nat set \<Rightarrow> ws_event list \<Rightarrow> nat \<Rightarrow> bool" where
  "opens S [] n = True"
| "opens S (Open k # es) n = (k \<notin> S \<and> 0 < n \<and> opens (insert k S) es (n - 1))"
| "opens S (Close k # es) n = opens (S - {k}) es n"
| "opens S (Message k d # es) n = opens S es n"
| "opens S (Other # es) n = opens S es n"

lemma ws_notify_frame:
  "wsHeap (final (ws_onConnect fd i sid s)) = wsHeap s"
  "wsHeap (final (ws_onClose fd i sid s)) = wsHeap s"
  "wsHeap (final (ws_onMsg fd d i sid s)) = wsHeap s"
proof -
  show "wsHeap (final (ws_onConnect fd i sid s)) = wsHeap s"
    using notify_frame [of "\<lambda>m. ret (ws_msg WsOpen i fd m)" sid s] by (auto simp: ws_onConnect_def)
  show "wsHeap (final (ws_onClose fd i sid s)) = wsHeap s"
    using notify_frame [of "\<lambda>m. ret (ws_msg WsClose i fd m)" sid s] by (auto simp: ws_onClose_def)
  show "wsHeap (final (ws_onMsg fd d i sid s)) = wsHeap s"
    using notify_frame [of "\<lambda>m. let m1 = (ws_msg WsMsg i fd m)\<lparr>msg_dataLen := length d\<rparr>
        in fill_buffer (length (msg_data m1) < msg_dataLen m1) d m1" sid s]
    by (auto simp: ws_onMsg_def Let_def final_fill)
qed

lemma ws_callback_frame:
  assumes "wsHeap s p = Some v" and "\<And>i sid. wsHeap (final (f i sid s)) = wsHeap s"
  shows "wsHeap (final (ws_callback g p f s)) = wsHeap s"
  using assms(2) by (simp add: ws_callback_run [OF assms(1)] split: option.split)

lemma paired_unlock [simp]: "ws_paired (v\<lparr>wvLock := b\<rparr>) = ws_paired v"
  by (simp add: ws_paired_def)

lemma next_suc: "(n :: 64 word) \<noteq> - 1 \<Longrightarrow> unat (n + 1) = Suc (unat n)"
  using unatSuc [of n] by (simp add: add.commute eq_neg_iff_add_eq_0)

lemma next_greater: "(n :: 64 word) \<noteq> - 1 \<Longrightarrow> n < n + 1"
  by (simp add: word_less_nat_alt next_suc)

lemma paired_opened:
  assumes v: "ws_paired v" and sock: "om_find (wvReverse v) sock = None" and n: "wvAutoId v \<noteq> - 1"
  shows "ws_paired (opened v sock)"
proof -
  let ?n = "wvAutoId v"
  have w: "om_wf (wvSessions v)" "om_wf (wvReverse v)"
    and b: "\<forall>fd \<in> dom (om_find (wvSessions v)). fd < ?n"
    and bij: "\<And>fd k. om_find (wvSessions v) fd = Some k \<longleftrightarrow> om_find (wvReverse v) k = Some fd"
    using v by (auto simp: ws_paired_def)
  have fresh: "om_find (wvSessions v) ?n = None" by (rule om.counter_fresh [OF b])
  from next_greater [OF n] have "?n < ?n + 1" .
  from om.counter_ins [OF w(1) b this] have "\<forall>fd \<in> dom (om_find (wvSessions (opened v sock))). fd < wvAutoId (opened v sock)"
    by (simp add: opened_def)
  moreover have "om_find (wvSessions (opened v sock)) = (om_find (wvSessions v))(?n \<mapsto> sock)"
    "om_find (wvReverse (opened v sock)) = (om_find (wvReverse v))(sock \<mapsto> ?n)"
    using w fresh sock by (simp_all add: opened_def om.find_ins_fresh)
  moreover have "((om_find (wvSessions v))(?n \<mapsto> sock)) fd = Some k \<longleftrightarrow> ((om_find (wvReverse v))(sock \<mapsto> ?n)) k = Some fd" for fd k
    using bij [of fd k] bij [of ?n k] bij [of fd sock] fresh sock by auto
  ultimately show ?thesis using w by (simp add: ws_paired_def) (simp add: opened_def)
qed

lemma paired_closed:
  assumes v: "ws_paired v" and sock: "om_find (wvReverse v) sock = Some fd"
  shows "ws_paired (closed v fd sock)"
proof -
  have w: "om_wf (wvSessions v)" "om_wf (wvReverse v)"
    and b: "\<forall>fd \<in> dom (om_find (wvSessions v)). fd < wvAutoId v"
    and bij: "\<And>fd k. om_find (wvSessions v) fd = Some k \<longleftrightarrow> om_find (wvReverse v) k = Some fd"
    using v by (auto simp: ws_paired_def)
  have "((om_find (wvSessions v))(fd := None)) e = Some k \<longleftrightarrow> ((om_find (wvReverse v))(sock := None)) k = Some e" for e k
    using bij [of e k] bij [of fd k] bij [of e sock] bij [of fd sock] sock by auto
  then show ?thesis using w b om.counter_era [OF w(1) b]
    by (simp add: ws_paired_def closed_def om.find_era)
qed

lemma ws_event_step:
  fixes s :: "'z ws_scheme"
  assumes s: "wsHeap s p = Some v" and v: "ws_paired v"
    and e: "opens (dom (om_find (wvReverse v))) (e # es) n" and n: "unat (wvAutoId v) + n < 2 ^ 64"
  shows "\<exists>v' n'. wsHeap (final (onServerMsg p e s)) p = Some v' \<and> ws_paired v' \<and>
    (returns (onServerMsg p e s) \<longrightarrow>
       opens (dom (om_find (wvReverse v'))) es n' \<and> unat (wvAutoId v') + n' < 2 ^ 64 \<and>
       dom (om_find (wvReverse v')) = socks (dom (om_find (wvReverse v))) [e])"
proof -
  let ?w = "\<lambda>v'. put_ws p v' s"
  have same: "\<exists>v' n'. wsHeap (final (Done () s)) p = Some v' \<and> ws_paired v' \<and>
      (returns (Done () s) \<longrightarrow> opens (dom (om_find (wvReverse v'))) es n' \<and> unat (wvAutoId v') + n' < 2 ^ 64 \<and>
         dom (om_find (wvReverse v')) = dom (om_find (wvReverse v)))"
    if "opens (dom (om_find (wvReverse v))) es n"
    using s v that n by (intro exI [of _ v] exI [of _ n]) simp
  show ?thesis
  proof (cases e)
    case Other
    with same e show ?thesis by simp
  next
    case (Message k d)
    show ?thesis
    proof (cases "wvLock v")
      case True
      with Message s v show ?thesis by (intro exI [of _ v]) (simp add: on_ws_run put_ws_same)
    next
      case False
      have "wsHeap (final (onServerMsg p e s)) = wsHeap s"
        using ws_callback_frame [OF s, of "\<lambda>i sid. ws_onMsg fd d i sid" wvFuncs for fd] ws_notify_frame(3) [of _ d _ _ s]
        by (simp add: Message message_run [OF s False] del: onServerMsg.simps split: option.split)
      with Message e s v n show ?thesis by (intro exI [of _ v] exI [of _ n]) (simp del: onServerMsg.simps)
    qed
  next
    case (Open k)
    with e have k: "om_find (wvReverse v) k = None" and n0: "0 < n"
      and es: "opens (insert k (dom (om_find (wvReverse v)))) es (n - 1)"
      by auto
    have no: "wvAutoId v \<noteq> - 1"
    proof
      assume "wvAutoId v = - 1"
      then have "unat (wvAutoId v) = 2 ^ 64 - 1" by (simp add: unsigned_minus_1_eq_mask mask_eq_exp_minus_1)
      with n n0 show False by simp
    qed
    from paired_opened [OF v k no] have v': "ws_paired (opened v k)" .
    show ?thesis
    proof (cases "wvLock v")
      case True
      have "ws_paired (v\<lparr>wvAutoId := wvAutoId v + 1\<rparr>)"
      proof -
        from next_greater [OF no] v show ?thesis by (auto simp: ws_paired_def intro: less_trans)
      qed
      with Open s True show ?thesis
        by (intro exI [of _ "v\<lparr>wvAutoId := wvAutoId v + 1\<rparr>"]) (simp add: on_ws_run put_ws_same)
    next
      case False
      have "wsHeap (final (onServerMsg p e s)) = wsHeap (put_ws p (opened v k) s)"
        unfolding Open open_run [OF s False]
        by (rule ws_callback_frame [where v = "opened v k"]) (simp_all add: ws_notify_frame)
      moreover have "dom (om_find (wvReverse (opened v k))) = insert k (dom (om_find (wvReverse v)))"
        using v by (simp add: opened_def om.dom_ins ws_paired_def)
      moreover have "unat (wvAutoId (opened v k)) + (n - 1) < 2 ^ 64"
        using n n0 next_suc [OF no] by (simp add: opened_def)
      ultimately show ?thesis using v' es Open
        by (intro exI [of _ "opened v k"] exI [of _ "n - 1"]) (simp del: onServerMsg.simps)
    qed
  next
    case (Close k)
    with e have es: "opens (dom (om_find (wvReverse v)) - {k}) es n" by simp
    show ?thesis
    proof (cases "wvLock v")
      case True
      with Close s v show ?thesis by (intro exI [of _ v]) (simp add: on_ws_run put_ws_same)
    next
      case False
      show ?thesis
      proof (cases "om_find (wvReverse v) k")
        case None
        then have "dom (om_find (wvReverse v)) - {k} = dom (om_find (wvReverse v))" by auto
        with None Close False s v n es show ?thesis
          by (intro exI [of _ v] exI [of _ n]) (simp add: on_ws_run put_ws_same unlocked_same)
      next
        case (Some fd)
        let ?l = "put_ws p (v\<lparr>wvLock := True\<rparr>) s"
        let ?c = "ws_callback wvCloseFunc p (ws_onClose fd) ?l"
        have h: "wsHeap (final ?c) p = Some (v\<lparr>wvLock := True\<rparr>)"
          using ws_callback_frame [of ?l p "v\<lparr>wvLock := True\<rparr>" "ws_onClose fd" wvCloseFunc] ws_notify_frame(2) [of fd _ _ ?l] by simp
        show ?thesis
        proof (cases ?c)
          case (Done u t)
          then have "wsHeap t p = Some (v\<lparr>wvLock := True\<rparr>)" using h by simp
          then have "onServerMsg p e s = Done () (put_ws p (closed v fd k) t)"
            using Close Some s False Done by (simp add: on_ws_run closed_def unlock_after)
          moreover have "dom (om_find (wvReverse (closed v fd k))) = dom (om_find (wvReverse v)) - {k}"
            using v by (simp add: closed_def om.dom_era ws_paired_def)
          moreover have "wvAutoId (closed v fd k) = wvAutoId v" by (simp add: closed_def)
          ultimately show ?thesis using paired_closed [OF v Some] es n Close
            by (intro exI [of _ "closed v fd k"] exI [of _ n]) (simp del: onServerMsg.simps)
        next
          case (Spin t)
          then have "onServerMsg p e s = Spin t" using Close Some s False by (simp add: on_ws_run)
          with h Spin v show ?thesis by (intro exI [of _ "v\<lparr>wvLock := True\<rparr>"]) (simp del: onServerMsg.simps)
        next
          case (Fault x t)
          then have "onServerMsg p e s = Fault x t" using Close Some s False by (simp add: on_ws_run)
          with h Fault v show ?thesis by (intro exI [of _ "v\<lparr>wvLock := True\<rparr>"]) (simp del: onServerMsg.simps)
        qed
      qed
    qed
  qed
qed

lemma ws_run_events:
  "wsHeap s p = Some v \<Longrightarrow> ws_paired v \<Longrightarrow> opens (dom (om_find (wvReverse v))) es n \<Longrightarrow>
   unat (wvAutoId v) + n < 2 ^ 64 \<Longrightarrow>
   \<exists>v'. wsHeap (final (run_all (onServerMsg p) es s)) p = Some v' \<and> ws_paired v' \<and>
     (returns (run_all (onServerMsg p) es s) \<longrightarrow>
        dom (om_find (wvReverse v')) = socks (dom (om_find (wvReverse v))) es)"
proof (induction es arbitrary: s v n)
  case Nil
  then show ?case by simp
next
  case (Cons e es)
  from ws_event_step [OF Cons.prems] obtain v' n' where
    v': "wsHeap (final (onServerMsg p e s)) p = Some v'" "ws_paired v'"
    and r: "returns (onServerMsg p e s) \<Longrightarrow> opens (dom (om_find (wvReverse v'))) es n' \<and> unat (wvAutoId v') + n' < 2 ^ 64 \<and>
       dom (om_find (wvReverse v')) = socks (dom (om_find (wvReverse v))) [e]"
    by blast
  have so: "socks S (e # es) = socks (socks S [e]) es" for S by (cases e) simp_all
  show ?case
  proof (cases "onServerMsg p e s")
    case (Done u t)
    then have "wsHeap t p = Some v'" "returns (onServerMsg p e s)" using v' by (simp_all del: onServerMsg.simps)
    with r have t: "wsHeap t p = Some v'" "opens (dom (om_find (wvReverse v'))) es n'" "unat (wvAutoId v') + n' < 2 ^ 64"
      "dom (om_find (wvReverse v')) = socks (dom (om_find (wvReverse v))) [e]"
      by blast+
    have "final (run_all (onServerMsg p) (e # es) s) = final (run_all (onServerMsg p) es t)"
      "returns (run_all (onServerMsg p) (e # es) s) = returns (run_all (onServerMsg p) es t)"
      using Done by (simp_all add: bind_def split: outcome.split)
    with Cons.IH [OF t(1) v'(2) t(2,3)] show ?thesis unfolding so t(4) [symmetric] by simp
  next
    case (Spin t)
    with v' show ?thesis by simp
  next
    case (Fault x t)
    with v' show ?thesis by simp
  qed
qed


section \<open>The end of a session\<close>


text \<open>
  With the message pool locked, the end of a session waits for ever inside the close callback
  and keeps the server's mutex: every later \<open>send\<close>, \<open>close\<close> and event of that server waits too.
\<close>

theorem ws_close_wedges:
  fixes s :: "'z ws_scheme"
  assumes h: "wsHeap s p = Some v" and l: "\<not> wvLock v" and c: "wvCloseFunc v = Some (i, sid)"
    and pl: "mPoolLock (rtPool s)" and sock: "om_find (wvReverse v) sock = Some fd"
  shows "\<exists>t. onServerMsg p (Close sock) s = Spin t \<and>
    (\<forall>e wsend d data. e \<noteq> Other \<longrightarrow>
       is_spin (WebsocketServer_send wsend p d data t) \<and> is_spin (WebsocketServer_close_fd p d t) \<and>
       is_spin (onServerMsg p e t))"
proof -
  let ?v = "v\<lparr>wvLock := True\<rparr>"
  let ?t = "put_ws p ?v s"
  have "ws_onClose fd i sid ?t = Spin ?t" using pl by (simp add: ws_onClose_def notify_stuck)
  then have "onServerMsg p (Close sock) s = Spin ?t"
    using h l c sock by (simp add: on_ws_run ws_callback_run)
  moreover have "is_spin (onServerMsg p e ?t)" if "e \<noteq> Other" for e
    using that by (cases e) (simp_all add: on_ws_run)
  ultimately show ?thesis
    by (intro exI [of _ ?t]) (simp add: WebsocketServer_send_def WebsocketServer_close_fd_def on_ws_run)
qed

text \<open>A failed \<open>listen\<close> leaves the server in place: every further \<open>listen\<close> is false.\<close>

lemma ws_listen_wedges:
  "\<not> wvServer v \<Longrightarrow>
   \<exists>v'. WebsocketServer_listen False v = Done False v' \<and> (\<forall>ok. WebsocketServer_listen ok v' = Done False v')"
  by (simp add: WebsocketServer_listen_def)

section \<open>The properties at a concrete state\<close>

definition ws_sample :: "bool \<Rightarrow> ws" where
  "ws_sample b = core.extend (core_init (sample b []))
     \<lparr>wsHeap = [1 \<mapsto> \<lparr>wvServer = True, wvAutoId = 2, wvSessions = [(1, 7)], wvReverse = [(7, 1)],
        wvFuncs = Some (1, 1), wvCloseFunc = Some (1, 1), wvLock = False\<rparr>],
      wsNext = 2, wsServers = [(1, 1)], wsAutoId = 2, wsLock = False, wsWire = [], wsClosing = []\<rparr>"

lemma ws_sample_heap:
  "wsHeap (ws_sample b) 1 = Some \<lparr>wvServer = True, wvAutoId = 2, wvSessions = [(1, 7)], wvReverse = [(7, 1)],
     wvFuncs = Some (1, 1), wvCloseFunc = Some (1, 1), wvLock = False\<rparr>"
  by (simp add: ws_sample_def core.defs)

lemma ws_sample_pool: "mPoolLock (rtPool (ws_sample b)) = b"
  by (simp add: ws_sample_def core.defs core_init_def runtime.defs sample_def)

lemma ws_sample_ready: "ready_for (ws_sample False) 1 1 idle_service"
  by (simp add: ready_for_def ws_sample_def core.defs core_init_def runtime.defs sample_def pool_ok_def to_i32_def idle_service_def)

lemma ws_sample_paired:
  "ws_paired \<lparr>wvServer = True, wvAutoId = 2, wvSessions = [(1, 7)], wvReverse = [(7, 1)],
     wvFuncs = Some (1, 1), wvCloseFunc = Some (1, 1), wvLock = False\<rparr>"
  by (auto simp: ws_paired_def)



theorem ws_close_wedges_witness:
  "\<exists>t. onServerMsg 1 (Close 7) (ws_sample True) = Spin t \<and>
     (\<forall>wsend d data. is_spin (WebsocketServer_send wsend 1 d data t))"
  using ws_close_wedges [OF ws_sample_heap [of True], where sock = 7 and i = 1 and sid = 1 and fd = 1]
  by (fastforce simp: ws_sample_pool simp del: onServerMsg.simps)

end
