(* ===== verification/LuaValue.thy ===== *)
theory LuaValue
  imports Contracts
begin

text \<open>
  Lua values as the C++ code sees them, and its loop over a table, \<open>while (lua_next(L, i))\<close>.  The
  Lua library is not part of the repository; what is stated here is its documented behaviour.  A
  table is the list of its entries in the order \<open>lua_next\<close> visits them; \<open>'f\<close> is the type of the
  floating-point numbers, \<open>fmt\<close> how Lua prints one.
\<close>

section \<open>Values\<close>

datatype 'f lua_val =
    LNil
  | LBool bool
  | LInt int
  | LFloat 'f
  | LStr string
  | LTable "('f lua_val \<times> 'f lua_val) list"
  | LFunction nat
  | LUserdata nat

type_synonym 'f lua_table = "('f lua_val \<times> 'f lua_val) list"

fun lua_istable :: "'f lua_val \<Rightarrow> bool" where
  "lua_istable (LTable t) = True"
| "lua_istable v = False"

fun numeric :: "'f lua_val \<Rightarrow> bool" where
  "numeric (LInt i) = True"
| "numeric (LFloat x) = True"
| "numeric v = False"

text \<open>Decimal digits of an integer, as \<open>%lld\<close> prints it.\<close>

fun nat_digits :: "nat \<Rightarrow> string" where
  "nat_digits n = (if n < 10 then [char_of (48 + n)] else nat_digits (n div 10) @ [char_of (48 + n mod 10)])"

declare nat_digits.simps [simp del]

definition int_digits :: "int \<Rightarrow> string" where
  "int_digits i = (if i < 0 then CHR ''-'' # nat_digits (nat (- i)) else nat_digits (nat i))"

text \<open>\<open>lua_tostring\<close>: a string as it is, a number in its printed form, null for anything else.\<close>

fun lua_tostring :: "('f \<Rightarrow> string) \<Rightarrow> 'f lua_val \<Rightarrow> string option" where
  "lua_tostring fmt (LStr s) = Some s"
| "lua_tostring fmt (LInt i) = Some (int_digits i)"
| "lua_tostring fmt (LFloat x) = Some (fmt x)"
| "lua_tostring fmt v = None"

section \<open>Numbers in texts\<close>

text \<open>What \<open>strtol\<close> and its kin read, base 10: white space, a sign, digits; \<open>None\<close> without a digit.\<close>

definition is_space :: "char \<Rightarrow> bool" where
  "is_space c \<longleftrightarrow> (let n = of_char c :: nat in n = 32 \<or> (9 \<le> n \<and> n \<le> 13))"

definition is_digit :: "char \<Rightarrow> bool" where
  "is_digit c \<longleftrightarrow> (let n = of_char c :: nat in 48 \<le> n \<and> n \<le> 57)"

definition digits_value :: "string \<Rightarrow> int" where
  "digits_value ds = foldl (\<lambda>n c. 10 * n + (int (of_char c) - 48)) 0 ds"

definition read_int :: "string \<Rightarrow> int option" where
  "read_int str =
     (let s = dropWhile is_space str;
          neg = (s \<noteq> [] \<and> hd s = CHR ''-'');
          body = (if s \<noteq> [] \<and> (hd s = CHR ''-'' \<or> hd s = CHR ''+'') then tl s else s);
          ds = takeWhile is_digit body
      in if ds = [] then None else Some (if neg then - digits_value ds else digits_value ds))"

section \<open>Results\<close>

text \<open>
  A conversion ends with a value, raises (a Lua error unwinds the C++ frames), or goes on for
  ever.
\<close>

datatype 'a res = Ok 'a | Raises fault | Loops

fun rbind :: "'a res \<Rightarrow> ('a \<Rightarrow> 'b res) \<Rightarrow> 'b res" where
  "rbind (Ok a) f = f a"
| "rbind (Raises e) f = Raises e"
| "rbind Loops f = Loops"

lemma rbind_cong [fundef_cong]: "m = m' \<Longrightarrow> (\<And>a. m' = Ok a \<Longrightarrow> f a = g a) \<Longrightarrow> rbind m f = rbind m' g"
  by (cases m') simp_all

lemma rbind_Ok: "rbind m f = Ok b \<longleftrightarrow> (\<exists>a. m = Ok a \<and> f a = Ok b)"
  by (cases m) simp_all

text \<open>\<open>luaL_checkstring\<close>, read as a C string.\<close>

definition check_string :: "('f \<Rightarrow> string) \<Rightarrow> 'f lua_val \<Rightarrow> string res" where
  "check_string fmt v = (case lua_tostring fmt v of None \<Rightarrow> Raises LuaError | Some s \<Rightarrow> Ok (c_str s))"

lemma check_string_str [simp]: "check_string fmt (LStr s) = Ok (c_str s)"
  by (simp add: check_string_def)

fun rfold :: "('a \<Rightarrow> 'x \<Rightarrow> 'a res) \<Rightarrow> 'a \<Rightarrow> 'x list \<Rightarrow> 'a res" where
  "rfold f a [] = Ok a"
| "rfold f a (x # xs) = rbind (f a x) (\<lambda>b. rfold f b xs)"

lemma rfold_cong [fundef_cong]:
  "xs = ys \<Longrightarrow> a = b \<Longrightarrow> (\<And>c x. x \<in> set ys \<Longrightarrow> f c x = g c x) \<Longrightarrow> rfold f a xs = rfold g b ys"
proof (induction ys arbitrary: a b xs)
  case (Cons y ys)
  from Cons.prems have "f b y = g b y" by simp
  moreover have "rfold f c ys = rfold g c ys" for c using Cons.IH [OF refl refl] Cons.prems by simp
  ultimately show ?case using Cons.prems by (cases "g b y") simp_all
qed simp

lemma rfold_append: "rfold f a (xs @ ys) = rbind (rfold f a xs) (\<lambda>b. rfold f b ys)"
proof (induction xs arbitrary: a)
  case (Cons x xs)
  then show ?case by (cases "f a x") simp_all
qed simp

text \<open>Such a conversion inside a call that has a state.\<close>

definition lift_res :: "'a res \<Rightarrow> ('s, 'a) op" where
  "lift_res r s = (case r of Ok a \<Rightarrow> Done a s | Raises e \<Rightarrow> Fault e s | Loops \<Rightarrow> Spin s)"

section \<open>Tables\<close>

definition lt_get :: "'f lua_table \<Rightarrow> 'f lua_val \<Rightarrow> 'f lua_val" where
  "lt_get t k = (case map_of t k of None \<Rightarrow> LNil | Some v \<Rightarrow> v)"

text \<open>Assignment: \<open>nil\<close> removes the key, a new key goes to the end.\<close>

fun lt_put :: "'f lua_val \<Rightarrow> 'f lua_val \<Rightarrow> 'f lua_table \<Rightarrow> 'f lua_table" where
  "lt_put k v [] = [(k, v)]"
| "lt_put k v (e # t) = (if fst e = k then (k, v) # t else e # lt_put k v t)"

definition lt_set :: "'f lua_val \<Rightarrow> 'f lua_val \<Rightarrow> 'f lua_table \<Rightarrow> 'f lua_table" where
  "lt_set k v t = (if v = LNil then filter (\<lambda>e. fst e \<noteq> k) t else lt_put k v t)"

abbreviation lua_setfield :: "string \<Rightarrow> 'f lua_val \<Rightarrow> 'f lua_table \<Rightarrow> 'f lua_table" where
  "lua_setfield name \<equiv> lt_set (LStr name)"

abbreviation lua_rawseti :: "int \<Rightarrow> 'f lua_val \<Rightarrow> 'f lua_table \<Rightarrow> 'f lua_table" where
  "lua_rawseti i \<equiv> lt_set (LInt i)"

lemma map_of_put: "map_of (lt_put k v t) = (map_of t)(k \<mapsto> v)"
  by (induction t) (auto simp: fun_eq_iff)

lemma map_of_remove: "map_of (filter (\<lambda>e. fst e \<noteq> k) t) = (map_of t)(k := None)"
  by (induction t) (auto simp: fun_eq_iff)

lemma lt_get_set: "lt_get (lt_set k v t) k' = (if k' = k then v else lt_get t k')"
  by (simp add: lt_get_def lt_set_def map_of_put map_of_remove split: option.split)

lemma lt_get_Nil [simp]: "lt_get [] k = LNil"
  by (simp add: lt_get_def)

lemma put_new: "k \<notin> fst ` set t \<Longrightarrow> lt_put k v t = t @ [(k, v)]"
  by (induction t) auto

lemma lt_set_new: "k \<notin> fst ` set t \<Longrightarrow> v \<noteq> LNil \<Longrightarrow> lt_set k v t = t @ [(k, v)]"
  by (simp add: lt_set_def put_new)

section \<open>Walking a table\<close>

text \<open>
  \<open>lua_next\<close> finds the current key in the table and moves to the entry behind it.  A body that
  calls \<open>lua_tostring\<close> or \<open>luaL_checkstring\<close> on the key turns a number in that stack slot into a
  string, so that the next \<open>lua_next\<close> looks for the string: it raises when the table has no such
  key, and continues behind that other entry when it has one.  \<open>behind\<close> is the position after a
  key; \<open>conv\<close> tells whether the body converts the key of an entry.
\<close>

datatype ending = Finished | InvalidKey | Forever

fun behind :: "'f lua_val \<Rightarrow> 'f lua_table \<Rightarrow> 'f lua_table option" where
  "behind k [] = None"
| "behind k (e # t) = (if fst e = k then Some t else behind k t)"

definition next_rest ::
  "('f \<Rightarrow> string) \<Rightarrow> ('f lua_val \<times> 'f lua_val \<Rightarrow> bool) \<Rightarrow> 'f lua_table \<Rightarrow> 'f lua_val \<times> 'f lua_val \<Rightarrow> 'f lua_table \<Rightarrow>
   'f lua_table option"
where
  "next_rest fmt conv t e rest =
     (if conv e \<and> numeric (fst e) then behind (LStr (the (lua_tostring fmt (fst e)))) t else Some rest)"

fun walk_from ::
  "nat \<Rightarrow> ('f \<Rightarrow> string) \<Rightarrow> ('f lua_val \<times> 'f lua_val \<Rightarrow> bool) \<Rightarrow> 'f lua_table \<Rightarrow> 'f lua_table \<Rightarrow>
   'f lua_table \<times> ending"
where
  "walk_from n fmt conv t [] = ([], Finished)"
| "walk_from 0 fmt conv t (e # rest) = ([], Forever)"
| "walk_from (Suc n) fmt conv t (e # rest) =
     (case next_rest fmt conv t e rest of
        None \<Rightarrow> ([e], InvalidKey)
      | Some r \<Rightarrow> (let (es, x) = walk_from n fmt conv t r in (e # es, x)))"

text \<open>
  As many entries as the table has are enough: a walk that is not over then comes back to an
  entry (lemma \<open>walk_forever\<close>).
\<close>

definition walk ::
  "('f \<Rightarrow> string) \<Rightarrow> ('f lua_val \<times> 'f lua_val \<Rightarrow> bool) \<Rightarrow> 'f lua_table \<Rightarrow> 'f lua_table \<times> ending"
where
  "walk fmt conv t = walk_from (length t) fmt conv t t"

fun end_of :: "ending \<Rightarrow> 'a \<Rightarrow> 'a res" where
  "end_of Finished a = Ok a"
| "end_of InvalidKey a = Raises LuaError"
| "end_of Forever a = Loops"

text \<open>The loop: its body may raise on an entry before the walk comes to its end.\<close>

definition each ::
  "('f \<Rightarrow> string) \<Rightarrow> ('f lua_val \<times> 'f lua_val \<Rightarrow> bool) \<Rightarrow> ('a \<Rightarrow> 'f lua_val \<times> 'f lua_val \<Rightarrow> 'a res) \<Rightarrow> 'a \<Rightarrow>
   'f lua_table \<Rightarrow> 'a res"
where
  "each fmt conv f a t = rbind (rfold f a (fst (walk fmt conv t))) (end_of (snd (walk fmt conv t)))"

lemma behind_set: "behind k t = Some r \<Longrightarrow> set r \<subseteq> set t"
  by (induction t) (auto split: if_splits)

lemma walk_from_set: "set rest \<subseteq> set t \<Longrightarrow> set (fst (walk_from n fmt conv t rest)) \<subseteq> set t"
proof (induction n arbitrary: rest)
  case 0
  then show ?case by (cases rest) simp_all
next
  case (Suc n)
  show ?case
  proof (cases rest)
    case (Cons e r)
    have "set r' \<subseteq> set t" if "next_rest fmt conv t e r = Some r'" for r'
      using that Suc.prems Cons behind_set by (fastforce simp: next_rest_def split: if_splits)
    with Suc Cons show ?thesis by (auto simp: Let_def split: option.split prod.split) (metis fst_conv subsetD)
  qed simp
qed

lemma walk_set: "set (fst (walk fmt conv t)) \<subseteq> set t"
  by (simp add: walk_def walk_from_set)

lemma each_cong [fundef_cong]:
  assumes "t = t'" "a = a'" "conv = conv'" "fmt = fmt'" and "\<And>c e. e \<in> set t' \<Longrightarrow> f c e = g c e"
  shows "each fmt conv f a t = each fmt' conv' g a' t'"
proof -
  have "rfold f a' (fst (walk fmt' conv' t')) = rfold g a' (fst (walk fmt' conv' t'))"
    by (rule rfold_cong) (use assms(5) walk_set in blast)+
  with assms(1-4) show ?thesis by (simp add: each_def)
qed

text \<open>A body that converts no number walks through the entries in their order.\<close>

definition unconverted :: "('f lua_val \<times> 'f lua_val \<Rightarrow> bool) \<Rightarrow> 'f lua_table \<Rightarrow> bool" where
  "unconverted conv t \<longleftrightarrow> (\<forall>e \<in> set t. conv e \<longrightarrow> \<not> numeric (fst e))"

lemma walk_from_plain:
  "unconverted conv rest \<Longrightarrow> length rest \<le> n \<Longrightarrow> walk_from n fmt conv t rest = (rest, Finished)"
proof (induction rest arbitrary: n)
  case (Cons e rest)
  then obtain m where n: "n = Suc m" by (cases n) simp_all
  have "next_rest fmt conv t e rest = Some rest" using Cons.prems(1) by (auto simp: next_rest_def unconverted_def)
  with Cons n show ?case by (simp add: unconverted_def)
qed simp

lemma each_plain: "unconverted conv t \<Longrightarrow> each fmt conv f a t = rfold f a t"
  by (cases "rfold f a t") (simp_all add: each_def walk_def walk_from_plain)

text \<open>A number that is converted and has no entry under its string ends the loop with an error.\<close>

lemma walk_from_number:
  assumes "unconverted conv xs" and "conv e" "numeric (fst e)" and "length xs < n"
    and "LStr (the (lua_tostring fmt (fst e))) \<notin> fst ` set t"
  shows "walk_from n fmt conv t (xs @ e # ys) = (xs @ [e], InvalidKey)"
  using assms
proof (induction xs arbitrary: n)
  case Nil
  have "behind k t = None" if "k \<notin> fst ` set t" for k using that by (induction t) auto
  with Nil show ?case by (cases n) (simp_all add: next_rest_def)
next
  case (Cons x xs)
  then obtain m where n: "n = Suc m" by (cases n) simp_all
  have "next_rest fmt conv t x (xs @ e # ys) = Some (xs @ e # ys)"
    using Cons.prems(1) by (auto simp: next_rest_def unconverted_def)
  with Cons n show ?case by (simp add: unconverted_def)
qed

lemma each_number:
  assumes "unconverted conv xs" and "conv e" "numeric (fst e)"
    and "LStr (the (lua_tostring fmt (fst e))) \<notin> fst ` set (xs @ e # ys)"
  shows "each fmt conv f a (xs @ e # ys) = rbind (rfold f a (xs @ [e])) (\<lambda>_. Raises LuaError)"
proof -
  have "walk fmt conv (xs @ e # ys) = (xs @ [e], InvalidKey)"
    unfolding walk_def by (rule walk_from_number) (use assms in auto)
  then show ?thesis by (cases "rfold f a (xs @ [e])") (simp_all add: each_def)
qed

section \<open>The fuel of a walk is enough\<close>

lemma walk_more:
  "snd (walk_from n fmt conv t r) \<noteq> Forever \<Longrightarrow> n \<le> m \<Longrightarrow> walk_from m fmt conv t r = walk_from n fmt conv t r"
proof (induction n arbitrary: r m)
  case 0
  then show ?case by (cases r) simp_all
next
  case (Suc n)
  from Suc.prems(2) obtain m' where m: "m = Suc m'" "n \<le> m'" by (cases m) auto
  show ?case
  proof (cases r)
    case (Cons e rest)
    show ?thesis
    proof (cases "next_rest fmt conv t e rest")
      case (Some q)
      with Suc.prems(1) Cons have "snd (walk_from n fmt conv t q) \<noteq> Forever" by (simp add: Let_def split: prod.splits)
      from Suc.IH [OF this m(2)] Some Cons m(1) show ?thesis by simp
    qed (simp add: Cons m(1))
  qed simp
qed

lemma behind_drop: "behind k t = Some r \<Longrightarrow> \<exists>i. r = drop i t"
proof (induction t)
  case (Cons e t)
  show ?case
  proof (cases "fst e = k")
    case True
    with Cons.prems show ?thesis by (intro exI [of _ 1]) simp
  next
    case False
    with Cons obtain i where "r = drop i t" by auto
    then show ?thesis by (intro exI [of _ "Suc i"]) simp
  qed
qed simp

text \<open>The number of steps a walk takes to its end.\<close>

definition steps_to_end ::
  "('f \<Rightarrow> string) \<Rightarrow> ('f lua_val \<times> 'f lua_val \<Rightarrow> bool) \<Rightarrow> 'f lua_table \<Rightarrow> 'f lua_table \<Rightarrow> nat"
where
  "steps_to_end fmt conv t r = (LEAST n. snd (walk_from n fmt conv t r) \<noteq> Forever)"

lemma steps_pred:
  assumes "snd (walk_from n fmt conv t (drop i t)) \<noteq> Forever" and "0 < steps_to_end fmt conv t (drop i t)"
  shows "i < length t \<and> (steps_to_end fmt conv t (drop i t) = 1 \<or>
    (\<exists>j m. snd (walk_from m fmt conv t (drop j t)) \<noteq> Forever \<and>
       steps_to_end fmt conv t (drop i t) = Suc (steps_to_end fmt conv t (drop j t))))"
proof -
  let ?W = "\<lambda>n r. snd (walk_from n fmt conv t r) \<noteq> Forever"
  let ?s = "steps_to_end fmt conv t"
  have s0: "?s [] = 0" unfolding steps_to_end_def by (rule Least_equality) simp_all
  with assms(2) have i: "i < length t" by (metis drop_all less_irrefl not_le)
  then obtain e rest where er: "drop i t = e # rest" by (metis Cons_nth_drop_Suc)
  then have rest: "rest = drop (Suc i) t" by (metis drop_Suc list.sel(3) tl_drop)
  have not0: "\<not> ?W 0 (drop i t)" by (simp add: er)
  show ?thesis
  proof (cases "next_rest fmt conv t e rest")
    case None
    then have "?W (Suc 0) (drop i t)" by (simp add: er)
    then have "?s (drop i t) = 1" unfolding steps_to_end_def
      by (intro Least_equality) (use not0 in \<open>auto simp: Suc_le_eq intro: gr0I\<close>)
    with i show ?thesis by simp
  next
    case (Some r)
    have "\<exists>j. r = drop j t"
      using Some behind_drop rest by (auto simp: next_rest_def split: if_splits)
    then obtain j where j: "r = drop j t" by blast
    have S: "?W (Suc m) (drop i t) = ?W m (drop j t)" for m
      by (simp add: er Some j Let_def split: prod.split)
    from assms(1) not0 obtain m where m: "n = Suc m" by (cases n) auto
    with assms(1) S have wm: "?W m (drop j t)" by simp
    have "?s (drop i t) = Suc (?s (drop j t))"
      unfolding steps_to_end_def by (subst Least_Suc [of _ n]) (use assms(1) not0 S in simp_all)
    with wm i show ?thesis by blast
  qed
qed

lemma steps_covered:
  "snd (walk_from n fmt conv t (drop i t)) \<noteq> Forever \<Longrightarrow> steps_to_end fmt conv t (drop i t) = k \<Longrightarrow>
   {1..k} \<subseteq> (\<lambda>i. steps_to_end fmt conv t (drop i t)) ` {..<length t}"
proof (induction k arbitrary: i n)
  case (Suc k)
  from steps_pred [OF Suc.prems(1)] Suc.prems(2) have i: "i < length t"
    and c: "Suc k = 1 \<or> (\<exists>j m. snd (walk_from m fmt conv t (drop j t)) \<noteq> Forever \<and> k = steps_to_end fmt conv t (drop j t))"
    by auto
  have "Suc k \<in> (\<lambda>i. steps_to_end fmt conv t (drop i t)) ` {..<length t}"
    using i Suc.prems(2) by (intro image_eqI [of _ _ i]) simp_all
  moreover have "{1..k} \<subseteq> (\<lambda>i. steps_to_end fmt conv t (drop i t)) ` {..<length t}"
  proof (cases "k = 0")
    case False
    with c obtain j m where j: "snd (walk_from m fmt conv t (drop j t)) \<noteq> Forever"
      "steps_to_end fmt conv t (drop j t) = k" by auto
    from Suc.IH [OF j] show ?thesis .
  qed simp
  moreover have "{1..Suc k} = insert (Suc k) {1..k}" by auto
  ultimately show ?case by simp
qed simp

lemma walk_forever:
  assumes "snd (walk fmt conv t) = Forever"
  shows "snd (walk_from n fmt conv t t) = Forever"
proof (rule ccontr)
  assume n: "snd (walk_from n fmt conv t t) \<noteq> Forever"
  let ?k = "steps_to_end fmt conv t t"
  from n have "card {1..?k} \<le> card ((\<lambda>i. steps_to_end fmt conv t (drop i t)) ` {..<length t})"
    using steps_covered [of n fmt conv t 0 ?k] by (intro card_mono) auto
  also have "\<dots> \<le> length t" using card_image_le [of "{..<length t}"] by simp
  finally have "?k \<le> length t" by simp
  moreover have "snd (walk_from ?k fmt conv t t) \<noteq> Forever"
    unfolding steps_to_end_def using n by (rule LeastI)
  ultimately have "snd (walk_from (length t) fmt conv t t) \<noteq> Forever" using walk_more by metis
  with assms show False by (simp add: walk_def)
qed

section \<open>What a loop keeps\<close>

lemma rfold_inv:
  assumes "rfold f a xs = Ok b" and "P a" and "\<And>c x d. x \<in> set xs \<Longrightarrow> P c \<Longrightarrow> f c x = Ok d \<Longrightarrow> P d"
  shows "P b"
  using assms
proof (induction xs arbitrary: a)
  case (Cons x xs)
  then obtain c where c: "f a x = Ok c" "rfold f c xs = Ok b" by (auto simp: rbind_Ok)
  moreover have "P c" using Cons.prems(3) [of x a c] Cons.prems(2) c(1) by simp
  ultimately show ?case using Cons.IH [of c] Cons.prems(3) by (meson list.set_intros(2))
qed simp

lemma each_Ok: "each fmt conv f a t = Ok b \<Longrightarrow> rfold f a (fst (walk fmt conv t)) = Ok b"
  by (cases "snd (walk fmt conv t)") (auto simp: each_def rbind_Ok)

lemma each_inv:
  assumes "each fmt conv f a t = Ok b" and "P a" and "\<And>c x d. x \<in> set t \<Longrightarrow> P c \<Longrightarrow> f c x = Ok d \<Longrightarrow> P d"
  shows "P b"
  using each_Ok [OF assms(1)] assms(2) by (rule rfold_inv) (use assms(3) walk_set in blast)

lemma rfold_stuck: "x \<in> set xs \<Longrightarrow> (\<And>c d. f c x \<noteq> Ok d) \<Longrightarrow> rfold f a xs \<noteq> Ok b"
  by (induction xs arbitrary: a) (auto simp: rbind_Ok)

section \<open>Tables with strings for keys\<close>

definition str_keys :: "'f lua_table \<Rightarrow> bool" where
  "str_keys t \<longleftrightarrow> distinct (map fst t) \<and> (\<forall>e \<in> set t. \<exists>s. fst e = LStr s \<and> c_str s = s)"

lemma str_keys_unconverted: "str_keys t \<Longrightarrow> unconverted conv t"
  by (force simp: str_keys_def unconverted_def)

lemma c_str_idem [simp]: "c_str (c_str s) = c_str s"
  by (simp add: c_str_def takeWhile_idem)

fun lua_index :: "'f lua_val \<Rightarrow> 'f lua_val \<Rightarrow> 'f lua_val" where
  "lua_index (LTable t) k = lt_get t k"
| "lua_index v k = LNil"

section \<open>Sizes, for recursion through tables\<close>

lemma entry_smaller [termination_simp]: "e \<in> set t \<Longrightarrow> size (snd e) < Suc (size_list (size_prod size size) t)"
  by (induction t) (auto simp: less_Suc_eq_le)

definition table_size :: "'f lua_val \<Rightarrow> nat" where
  "table_size v = (if lua_istable v then size v else 0)"

lemma lt_get_smaller: "table_size (lt_get t k) < table_size (LTable t)"
proof (cases "map_of t k")
  case (Some v)
  with entry_smaller [OF map_of_SomeD [OF Some]] show ?thesis by (simp add: lt_get_def table_size_def)
qed (simp add: lt_get_def table_size_def)

end
