(* ===== verification/HttpClient.thy ===== *)
theory HttpClient
  imports Network LuaValue
begin

text \<open>
  \<open>src/http/client\<close>: the pool of HTTP clients and the Lua calls \<open>get\<close> and \<open>post\<close>.  ixwebsocket is
  not part of the repository: \<open>perform rq\<close> is whether \<open>performRequest\<close> took the request, whose
  answer is then an event, \<open>http_answer\<close>, from a thread of the client; a set of headers or of form
  fields is the list of the insertions, in order; \<open>serialize\<close> makes a form's body.
\<close>

section \<open>State\<close>

datatype http_verb = HttpGet | HttpPost

text \<open>A request under way: its verb and the three numbers its callback captured.\<close>

record http_request =
  hrVerb :: http_verb
  hrSession :: int
  hrService :: int
  hrClient :: int

record http = core +
  hcFree :: "int list"
  hcClients :: "(int, nat) omap"
  hcNext :: nat
  hcAutoId :: int
  hcLock :: bool
  hcPending :: "http_request list"

interpretation http_lock: lock_field hcLock hcLock_update
  by unfold_locales simp_all

section \<open>\<open>HttpClientMgr\<close>\<close>

definition HttpClientMgr_newClient :: "('z http_scheme, int) op" where
  "HttpClientMgr_newClient =
     andthen (acquire hcLock hcLock_update)
    (bind (gets hcFree) (\<lambda>free.
       case free of
         [] \<Rightarrow>
           bind (post_incr hcAutoId hcAutoId_update) (\<lambda>i.
           andthen (modify (\<lambda>s. s\<lparr>hcClients := om_insert i (hcNext s) (hcClients s), hcNext := Suc (hcNext s)\<rparr>))
          (andthen (release hcLock_update) (ret i)))
       | i # rest \<Rightarrow>
           andthen (modify (\<lambda>s. s\<lparr>hcFree := rest\<rparr>))
          (andthen (release hcLock_update) (ret i))))"

definition HttpClientMgr_getClient :: "int \<Rightarrow> ('z http_scheme, nat option) op" where
  "HttpClientMgr_getClient i =
     andthen (acquire hcLock hcLock_update)
    (bind (gets hcClients) (\<lambda>m.
       case om_find m i of
         None \<Rightarrow> andthen (release hcLock_update) (ret None)
       | Some client \<Rightarrow> andthen (release hcLock_update) (ret (Some client))))"

definition HttpClientMgr_destroyClient :: "int \<Rightarrow> ('z http_scheme, unit) op" where
  "HttpClientMgr_destroyClient i =
     andthen (acquire hcLock hcLock_update)
    (bind (gets hcClients) (\<lambda>m.
       case om_find m i of
         None \<Rightarrow> release hcLock_update
       | Some client \<Rightarrow>
           andthen (modify (\<lambda>s. s\<lparr>hcFree := hcFree s @ [i]\<rparr>)) (release hcLock_update)))"

section \<open>Requests\<close>

record request_args =
  rqVerb :: http_verb
  rqUrl :: string
  rqHeaders :: "(string \<times> string) list"
  rqBody :: string

definition read_header ::
  "('f \<Rightarrow> string) \<Rightarrow> (string \<times> string) list \<Rightarrow> 'f lua_val \<times> 'f lua_val \<Rightarrow> (string \<times> string) list res"
where
  "read_header fmt hs e =
     rbind (check_string fmt (fst e)) (\<lambda>k.
     rbind (check_string fmt (snd e)) (\<lambda>v. Ok (hs @ [(k, v)])))"

text \<open>Headers that are no table are walked all the same.\<close>

definition read_arg ::
  "('f \<Rightarrow> string) \<Rightarrow> request_args \<Rightarrow> 'f lua_val \<times> 'f lua_val \<Rightarrow> request_args res"
where
  "read_arg fmt rq e =
     rbind (check_string fmt (fst e)) (\<lambda>key.
       if key = ''headers'' then
         (case snd e of
            LTable t \<Rightarrow>
              rbind (each fmt (\<lambda>_. True) (read_header fmt) (rqHeaders rq) t) (\<lambda>hs. Ok (rq\<lparr>rqHeaders := hs\<rparr>))
          | _ \<Rightarrow> Raises TypeConfusion)
       else if key = ''url'' then rbind (check_string fmt (snd e)) (\<lambda>u. Ok (rq\<lparr>rqUrl := u\<rparr>))
       else Ok rq)"

definition packRequestArgs :: "('f \<Rightarrow> string) \<Rightarrow> request_args \<Rightarrow> 'f lua_table \<Rightarrow> request_args res" where
  "packRequestArgs fmt rq t = each fmt (\<lambda>_. True) (read_arg fmt) rq t"

text \<open>\<open>performRequest\<close>: what becomes of a request that was built.\<close>

definition perform_request ::
  "(request_args \<Rightarrow> bool) \<Rightarrow> int option \<Rightarrow> int \<Rightarrow> int \<Rightarrow> request_args \<Rightarrow> ('z http_scheme, bool) op"
where
  "perform_request perform sid sessionId clientId rq =
     (if rqUrl rq = [] then ret False
      else
        bind (luaL_check sid) (\<lambda>serviceId.
          if perform rq then
            andthen (modify (\<lambda>s. s\<lparr>hcPending := hcPending s @
                [\<lparr>hrVerb = rqVerb rq, hrSession = sessionId, hrService = serviceId, hrClient = clientId\<rparr>]\<rparr>))
              (ret True)
          else andthen (HttpClientMgr_destroyClient clientId) (ret False)))"

text \<open>\<open>sessionId\<close> is \<open>lua_tointeger\<close> of the first argument.\<close>

definition httpGet ::
  "('f \<Rightarrow> string) \<Rightarrow> (request_args \<Rightarrow> bool) \<Rightarrow> int option \<Rightarrow> int \<Rightarrow> 'f lua_val \<Rightarrow> ('z http_scheme, bool) op"
where
  "httpGet fmt perform sid sessionId a2 =
     (case a2 of
        LTable t \<Rightarrow>
          bind HttpClientMgr_newClient (\<lambda>clientId.
          bind (HttpClientMgr_getClient clientId) (\<lambda>client.
            case client of
              None \<Rightarrow> raise NullPointer
            | Some c \<Rightarrow>
                bind (lift_res (packRequestArgs fmt
                  \<lparr>rqVerb = HttpGet, rqUrl = [], rqHeaders = [], rqBody = []\<rparr> t)) (\<lambda>rq.
                  perform_request perform sid sessionId clientId rq)))
      | _ \<Rightarrow> ret False)"

definition httpPost ::
  "('f \<Rightarrow> string) \<Rightarrow> (request_args \<Rightarrow> bool) \<Rightarrow> ((string \<times> string) list \<Rightarrow> string) \<Rightarrow> int option \<Rightarrow> int \<Rightarrow>
   'f lua_val \<Rightarrow> 'f lua_val \<Rightarrow> ('z http_scheme, bool) op"
where
  "httpPost fmt perform serialize sid sessionId a2 a3 =
     (case (a2, a3) of
        (LTable u, LTable t) \<Rightarrow>
          bind HttpClientMgr_newClient (\<lambda>clientId.
          bind (HttpClientMgr_getClient clientId) (\<lambda>client.
            case client of
              None \<Rightarrow> raise NullPointer
            | Some c \<Rightarrow>
                bind (lift_res (each fmt (\<lambda>_. True) (read_header fmt) [] u)) (\<lambda>form.
                bind (lift_res (packRequestArgs fmt
                  \<lparr>rqVerb = HttpPost, rqUrl = [], rqHeaders = [], rqBody = serialize form\<rparr> t)) (\<lambda>rq.
                  perform_request perform sid sessionId clientId rq))))
      | _ \<Rightarrow> ret False)"

section \<open>Answers\<close>

definition http_msg :: "int \<Rightarrow> int \<Rightarrow> service_msg \<Rightarrow> service_msg" where
  "http_msg sessionId status m =
     m\<lparr>msg_type := msg_type_code MsgHttpClient, msg_session := to_u32 sessionId, msg_status := to_u32 status\<rparr>"

text \<open>The message of an answer to \<open>get\<close>, and of one to \<open>post\<close>, which never sets \<open>dataLen\<close>.\<close>

definition fill_get :: "int \<Rightarrow> int \<Rightarrow> bytes \<Rightarrow> string \<Rightarrow> service_msg \<Rightarrow> ('s, service_msg) op" where
  "fill_get sessionId status body err m =
     (let m1 = (http_msg sessionId status m)\<lparr>msg_dataLen := length body\<rparr>
      in bind (fill_buffer (length (msg_data m1) < msg_dataLen m1 + 1) body m1) (\<lambda>m2.
           ret (m2\<lparr>msg_error := err\<rparr>)))"

definition fill_post :: "int \<Rightarrow> int \<Rightarrow> bytes \<Rightarrow> string \<Rightarrow> service_msg \<Rightarrow> ('s, service_msg) op" where
  "fill_post sessionId status body err m =
     (let m1 = http_msg sessionId status m
      in bind (if body \<noteq> [] then fill_buffer (length (msg_data m1) < length body + 1) body m1 else ret m1) (\<lambda>m2.
           ret (m2\<lparr>msg_error := err\<rparr>)))"

definition http_callback :: "http_request \<Rightarrow> int \<Rightarrow> bytes \<Rightarrow> string \<Rightarrow> ('z http_scheme, unit) op" where
  "http_callback r status body err =
     andthen (notify (case hrVerb r of
                        HttpGet \<Rightarrow> fill_get (hrSession r) status body err
                      | HttpPost \<Rightarrow> fill_post (hrSession r) status body err) (hrService r))
       (HttpClientMgr_destroyClient (hrClient r))"

text \<open>The answer to the \<open>n\<close>-th request under way.\<close>

definition http_answer :: "nat \<Rightarrow> int \<Rightarrow> bytes \<Rightarrow> string \<Rightarrow> ('z http_scheme, unit) op" where
  "http_answer n status body err =
     bind (gets hcPending) (\<lambda>q.
       if n < length q then
         andthen (modify (\<lambda>s. s\<lparr>hcPending := take n q @ drop (Suc n) q\<rparr>)) (http_callback (q ! n) status body err)
       else ret ())"

section \<open>No client is shared\<close>

definition http_ok :: "'z http_scheme \<Rightarrow> bool" where
  "http_ok s \<longleftrightarrow> om_wf (hcClients s) \<and> (\<forall>i \<in> dom (om_find (hcClients s)). i < hcAutoId s) \<and>
     distinct (hcFree s @ map hrClient (hcPending s)) \<and>
     set (hcFree s @ map hrClient (hcPending s)) \<subseteq> dom (om_find (hcClients s))"

text \<open>What one thread holds while it works: a client that is neither free nor in a request.\<close>

definition http_holds :: "int \<Rightarrow> 'z http_scheme \<Rightarrow> bool" where
  "http_holds i s \<longleftrightarrow> http_ok s \<and> i \<in> dom (om_find (hcClients s)) \<and> i \<notin> set (hcFree s @ map hrClient (hcPending s))"

lemma http_ok_lock [simp]: "http_ok (s\<lparr>hcLock := b\<rparr>) = http_ok s" "http_holds i (s\<lparr>hcLock := b\<rparr>) = http_holds i s"
  by (simp_all add: http_ok_def http_holds_def)

lemma http_ok_runtime [simp]:
  "http_ok (s\<lparr>rtPool := pl, rtHeap := h\<rparr>) = http_ok s" "http_holds i (s\<lparr>rtPool := pl, rtHeap := h\<rparr>) = http_holds i s"
  by (simp_all add: http_ok_def http_holds_def)

lemma newClient_holds:
  fixes s :: "'z http_scheme"
  assumes s: "http_ok s"
  shows "case HttpClientMgr_newClient s of
      Done i t \<Rightarrow> http_holds i t | Spin t \<Rightarrow> http_ok t | Fault e t \<Rightarrow> http_ok t"
proof (cases "hcLock s")
  case True
  with s show ?thesis by (simp add: HttpClientMgr_newClient_def)
next
  case l: False
  have w: "om_wf (hcClients s)" and b: "\<forall>i \<in> dom (om_find (hcClients s)). i < hcAutoId s" using s by (auto simp: http_ok_def)
  show ?thesis
  proof (cases "hcFree s")
    case Nil
    show ?thesis
    proof (cases "hcAutoId s = i32_max")
      case True
      with l Nil s show ?thesis by (simp add: HttpClientMgr_newClient_def post_incr_def)
    next
      case False
      let ?i = "hcAutoId s" and ?c = "om_insert (hcAutoId s) (hcNext s) (hcClients s)"
      have d: "dom (om_find ?c) = insert ?i (dom (om_find (hcClients s)))" by (rule om.dom_ins [OF w])
      have "\<forall>i \<in> dom (om_find ?c). i < ?i + 1" by (rule om.counter_ins [OF w b]) simp
      moreover have "?i \<notin> dom (om_find (hcClients s))" using om.counter_fresh [OF b] by auto
      ultimately have "http_holds ?i (s\<lparr>hcLock := False, hcAutoId := ?i + 1, hcClients := ?c, hcNext := Suc (hcNext s)\<rparr>)"
        using s w d Nil by (auto simp: http_ok_def http_holds_def)
      with l Nil False show ?thesis by (simp add: HttpClientMgr_newClient_def post_incr_def) (simp add: http_holds_def http_ok_def)
    qed
  next
    case (Cons i rest)
    with l s show ?thesis by (auto simp: HttpClientMgr_newClient_def http_ok_def http_holds_def)
  qed
qed

lemma destroyClient_frame:
  "\<not> hcLock s \<Longrightarrow> HttpClientMgr_destroyClient i s = Done ()
     (case om_find (hcClients s) i of None \<Rightarrow> s | Some c \<Rightarrow> s\<lparr>hcFree := hcFree s @ [i]\<rparr>)"
  by (simp add: HttpClientMgr_destroyClient_def split: option.split)

lemma destroyClient_ok:
  assumes "http_holds i s"
  shows "http_ok (final (HttpClientMgr_destroyClient i s))"
proof (cases "hcLock s")
  case True
  with assms show ?thesis by (simp add: HttpClientMgr_destroyClient_def http_holds_def)
next
  case False
  obtain c where c: "om_find (hcClients s) i = Some c" using assms by (auto simp: http_holds_def)
  have "http_ok (s\<lparr>hcFree := hcFree s @ [i]\<rparr>)" using assms by (simp add: http_holds_def http_ok_def)
  with destroyClient_frame [OF False, of i] c show ?thesis by simp
qed

lemma getClient_frame:
  "HttpClientMgr_getClient j s = (if hcLock s then Spin s else Done (om_find (hcClients s) j) s)"
  by (simp add: HttpClientMgr_getClient_def split: option.split)

lemma getClient_holds:
  assumes "http_holds i s"
  shows "case HttpClientMgr_getClient j s of
      Done c t \<Rightarrow> http_holds i t | Spin t \<Rightarrow> http_ok t | Fault e t \<Rightarrow> http_ok t"
  using assms by (simp add: getClient_frame http_holds_def)

lemma perform_ok:
  fixes s :: "'z http_scheme"
  assumes "http_holds i s"
  shows "http_ok (final (perform_request perform sid session i rq s))"
proof -
  have ok: "http_ok s" using assms by (simp add: http_holds_def)
  show ?thesis
  proof (cases "rqUrl rq = [] \<or> sid = None")
    case True
    with ok show ?thesis by (auto simp: perform_request_def)
  next
    case False
    then obtain serviceId where sid: "sid = Some serviceId" by auto
    show ?thesis
    proof (cases "perform rq")
      case True
      with False sid assms show ?thesis by (auto simp: perform_request_def http_holds_def http_ok_def)
    next
      case no: False
      have "final (bind (HttpClientMgr_destroyClient i) (\<lambda>_. ret False) s) = final (HttpClientMgr_destroyClient i s)"
        by (simp add: bind_def split: outcome.split)
      with no False sid destroyClient_ok [OF assms] show ?thesis by (simp add: perform_request_def)
    qed
  qed
qed

lemma with_client_ok:
  fixes s :: "'z http_scheme" and f :: "int \<Rightarrow> ('z http_scheme, 'a) op"
  assumes s: "http_ok s" and f: "\<And>i t. http_holds i t \<Longrightarrow> http_ok (final (f i t))"
  shows "http_ok (final (bind HttpClientMgr_newClient (\<lambda>i. bind (HttpClientMgr_getClient i) (\<lambda>client.
    case client of None \<Rightarrow> raise NullPointer | Some c \<Rightarrow> f i)) s))"
proof (cases "HttpClientMgr_newClient s")
  case (Done i t)
  with newClient_holds [OF s] have t: "http_holds i t" by simp
  note g = getClient_holds [OF t, of i]
  show ?thesis
  proof (cases "HttpClientMgr_getClient i t")
    case (Done c u)
    with g have u: "http_holds i u" by simp
    then have "http_ok u" by (simp add: http_holds_def)
    with f [OF u] Done \<open>HttpClientMgr_newClient s = Done i t\<close> show ?thesis by (cases c) simp_all
  qed (use g \<open>HttpClientMgr_newClient s = Done i t\<close> in simp_all)
qed (use newClient_holds [OF s] in simp_all)

lemma lift_ok:
  assumes "http_holds i t" and "\<And>a. http_ok (final (f a t))"
  shows "http_ok (final (bind (lift_res r) f t))"
  using assms by (cases r) (simp_all add: lift_res_def bind_def http_holds_def)

lemma httpGet_ok: "http_ok s \<Longrightarrow> http_ok (final (httpGet fmt perform sid session a2 s))"
  by (cases a2) (auto simp: httpGet_def intro!: with_client_ok lift_ok perform_ok)

lemma httpPost_ok:
  fixes s :: "'z http_scheme"
  assumes "http_ok s"
  shows "http_ok (final (httpPost fmt perform serialize sid session a2 a3 s))"
proof (cases "\<exists>u t. a2 = LTable u \<and> a3 = LTable t")
  case True
  then obtain u t where "a2 = LTable u" "a3 = LTable t" by blast
  with assms show ?thesis by (auto simp: httpPost_def intro!: with_client_ok lift_ok perform_ok)
next
  case False
  then have "httpPost fmt perform serialize sid session a2 a3 s = Done False s"
    by (auto simp: httpPost_def split: lua_val.split)
  with assms show ?thesis by simp
qed

lemma final_fills: "final (fill_get a b c d m s) = s" "final (fill_post a b c d m s) = s"
  by (simp_all add: fill_get_def fill_post_def Let_def bind_def fill_buffer_def memcpy_def)

lemma http_answer_ok:
  fixes s :: "'z http_scheme"
  assumes s: "http_ok s"
  shows "http_ok (final (http_answer n status body err s))"
proof (cases "n < length (hcPending s)")
  case False
  with s show ?thesis by (simp add: http_answer_def)
next
  case True
  let ?q = "hcPending s"
  let ?r = "?q ! n" and ?t = "s\<lparr>hcPending := take n ?q @ drop (Suc n) ?q\<rparr>"
  have q: "?q = take n ?q @ ?r # drop (Suc n) ?q" using True by (rule id_take_nth_drop)
  then have m: "map hrClient ?q = map hrClient (take n ?q) @ hrClient ?r # map hrClient (drop (Suc n) ?q)"
    by (metis list.simps(9) map_append)
  have t: "http_holds (hrClient ?r) ?t"
    using s unfolding http_ok_def http_holds_def m by auto
  have "\<exists>pl h. final (notify (case hrVerb ?r of HttpGet \<Rightarrow> fill_get (hrSession ?r) status body err
      | HttpPost \<Rightarrow> fill_post (hrSession ?r) status body err) (hrService ?r) ?t) = ?t\<lparr>rtPool := pl, rtHeap := h\<rparr>"
    by (rule notify_frame) (simp add: final_fills split: http_verb.split)
  then obtain pl h where f: "final (notify (case hrVerb ?r of HttpGet \<Rightarrow> fill_get (hrSession ?r) status body err
      | HttpPost \<Rightarrow> fill_post (hrSession ?r) status body err) (hrService ?r) ?t) = ?t\<lparr>rtPool := pl, rtHeap := h\<rparr>"
    by blast
  have h: "http_holds (hrClient ?r) (?t\<lparr>rtPool := pl, rtHeap := h\<rparr>)" using t by (simp only: http_ok_runtime)
  then have ok: "http_ok (?t\<lparr>rtPool := pl, rtHeap := h\<rparr>)" by (simp only: http_holds_def)
  show ?thesis
  proof (cases "notify (case hrVerb ?r of HttpGet \<Rightarrow> fill_get (hrSession ?r) status body err
      | HttpPost \<Rightarrow> fill_post (hrSession ?r) status body err) (hrService ?r) ?t")
    case (Done x u)
    with f have u: "u = ?t\<lparr>rtPool := pl, rtHeap := h\<rparr>" by simp
    from destroyClient_ok [OF h] Done True show ?thesis by (simp add: http_answer_def http_callback_def u)
  next
    case (Spin u)
    with f ok True show ?thesis by (simp add: http_answer_def http_callback_def)
  next
    case (Fault e u)
    with f ok True show ?thesis by (simp add: http_answer_def http_callback_def)
  qed
qed

text \<open>What can happen to the clients; the flag is whether the library takes the request.\<close>

datatype 'f http_event =
    EvGet "int option" int "'f lua_val" bool
  | EvPost "int option" int "'f lua_val" "'f lua_val" bool
  | EvAnswer nat int bytes string

fun http_handle ::
  "('f \<Rightarrow> string) \<Rightarrow> ((string \<times> string) list \<Rightarrow> string) \<Rightarrow> 'f http_event \<Rightarrow> ('z http_scheme, bool) op"
where
  "http_handle fmt serialize (EvGet sid session a2 b) = httpGet fmt (\<lambda>_. b) sid session a2"
| "http_handle fmt serialize (EvPost sid session a2 a3 b) = httpPost fmt (\<lambda>_. b) serialize sid session a2 a3"
| "http_handle fmt serialize (EvAnswer n status body err) = andthen (http_answer n status body err) (ret True)"

lemma http_handle_ok: "http_ok s \<Longrightarrow> http_ok (final (http_handle fmt serialize e s))"
proof (cases e)
  case (EvAnswer n status body err)
  have "final (bind (http_answer n status body err) (\<lambda>_. ret True) s) = final (http_answer n status body err s)"
    by (simp add: bind_def split: outcome.split)
  with EvAnswer show "http_ok s \<Longrightarrow> ?thesis" by (simp add: http_answer_ok)
qed (simp_all add: httpGet_ok httpPost_ok)

text \<open>
  C22: whatever requests scripts make and whatever answers come back, and wherever it stops, no two
  requests under way share a client, no client of a request is in the queue of free ones, no client
  is in that queue twice, and all of them are registered.
\<close>

theorem http_clients_not_shared:
  fixes s :: "'z http_scheme"
  assumes "http_ok s"
  shows "let t = final (run_all (http_handle fmt serialize) es s) in
    distinct (map hrClient (hcPending t)) \<and> distinct (hcFree t) \<and>
    set (map hrClient (hcPending t)) \<inter> set (hcFree t) = {} \<and>
    set (map hrClient (hcPending t)) \<union> set (hcFree t) \<subseteq> dom (om_find (hcClients t))"
proof -
  have "http_ok (final (run_all (http_handle fmt serialize) es s))"
    using assms
  proof (induction es arbitrary: s)
    case (Cons e es)
    from http_handle_ok [OF Cons.prems] have e: "http_ok (final (http_handle fmt serialize e s))" .
    show ?case
    proof (cases "http_handle fmt serialize e s")
      case (Done b t)
      with e have t: "http_ok t" by simp
      have "final (run_all (http_handle fmt serialize) (e # es) s) = final (run_all (http_handle fmt serialize) es t)"
        using Done by (simp add: bind_def split: outcome.split)
      with Cons.IH [OF t] show ?thesis by simp
    qed (use e in simp_all)
  qed simp
  then show ?thesis by (simp add: http_ok_def Let_def) blast
qed

section \<open>What an answer delivers\<close>

text \<open>
  C23: the answer to a \<open>get\<close> reaches the service of the script with its body, byte for byte; the
  answer to a \<open>post\<close> reaches it with the same status and error and without a body, whatever the
  body was: its length is never put into the message.
\<close>

theorem http_answer_delivers:
  fixes s :: "'z http_scheme"
  assumes "ready_for s (hrService r) q w" and "\<not> hcLock s"
  shows "\<exists>m t. http_callback r status body err s = Done () t \<and>
    rtHeap t = (rtHeap s)(q \<mapsto> w\<lparr>mMsgs := mMsgs w @ [m]\<rparr>) \<and>
    msg_table m = \<lparr>lm_msgType = 5, lm_session = uint (to_u32 (hrSession r)), lm_source = 0,
      lm_data = (case hrVerb r of HttpGet \<Rightarrow> body | HttpPost \<Rightarrow> []), lm_error = c_str err,
      lm_status = sint (to_u32 status), lm_fd = uint (msg_fd (pool_head (rtPool s))), lm_isOk = False\<rparr>"
proof -
  let ?h = "pool_head (rtPool s)"
  have ok: "pool_ok (rtPool s)" using assms(1) by (simp add: ready_for_def)
  then have h: "ServiceMsg_reset ?h = ?h" using pool_head_ok by auto
  let ?m1 = "http_msg (hrSession r) status ?h"
  let ?g = "length (msg_data ?h) < length body + 1"
  let ?m = "case hrVerb r of
      HttpGet \<Rightarrow> ?m1\<lparr>msg_dataLen := length body, msg_data := filled ?g body (msg_data ?h), msg_error := err\<rparr>
    | HttpPost \<Rightarrow> if body = [] then ?m1\<lparr>msg_error := err\<rparr>
        else ?m1\<lparr>msg_data := filled ?g body (msg_data ?h), msg_error := err\<rparr>"
  have d: "msg_data ?m1 = msg_data ?h" by (simp add: http_msg_def)
  have fill: "(case hrVerb r of HttpGet \<Rightarrow> fill_get (hrSession r) status body err
      | HttpPost \<Rightarrow> fill_post (hrSession r) status body err) ?h t = Done ?m t" for t :: "'z http_scheme"
  proof (cases "hrVerb r")
    case HttpGet
    have "?g \<or> length body \<le> length (msg_data (?m1\<lparr>msg_dataLen := length body\<rparr>))" using d by auto
    from fill_buffer_run [OF this, where s = t] HttpGet d show ?thesis by (simp add: fill_get_def)
  next
    case HttpPost
    have "?g \<or> length body \<le> length (msg_data ?m1)" using d by auto
    from fill_buffer_run [OF this, where s = t] HttpPost d show ?thesis by (simp add: fill_post_def)
  qed
  have n: "notify (case hrVerb r of HttpGet \<Rightarrow> fill_get (hrSession r) status body err
      | HttpPost \<Rightarrow> fill_post (hrSession r) status body err) (hrService r) s = Done () (queued q w ?m s)"
    by (rule notify_run [OF assms(1)]) (rule fill)
  have "\<not> hcLock (queued q w ?m s)" using assms(2) by (simp add: queued_def)
  from destroyClient_frame [OF this, of "hrClient r"] n obtain t where
    t: "http_callback r status body err s = Done () t" "rtHeap t = rtHeap (queued q w ?m s)"
    by (simp add: http_callback_def split: option.splits)
  moreover have "msg_table ?m = \<lparr>lm_msgType = 5, lm_session = uint (to_u32 (hrSession r)), lm_source = 0,
      lm_data = (case hrVerb r of HttpGet \<Rightarrow> body | HttpPost \<Rightarrow> []), lm_error = c_str err,
      lm_status = sint (to_u32 status), lm_fd = uint (msg_fd ?h), lm_isOk = False\<rparr>"
    using reset_fields [of ?h] h by (auto simp: msg_table_def http_msg_def split: http_verb.split)
  ultimately show ?thesis by (intro exI [of _ ?m] exI [of _ t]) (simp add: queued_def)
qed

text \<open>An empty or missing \<open>url\<close> gives the client to nobody: the call is false and the client is lost.\<close>

lemma http_empty_url_leaks:
  "http_holds i s \<Longrightarrow> rqUrl rq = [] \<Longrightarrow>
   \<exists>t. perform_request perform sid session i rq s = Done False t \<and> http_holds i t"
  by (simp add: perform_request_def)

section \<open>The properties at a concrete state\<close>

definition http_sample :: http where
  "http_sample = core.extend (core_init (sample False []))
     \<lparr>hcFree = [], hcClients = [(1, 1)], hcNext = 2, hcAutoId = 2, hcLock = False,
      hcPending = [\<lparr>hrVerb = HttpPost, hrSession = 7, hrService = 1, hrClient = 1\<rparr>]\<rparr>"

theorem http_clients_not_shared_witness:
  "distinct (hcFree (final (run_all (http_handle int_digits (\<lambda>_. ''x''))
     [EvGet (Some 1) 5 (LTable [(LStr ''url'', LStr ''h'')]) True, EvAnswer 0 200 [] ''x''] http_sample)))"
proof -
  have "http_ok http_sample" by (simp add: http_ok_def http_sample_def core.defs)
  from http_clients_not_shared [OF this, of int_digits "\<lambda>_. ''x''"
    "[EvGet (Some 1) 5 (LTable [(LStr ''url'', LStr ''h'')]) True, EvAnswer 0 200 [] ''x'']"]
  show ?thesis by (simp only: Let_def)
qed

theorem http_answer_delivers_witness:
  "\<exists>m t. http_callback \<lparr>hrVerb = HttpPost, hrSession = 7, hrService = 1, hrClient = 1\<rparr> 200 [65, 66] ''x'' http_sample = Done () t \<and>
    rtHeap t = (rtHeap http_sample)(1 \<mapsto> idle_service\<lparr>mMsgs := mMsgs idle_service @ [m]\<rparr>) \<and> lm_data (msg_table m) = []"
proof -
  have "ready_for http_sample 1 1 idle_service"
    by (simp add: ready_for_def http_sample_def core.defs core_init_def runtime.defs sample_def pool_ok_def to_i32_def idle_service_def)
  moreover have "\<not> hcLock http_sample" by (simp add: http_sample_def core.defs)
  ultimately obtain m t where
    "http_callback \<lparr>hrVerb = HttpPost, hrSession = 7, hrService = 1, hrClient = 1\<rparr> 200 [65, 66] ''x'' http_sample = Done () t"
    "rtHeap t = (rtHeap http_sample)(1 \<mapsto> idle_service\<lparr>mMsgs := mMsgs idle_service @ [m]\<rparr>)"
    "lm_data (msg_table m) = []"
    using http_answer_delivers [of http_sample "\<lparr>hrVerb = HttpPost, hrSession = 7, hrService = 1, hrClient = 1\<rparr>" 1 idle_service 200 "[65, 66]" "''x''"]
    by fastforce
  then show ?thesis by blast
qed

end
