(* ===== verification/Composition.thy ===== *)
theory Composition
  imports Ownership TcpFacts TcpClient WsFacts HttpClient
begin

text \<open>
  The server with its network components: the workers and the main loop of \<open>Scheduler\<close>, and between
  their steps, in any order, the calls of scripts on TCP servers, TCP clients, websocket servers and
  HTTP clients, and the completions of their libraries.  The four components share the runtime's
  state and nothing else: each runs on that state extended by its own.
\<close>

section \<open>Calls on a network component are mild\<close>

lemma mild_on_obj: "(\<And>f. unseen (upd f)) \<Longrightarrow> mild (on_obj heap upd p m)"
  by (rule mildI) (auto simp: on_obj_def final_zoom unseen_keeps split: option.split)

lemma mild_post_incr: "(\<And>f. unseen (upd f)) \<Longrightarrow> mild (post_incr get upd)"
  by (rule mildI) (auto simp: post_incr_def unseen_keeps)

lemma mild_notify:
  assumes "\<And>m. mild (fill m)"
  shows "mild (notify fill i)"
  unfolding notify_def by (intro mild_pop_then calm_bind calm_send mild_calm assms)

lemma mild_pair [keep_intros]: "(\<And>a b. mild (f a b)) \<Longrightarrow> mild (case x of (a, b) \<Rightarrow> f a b)"
  by (cases x) simp

lemma mild_list [keep_intros]: "mild m \<Longrightarrow> (\<And>x xs. mild (f x xs)) \<Longrightarrow> mild (case l of [] \<Rightarrow> m | x # xs \<Rightarrow> f x xs)"
  by (cases l) simp_all

lemma mild_lift [keep_intros]: "mild (lift_res r)"
  by (rule mild_same) (simp add: lift_res_def split: res.split)

lemma mild_fills [keep_intros]: "mild (fill_get session status body err m)" "mild (fill_post session status body err m)"
  unfolding fill_get_def fill_post_def Let_def by (intro keep_intros)+

subsection \<open>TCP servers\<close>

lemma mild_tcp_state [keep_intros]:
  "mild (on_server p m)" "mild (acquire tcpLock tcpLock_update)" "mild (release tcpLock_update)"
  "mild (post_incr tcpAutoId tcpAutoId_update)" "mild (modify (\<lambda>s. s\<lparr>tcpHeap := f s, tcpNext := g s\<rparr>))"
  "mild (modify (\<lambda>s. s\<lparr>tcpServers := h s\<rparr>))" "mild (modify (\<lambda>s. s\<lparr>tcpWire := k s\<rparr>))"
  by (auto intro!: mild_on_obj mild_acquire mild_release mild_post_incr mild_modify simp: unseen_def)

lemma mild_tcp_callbacks [keep_intros]:
  "mild (tcp_onConnect i sid fd)" "mild (tcp_onClose i sid fd)" "mild (tcp_onMsg i sid fd d)"
  unfolding tcp_onConnect_def tcp_onClose_def tcp_onMsg_def Let_def by (intro mild_notify keep_intros)+

lemma mild_callback [keep_intros]: "(\<And>i sid. mild (f i sid)) \<Longrightarrow> mild (callback p f)"
  unfolding callback_def by (intro keep_intros)

lemma mild_tcp_parts [keep_intros]:
  "mild (TcpServer_close_fd p fd)" "mild (TcpServerMgr_getServer i)" "mild (TcpServerMgr_destroyServer i)"
  "mild TcpServerMgr_newServer"
  unfolding TcpServer_close_fd_def TcpServerMgr_getServer_def TcpServerMgr_destroyServer_def TcpServerMgr_newServer_def
  by (intro keep_intros)+

lemma mild_tcp_sends [keep_intros]:
  "mild (TcpServerMgr_close i fd)" "mild (TcpSession_close se)" "mild (TcpSession_send wr se d)" "mild (TcpServer_send wr p fd d)"
  unfolding TcpServerMgr_close_def TcpSession_close_def TcpSession_send_def TcpServer_send_def
  by (intro keep_intros)+

lemma mild_tcp_events [keep_intros]:
  "mild (TcpServer_onAcceptor p ec sock)" "mild (TcpSession_read se ec d)" "mild (TcpServer_getRemoteInfo peer p i)"
  unfolding TcpServer_onAcceptor_def TcpSession_read_def TcpSession_onMsg_def TcpServer_getRemoteInfo_def TcpServer_onMsg_def
    TcpSession_getRemoteInfo_def
  by (intro keep_intros)+

lemma mild_tcp: "mild (tcp_handle e)"
  by (cases e)
     (auto intro!: keep_intros simp: destroyTcpServer_def listenTcpServer_def sendTcpServer_def closeTcpServer_def
       getRemoteInfoTcpServer_def)

subsection \<open>TCP clients\<close>

text \<open>Everything that can happen to the TCP clients: the calls of scripts and asio's completions.\<close>

datatype client_event =
    CNew
  | CDestroy "int option"
  | CConnectTo "string \<Rightarrow> bool" "string \<Rightarrow> bool" "int option" "int option" "string option" "int option"
  | CSend "nat \<Rightarrow> bytes \<Rightarrow> nat option" "int option" "bytes option"
  | CCloseIt "int option"
  | CConnected nat "string option"
  | CRead nat bool bytes

fun client_handle :: "client_event \<Rightarrow> ('z tcpc_scheme, unit) op" where
  "client_handle CNew = andthen TcpClientMgr_newClient (ret ())"
| "client_handle (CDestroy a1) = destroyTcpClient a1"
| "client_handle (CConnectTo h r sid a1 a2 a3) = andthen (connectTcpClient h r sid a1 a2 a3) (ret ())"
| "client_handle (CSend wr a1 a2) = andthen (sendTcpClient wr a1 a2) (ret ())"
| "client_handle (CCloseIt a1) = closeTcpClient a1"
| "client_handle (CConnected p ec) = andthen (TcpClient_onConnect p ec) (ret ())"
| "client_handle (CRead p ec d) = andthen (TcpClient_onMsg p ec d) (ret ())"

lemma mild_client_state [keep_intros]:
  "mild (on_client p m)" "mild (acquire tccLock tccLock_update)" "mild (release tccLock_update)"
  "mild (post_incr tccAutoId tccAutoId_update)" "mild (modify (\<lambda>s. s\<lparr>tccHeap := f s, tccNext := g s\<rparr>))"
  "mild (modify (\<lambda>s. s\<lparr>tccClients := h s\<rparr>))" "mild (modify (\<lambda>s. s\<lparr>tccWire := k s\<rparr>))"
  by (auto intro!: mild_on_obj mild_acquire mild_release mild_post_incr mild_modify simp: unseen_def)

lemma mild_client_callbacks [keep_intros]:
  "mild (client_onConnect i sid)" "mild (client_onConnectError err i sid)" "mild (client_onClose i sid)" "mild (client_onMsg d i sid)"
  unfolding client_onConnect_def client_onConnectError_def client_onClose_def client_onMsg_def Let_def
  by (intro mild_notify keep_intros)+

lemma mild_client_callback [keep_intros]: "(\<And>i sid. mild (f i sid)) \<Longrightarrow> mild (client_callback p f)"
  unfolding client_callback_def by (intro keep_intros)

lemma mild_client_parts [keep_intros]:
  "mild (TcpClient_close p)" "mild (TcpClient_send wr p d)" "mild (TcpClientMgr_getClient i)"
  "mild (TcpClientMgr_destroyClient i)" "mild TcpClientMgr_newClient"
  unfolding TcpClient_close_def TcpClient_send_def TcpClientMgr_getClient_def TcpClientMgr_destroyClient_def
    TcpClientMgr_newClient_def
  by (intro keep_intros)+

lemma mild_client: "mild (client_handle e)"
  by (cases e)
     (auto intro!: keep_intros simp: destroyTcpClient_def connectTcpClient_def sendTcpClient_def closeTcpClient_def
       TcpClient_onConnect_def TcpClient_onMsg_def)

subsection \<open>Websocket servers\<close>

datatype ws_call =
    WNew
  | WDestroy "int option"
  | WListen "16 word \<Rightarrow> string \<Rightarrow> int \<Rightarrow> bool" "int option" "int option" "int option" "string option" "int option"
  | WSend "nat \<Rightarrow> bytes \<Rightarrow> bool" "int option" "int option" "bytes option"
  | WClose "int option" "int option"
  | WEvent nat ws_event

fun ws_handle :: "ws_call \<Rightarrow> ('z ws_scheme, unit) op" where
  "ws_handle WNew = andthen WebsocketServerMgr_newServer (ret ())"
| "ws_handle (WDestroy a1) = destroyWebsocketServer a1"
| "ws_handle (WListen l sid a1 a2 a3 a4) = andthen (listenWebsocketServer l sid a1 a2 a3 a4) (ret ())"
| "ws_handle (WSend w a1 a2 a3) = andthen (sendWebsocketServer w a1 a2 a3) (ret ())"
| "ws_handle (WClose a1 a2) = closeWebsocketServer a1 a2"
| "ws_handle (WEvent p e) = onServerMsg p e"

lemma mild_ws_state [keep_intros]:
  "mild (on_ws p m)" "mild (acquire wsLock wsLock_update)" "mild (release wsLock_update)"
  "mild (post_incr wsAutoId wsAutoId_update)" "mild (modify (\<lambda>s. s\<lparr>wsHeap := f s, wsNext := g s\<rparr>))"
  "mild (modify (\<lambda>s. s\<lparr>wsServers := h s\<rparr>))" "mild (modify (\<lambda>s. s\<lparr>wsClosing := k s\<rparr>))"
  "mild (modify (\<lambda>s. if b then s\<lparr>wsWire := l s\<rparr> else s))"
  by (auto intro!: mild_on_obj mild_acquire mild_release mild_post_incr mild_modify simp: unseen_def)

lemma mild_ws_callbacks [keep_intros]:
  "mild (ws_onConnect fd i sid)" "mild (ws_onClose fd i sid)" "mild (ws_onMsg fd d i sid)"
  unfolding ws_onConnect_def ws_onClose_def ws_onMsg_def Let_def by (intro mild_notify keep_intros)+

lemma mild_ws_callback [keep_intros]: "(\<And>i sid. mild (f i sid)) \<Longrightarrow> mild (ws_callback g p f)"
  unfolding ws_callback_def by (intro keep_intros)

lemma mild_ws_parts [keep_intros]:
  "mild (WebsocketServer_send w p fd d)" "mild (WebsocketServer_close_fd p fd)" "mild (WebsocketServerMgr_getServer i)"
  "mild (WebsocketServerMgr_destroyServer i)" "mild WebsocketServerMgr_newServer"
  unfolding WebsocketServer_send_def WebsocketServer_close_fd_def WebsocketServerMgr_getServer_def
    WebsocketServerMgr_destroyServer_def WebsocketServerMgr_newServer_def
  by (intro keep_intros)+

lemma mild_ws_event [keep_intros]: "mild (onServerMsg p e)"
  by (cases e) (auto intro!: keep_intros)

lemma mild_ws: "mild (ws_handle e)"
  by (cases e)
     (auto intro!: keep_intros simp: destroyWebsocketServer_def listenWebsocketServer_def sendWebsocketServer_def
       closeWebsocketServer_def Let_def)

subsection \<open>HTTP clients\<close>

lemma mild_http_state [keep_intros]:
  "mild (acquire hcLock hcLock_update)" "mild (release hcLock_update)" "mild (post_incr hcAutoId hcAutoId_update)"
  "mild (modify (\<lambda>s. s\<lparr>hcClients := f s, hcNext := g s\<rparr>))" "mild (modify (\<lambda>s. s\<lparr>hcFree := h s\<rparr>))"
  "mild (modify (\<lambda>s. s\<lparr>hcPending := k s\<rparr>))"
  by (auto intro!: mild_acquire mild_release mild_post_incr mild_modify simp: unseen_def)

lemma mild_http_parts [keep_intros]:
  "mild HttpClientMgr_newClient" "mild (HttpClientMgr_getClient i)" "mild (HttpClientMgr_destroyClient i)"
  unfolding HttpClientMgr_newClient_def HttpClientMgr_getClient_def HttpClientMgr_destroyClient_def
  by (intro keep_intros)+

lemma mild_http_requests [keep_intros]:
  "mild (perform_request perform sid session i rq)" "mild (http_callback r status body err)" "mild (http_answer n status body err)"
proof -
  show "mild (perform_request perform sid session i rq)" unfolding perform_request_def by (intro keep_intros)
  show c: "mild (http_callback r status body err)" for r
    unfolding http_callback_def by (cases "hrVerb r") (auto intro!: keep_intros mild_notify)
  show "mild (http_answer n status body err)" unfolding http_answer_def by (intro keep_intros c)
qed

lemma mild_http: "mild (http_handle fmt serialize e)"
proof (cases e)
  case (EvGet sid session a2 b)
  then show ?thesis by (cases a2) (auto intro!: keep_intros simp: httpGet_def)
next
  case (EvPost sid session a2 a3 b)
  then show ?thesis by (cases a2; cases a3) (auto intro!: keep_intros simp: httpPost_def)
qed (auto intro!: keep_intros)

section \<open>The joint state\<close>

text \<open>
  The components' own parts of the state, beside the server's.  \<open>Caller\<close> is the thread of a call: a
  worker, the main thread, or a thread of ixwebsocket, of which the model has no other state.
\<close>

record network =
  netSys :: sys
  netTcp :: "unit tcp_ext"
  netClient :: "unit tcpc_ext"
  netWs :: "unit ws_ext"
  netHttp :: "unit http_ext"

datatype 'f net_call = NTcp tcp_event | NClient client_event | NWs ws_call | NHttp "'f http_event"

datatype caller = ByWorker nat | ByMain | ByLibrary

text \<open>Who makes a call: a script, asio's \<open>poll\<close> in the main loop, or a thread of ixwebsocket.\<close>

fun from_asio :: "'f net_call \<Rightarrow> bool" where
  "from_asio (NTcp (EAccept p ec sock)) = True"
| "from_asio (NTcp (ERead se ec d)) = True"
| "from_asio (NClient (CConnected p ec)) = True"
| "from_asio (NClient (CRead p ec d)) = True"
| "from_asio c = False"

fun from_library :: "'f net_call \<Rightarrow> bool" where
  "from_library (NWs (WEvent p e)) = True"
| "from_library (NHttp (EvAnswer n status body err)) = True"
| "from_library c = False"

abbreviation from_script :: "'f net_call \<Rightarrow> bool" where
  "from_script c \<equiv> \<not> from_asio c \<and> \<not> from_library c"

text \<open>A worker's script needs the service object it belongs to, as in \<open>w_lua\<close>.\<close>

fun guarded :: "caller \<Rightarrow> sys \<Rightarrow> ('z runtime_scheme, 'a) op \<Rightarrow> ('z runtime_scheme, 'a) op" where
  "guarded (ByWorker w) s m = (case pc_polls (sPc s w) of None \<Rightarrow> m | Some p \<Rightarrow> alive p m)"
| "guarded c s m = m"

text \<open>A call that never returns takes its thread with it; an undefined one, the process.\<close>

fun hang :: "caller \<Rightarrow> core \<Rightarrow> sys \<Rightarrow> sys" where
  "hang (ByWorker w) t s = set_pc w (Hung (sPc s w)) t s"
| "hang ByMain t s = set_main (MHung (main_frames (sMain s))) t s"
| "hang ByLibrary t s = s\<lparr>sRt := t\<rparr>"

definition net_do :: "caller \<Rightarrow> ('e core_scheme, 'a) op \<Rightarrow> 'e \<Rightarrow> sys \<Rightarrow> sys \<times> 'e" where
  "net_do c m x s =
     (case guarded c s m (core.extend (sRt s) x) of
        Done a t \<Rightarrow> (s\<lparr>sRt := core.truncate t\<rparr>, core.more t)
      | Spin t \<Rightarrow> (hang c (core.truncate t) s, core.more t)
      | Fault e t \<Rightarrow> (crashed e s, x))"

fun net_apply ::
  "('f \<Rightarrow> string) \<Rightarrow> ((string \<times> string) list \<Rightarrow> string) \<Rightarrow> caller \<Rightarrow> 'f net_call \<Rightarrow> network \<Rightarrow> network"
where
  "net_apply num ser c (NTcp e) n =
     (let (s, x) = net_do c (tcp_handle e) (netTcp n) (netSys n) in n\<lparr>netSys := s, netTcp := x\<rparr>)"
| "net_apply num ser c (NClient e) n =
     (let (s, x) = net_do c (client_handle e) (netClient n) (netSys n) in n\<lparr>netSys := s, netClient := x\<rparr>)"
| "net_apply num ser c (NWs e) n =
     (let (s, x) = net_do c (ws_handle e) (netWs n) (netSys n) in n\<lparr>netSys := s, netWs := x\<rparr>)"
| "net_apply num ser c (NHttp e) n =
     (let (s, x) = net_do c (http_handle num ser e) (netHttp n) (netSys n) in n\<lparr>netSys := s, netHttp := x\<rparr>)"

inductive net_step ::
  "(string \<Rightarrow> bool) \<Rightarrow> ('f \<Rightarrow> string) \<Rightarrow> ((string \<times> string) list \<Rightarrow> string) \<Rightarrow> network \<Rightarrow> network \<Rightarrow> bool"
  for exists num ser
where
  n_server: "server_step exists (netSys n) s \<Longrightarrow> net_step exists num ser n (n\<lparr>netSys := s\<rparr>)"
| n_worker: "sCrash (netSys n) = None \<Longrightarrow> w < length (mWorkers (rtWorkers (sRt (netSys n)))) \<Longrightarrow>
    sPc (netSys n) w = InLua p i fs \<Longrightarrow> runs fs \<Longrightarrow> from_script c \<Longrightarrow>
    net_step exists num ser n (net_apply num ser (ByWorker w) c n)"
| n_start: "sCrash (netSys n) = None \<Longrightarrow> sMain (netSys n) = MStart fs \<Longrightarrow> runs fs \<Longrightarrow> from_script c \<Longrightarrow>
    net_step exists num ser n (net_apply num ser ByMain c n)"
| n_asio: "sCrash (netSys n) = None \<Longrightarrow> sMain (netSys n) = MIo \<Longrightarrow> from_asio c \<Longrightarrow>
    net_step exists num ser n (net_apply num ser ByMain c n)"
| n_library: "sCrash (netSys n) = None \<Longrightarrow> from_library c \<Longrightarrow>
    net_step exists num ser n (net_apply num ser ByLibrary c n)"

definition net_start :: "int \<Rightarrow> string list \<Rightarrow> network" where
  "net_start threads paths =
     \<lparr>netSys = server_start threads paths,
      netTcp = \<lparr>tcpHeap = Map.empty, tcpNext = 1, tcpServers = [], tcpAutoId = 1, tcpLock = False, tcpWire = []\<rparr>,
      netClient = \<lparr>tccHeap = Map.empty, tccNext = 1, tccClients = [], tccAutoId = 1, tccLock = False, tccWire = []\<rparr>,
      netWs = \<lparr>wsHeap = Map.empty, wsNext = 1, wsServers = [], wsAutoId = 1, wsLock = False, wsWire = [], wsClosing = []\<rparr>,
      netHttp = \<lparr>hcFree = [], hcClients = [], hcNext = 1, hcAutoId = 1, hcLock = False, hcPending = []\<rparr>\<rparr>"

section \<open>What the composition keeps\<close>

text \<open>What the server's own invariants say of a state, with \<open>threads\<close> workers.\<close>

definition net_ok :: "int \<Rightarrow> sys \<Rightarrow> bool" where
  "net_ok threads s \<longleftrightarrow> no_queue (sRt s) \<and> owned_ok s \<and> staffed threads (sRt s)"

lemma no_queue_extend [simp]: "no_queue (core.extend r x) = no_queue r"
  by (simp add: no_queue_def core.defs)

lemma shrinks_truncate: "shrinks (core.extend r x) t \<Longrightarrow> shrinks r (core.truncate t)"
  by (simp add: shrinks_def core.defs)

lemma no_queue_truncate: "no_queue t \<Longrightarrow> no_queue (core.truncate t)"
  by (simp add: no_queue_def core.defs)

lemma mild_extend:
  assumes "mild m" and "no_queue r"
  shows "shrinks r (core.truncate (final (m (core.extend r x))))" "no_queue (core.truncate (final (m (core.extend r x))))"
  using mildD [OF assms(1), of "core.extend r x"] assms(2)
  by (auto intro: shrinks_truncate no_queue_truncate)

lemma staffed_shrinks: "shrinks r t \<Longrightarrow> staffed n r \<Longrightarrow> staffed n t"
  by (simp add: staffed_def shrinks_def)

lemma mild_guarded: "mild m \<Longrightarrow> mild (guarded c s m)"
  by (cases c) (auto simp: alive_def intro!: keep_intros split: option.split)

lemma owned_main_hung: "owned_ok s \<Longrightarrow> fewer (sRt s) t \<Longrightarrow> owned_ok (set_main (MHung (main_frames (sMain s))) t s)"
  by (rule owned_set_main) simp_all

lemma owned_runtime: "owned_ok s \<Longrightarrow> fewer (sRt s) t \<Longrightarrow> owned_ok (s\<lparr>sRt := t\<rparr>)"
  using owned_set_main [of s t "sMain s"] by (simp add: set_main_def)

lemma net_do_ok:
  assumes "mild m" and "net_ok n s" and "net_do c m x s = (t, y)"
  shows "net_ok n t"
proof -
  let ?r = "guarded c s m (core.extend (sRt s) x)" and ?u = "core.truncate (final (guarded c s m (core.extend (sRt s) x)))"
  from assms(2) have s: "no_queue (sRt s)" "owned_ok s" "staffed n (sRt s)" by (simp_all add: net_ok_def)
  note u = mild_extend [OF mild_guarded [OF assms(1)] s(1), of c s x]
  note f = shrinks_fewer [OF u(1)] and st = staffed_shrinks [OF u(1) s(3)]
  show ?thesis
  proof (cases ?r)
    case (Done a v)
    with assms(3) have "t = s\<lparr>sRt := ?u\<rparr>" by (simp add: net_do_def)
    with owned_runtime [OF s(2) f] u(2) st show ?thesis by (simp add: net_ok_def)
  next
    case (Spin v)
    with assms(3) have "t = hang c ?u s" by (simp add: net_do_def)
    with owned_runtime [OF s(2) f] owned_hung [OF s(2) f] owned_main_hung [OF s(2) f] u(2) st show ?thesis
      by (cases c) (simp_all add: net_ok_def, simp_all add: set_pc_def set_main_def)
  next
    case (Fault e v)
    with assms(3) have "t = crashed e s" by (simp add: net_do_def)
    with owned_crash [OF s(2)] s show ?thesis by (simp add: net_ok_def) (simp add: crashed_def)
  qed
qed

lemma net_apply_ok: "net_ok k (netSys n) \<Longrightarrow> net_ok k (netSys (net_apply num ser c e n))"
  by (cases e) (auto split: prod.split dest: net_do_ok [OF mild_tcp] net_do_ok [OF mild_client] net_do_ok [OF mild_ws] net_do_ok [OF mild_http])

lemma server_step_ok: "server_step exists s t \<Longrightarrow> net_ok k s \<Longrightarrow> net_ok k t"
  by (auto simp: net_ok_def elim!: server_step.cases dest: worker_quiet main_quiet worker_owned main_owned worker_steady main_steady)

text \<open>The HTTP clients: their invariant speaks of their own part of the state only.\<close>

definition clients_ok :: "unit http_ext \<Rightarrow> bool" where
  "clients_ok x \<longleftrightarrow> (\<forall>r. http_ok (core.extend r x))"

lemma http_ext_cases:
  obtains fr cl nx au lo pe where "x = \<lparr>hcFree = fr, hcClients = cl, hcNext = nx, hcAutoId = au, hcLock = lo, hcPending = pe\<rparr>"
proof -
  fix r :: core
  obtain z :: http where z: "z = core.extend r x" by blast
  then have "x = core.more z" by (simp add: core.defs)
  with that show thesis by (cases z) simp
qed

lemma clients_ok_iff: "clients_ok x \<longleftrightarrow> http_ok (core.extend r x)"
  by (cases x rule: http_ext_cases) (simp add: clients_ok_def http_ok_def core.defs)

lemma clients_ok_more: "http_ok z \<Longrightarrow> clients_ok (core.more z)"
  by (cases z) (simp add: clients_ok_def http_ok_def core.defs)

lemma final_alive: "final (alive p m s) = s \<or> final (alive p m s) = final (m s)"
  by (auto simp: alive_run split: option.split)

lemma net_do_http:
  assumes "clients_ok x" and "net_do c (http_handle num ser e) x s = (t, y)"
  shows "clients_ok y"
proof -
  let ?z = "core.extend (sRt s) x" and ?m = "http_handle num ser e :: (http, bool) op"
  have x: "http_ok ?z" using assms(1) by (simp add: clients_ok_def)
  have "http_ok (final (guarded c s ?m ?z))"
  proof (cases "guarded c s ?m = ?m")
    case True
    with http_handle_ok [OF x, of num ser e] show ?thesis by simp
  next
    case False
    then obtain p where g: "guarded c s ?m = alive p ?m"
      by (cases c) (auto split: option.splits)
    from final_alive [of p ?m ?z] http_handle_ok [OF x, of num ser e] x show ?thesis
      unfolding g by metis
  qed
  with assms show ?thesis
    by (auto simp: net_do_def intro: clients_ok_more split: outcome.splits)
qed

lemma net_apply_http: "clients_ok (netHttp n) \<Longrightarrow> clients_ok (netHttp (net_apply num ser c e n))"
  by (cases e) (auto split: prod.split dest: net_do_http)

interpretation composed: inductive_invariant "\<lambda>n. n = net_start threads paths \<and> 0 \<le> threads" "net_step exists num ser"
    "\<lambda>n. net_ok threads (netSys n) \<and> clients_ok (netHttp n)"
  for threads paths exists num ser
proof unfold_locales
  show "net_ok threads (netSys n) \<and> clients_ok (netHttp n)" if "n = net_start threads paths \<and> 0 \<le> threads" for n
    using that owned_start staffed_start no_message.inv_start [OF refl, of threads paths]
    by (simp add: net_start_def net_ok_def) (simp add: clients_ok_def http_ok_def core.defs)
  show "net_ok threads (netSys t) \<and> clients_ok (netHttp t)"
    if "net_ok threads (netSys n) \<and> clients_ok (netHttp n)" "net_step exists num ser n t" for n t
    using that(2,1) by (induction rule: net_step.induct) (auto intro: net_apply_ok net_apply_http server_step_ok)
qed


text \<open>Every run of the server alone is one of the composition.\<close>

lemma net_lift:
  assumes "reachable exists threads paths s" and "0 \<le> threads"
  shows "reach (\<lambda>n. n = net_start threads paths \<and> 0 \<le> threads) (net_step exists num ser) (net_start threads paths\<lparr>netSys := s\<rparr>)"
  using assms(1)
proof (induction rule: reach.induct)
  case (reach_start s)
  with assms(2) show ?case by (auto intro!: reach.reach_start simp: net_start_def)
next
  case (reach_step s t)
  from reach.reach_step [OF reach_step.IH n_server, of t] reach_step.hyps show ?case by simp
qed

text \<open>In the run of \<open>Ownership\<close>, the service's script opens a TCP server while its worker polls it.\<close>

definition a_net :: network where
  "a_net = net_start 1 [''srv'']
     \<lparr>netSys := run_state False (Some 1) (Some (a_service True True)) [(1, 1)] [] (InLua 1 0 []) (MStart []) None\<rparr>"

lemma a_net_opens:
  "net_apply num ser (ByWorker 0) (NTcp ENew) a_net =
     a_net\<lparr>netTcp := \<lparr>tcpHeap = [1 \<mapsto> TcpServer_ctor 1], tcpNext = 2, tcpServers = [(1, 1)], tcpAutoId = 2,
       tcpLock = False, tcpWire = []\<rparr>\<rparr>"
  by (simp add: net_do_def a_net_def net_start_def run_state_def core.defs alive_run newServer_free i32_max_def)


end
