(* ===== verification/Shutdown.thy ===== *)
theory Shutdown
  imports Ownership
begin

text \<open>
  The life of the two managers (\<open>getInst\<close> and \<open>destroy\<close> in \<open>src/worker/workerMgr.cpp\<close> and
  \<open>src/service/serviceMgr.cpp\<close>) and the end of the process: \<open>main\<close> deletes the workers one after the
  other, each deletion a join of its thread, and the services after them.
\<close>

section \<open>Creation and destruction of the managers\<close>

text \<open>
  \<open>inst\<close> is whether \<open>mInst\<close> points to a manager, and the result whether it does afterwards.
  \<open>stopped k\<close> is whether the thread of the worker at place \<open>k\<close> ends once it is told to: \<open>join\<close> waits
  without end for one that does not.
\<close>

definition WorkerMgr_getInst :: "bool \<Rightarrow> (worker_mgr, bool) op" where
  "WorkerMgr_getInst inst = (if \<not> inst then andthen (modify (\<lambda>_. empty_worker_mgr)) (ret True) else ret True)"

definition Worker_dtor :: "(nat \<Rightarrow> bool) \<Rightarrow> nat \<Rightarrow> (worker_mgr, unit) op" where
  "Worker_dtor stopped k =
     andthen (modify (\<lambda>wm. wm\<lparr>mWorkers := (mWorkers wm)[k := (mWorkers wm ! k)\<lparr>mIsRun := False\<rparr>]\<rparr>))
       (if stopped k then ret () else Spin)"

fun delete_workers :: "(nat \<Rightarrow> bool) \<Rightarrow> nat list \<Rightarrow> (worker_mgr, unit) op" where
  "delete_workers stopped [] = ret ()"
| "delete_workers stopped (k # ks) = andthen (Worker_dtor stopped k) (delete_workers stopped ks)"

definition WorkerMgr_dtor :: "(nat \<Rightarrow> bool) \<Rightarrow> (worker_mgr, unit) op" where
  "WorkerMgr_dtor stopped =
     bind (gets (\<lambda>wm. length (mWorkers wm))) (\<lambda>n.
     andthen (delete_workers stopped [0 ..< n]) (modify (\<lambda>wm. wm\<lparr>mWorkers := []\<rparr>)))"

definition WorkerMgr_destroy :: "(nat \<Rightarrow> bool) \<Rightarrow> bool \<Rightarrow> (worker_mgr, bool) op" where
  "WorkerMgr_destroy stopped inst = (if inst then andthen (WorkerMgr_dtor stopped) (ret False) else ret False)"

definition ServiceMgr_getInst :: "bool \<Rightarrow> ('z runtime_scheme, bool) op" where
  "ServiceMgr_getInst inst =
     (if \<not> inst then
        andthen (modify (\<lambda>s. s\<lparr>mServices := [], mAutoId := 1, mServicePaths := [], mServiceLock := False,
          mFreeServices := [], mFreeServiceLock := False, mPreDestroyServices := [], mPreDestroyServiceLock := False\<rparr>))
          (ret True)
      else ret True)"

definition ServiceMgr_dtor :: "('z runtime_scheme, unit) op" where
  "ServiceMgr_dtor = ServiceMgr_poll"

definition ServiceMgr_destroy :: "bool \<Rightarrow> ('z runtime_scheme, bool) op" where
  "ServiceMgr_destroy inst = (if inst then andthen ServiceMgr_dtor (ret False) else ret False)"

text \<open>
  The workers are told to stop one by one: behind the first whose thread does not end, no other is told
  to.
\<close>

definition told :: "nat \<Rightarrow> worker_mgr \<Rightarrow> worker_mgr" where
  "told n wm = wm\<lparr>mWorkers := map (\<lambda>w. w\<lparr>mIsRun := False\<rparr>) (take n (mWorkers wm)) @ drop n (mWorkers wm)\<rparr>"

lemma told_next:
  assumes "k < length (mWorkers wm)"
  shows "(told k wm)\<lparr>mWorkers := (mWorkers (told k wm))[k := (mWorkers (told k wm) ! k)\<lparr>mIsRun := False\<rparr>]\<rparr> = told (Suc k) wm"
  using assms by (simp add: told_def take_Suc_conv_app_nth Cons_nth_drop_Suc [symmetric] list_update_append nth_append)

lemma delete_workers_run:
  "n \<le> length (mWorkers wm) \<Longrightarrow> k \<le> n \<Longrightarrow>
   delete_workers stopped [k ..< n] (told k wm) =
     (if \<forall>j \<in> {k ..< n}. stopped j then Done () (told n wm)
      else Spin (told (Suc (LEAST j. k \<le> j \<and> \<not> stopped j)) wm))"
proof (induction "n - k" arbitrary: k)
  case 0
  then show ?case by simp
next
  case (Suc d)
  then have k: "k < n" by simp
  then have u: "[k ..< n] = k # [Suc k ..< n]" by (simp add: upt_conv_Cons)
  have step: "Worker_dtor stopped k (told k wm) = (if stopped k then ret () else Spin) (told (Suc k) wm)"
    using told_next [of k wm] k Suc.prems by (simp add: Worker_dtor_def)
  show ?case
  proof (cases "stopped k")
    case True
    have "{k ..< n} = insert k {Suc k ..< n}" using k by auto
    with True have all: "(\<forall>j \<in> {k ..< n}. stopped j) \<longleftrightarrow> (\<forall>j \<in> {Suc k ..< n}. stopped j)" by simp
    have "(k \<le> j \<and> \<not> stopped j) = (Suc k \<le> j \<and> \<not> stopped j)" for j using True by (cases "j = k") auto
    then have "(LEAST j. k \<le> j \<and> \<not> stopped j) = (LEAST j. Suc k \<le> j \<and> \<not> stopped j)" by simp
    with Suc.hyps(1) [of "Suc k"] Suc.hyps(2) Suc.prems k True all u step show ?thesis by simp
  next
    case False
    then have "(LEAST j. k \<le> j \<and> \<not> stopped j) = k" by (intro Least_equality) auto
    with False k u step show ?thesis by auto
  qed
qed

lemma WorkerMgr_dtor_run:
  "WorkerMgr_dtor stopped wm =
     (if \<forall>j < length (mWorkers wm). stopped j then Done () (wm\<lparr>mWorkers := []\<rparr>)
      else Spin (told (Suc (LEAST j. \<not> stopped j)) wm))"
proof -
  have "told 0 wm = wm" by (simp add: told_def)
  with delete_workers_run [of "length (mWorkers wm)" wm 0 stopped]
  have "delete_workers stopped [0 ..< length (mWorkers wm)] wm =
      (if \<forall>j < length (mWorkers wm). stopped j then Done () (told (length (mWorkers wm)) wm)
       else Spin (told (Suc (LEAST j. \<not> stopped j)) wm))" by (simp add: Ball_def)
  then show ?thesis by (simp add: WorkerMgr_dtor_def) (simp add: told_def)
qed

section \<open>The end of the process\<close>

text \<open>
  What the loop over the workers keeps: those in front of the one that is being joined have ended, and
  at the end of \<open>main\<close> all of them have.
\<close>

definition exit_ok :: "nat \<Rightarrow> sys \<Rightarrow> bool" where
  "exit_ok n s \<longleftrightarrow> (\<forall>ok k. sMain s = MJoin ok k \<longrightarrow> (\<forall>j < k. sPc s j = Stopped)) \<and>
     (sMain s = MEnd \<longrightarrow> (\<forall>j < n. sPc s j = Stopped))"

lemma worker_local:
  "worker_step exists w s t \<Longrightarrow>
   sMain t = sMain s \<and> (\<forall>j. j \<noteq> w \<longrightarrow> sPc t j = sPc s j) \<and> sPc s w \<noteq> Stopped \<and> (\<forall>q. sPc s w \<noteq> Hung q)"
  by (induction rule: worker_step.induct)
     (auto simp: worker_next_def set_pc_def crashed_def split: outcome.split)

lemma main_local: "main_step exists s t \<Longrightarrow> sPc t = sPc s"
  by (induction rule: main_step.induct)
     (auto simp: main_next_def set_main_def crashed_def split: outcome.split)

lemma after_start_cases: "MJoin ok k = after_start r \<Longrightarrow> k = 0" "after_start r \<noteq> MEnd"
  by (cases r; auto split: if_splits)+

lemma main_next_main:
  "sMain (main_next (r :: ('a, core) outcome) f fs s) = sMain s \<or> sMain (main_next r f fs s) = MHung fs \<or>
   (\<exists>a. sMain (main_next r f fs s) = f a)"
  by (auto simp: main_next_def set_main_def crashed_def split: outcome.split)

lemma main_exit_ok:
  "main_step exists s t \<Longrightarrow> length (mWorkers (rtWorkers (sRt s))) = n \<Longrightarrow> exit_ok n s \<Longrightarrow> exit_ok n t"
proof (induction rule: main_step.induct)
  case (m_start s fs a)
  let ?t = "main_next (lua_act exists a fs (sRt s)) after_start fs s"
  have "k = 0" if "sMain ?t = MJoin ok k" for ok k
    using main_next_main [of "lua_act exists a fs (sRt s)" after_start fs s] m_start(1) that after_start_cases(1) by auto
  moreover have "sMain ?t \<noteq> MEnd"
    using main_next_main [of "lua_act exists a fs (sRt s)" after_start fs s] m_start(1) after_start_cases(2) by auto
  ultimately show ?case by (auto simp: exit_ok_def)
next
  case (m_joined s ok k)
  then show ?case by (auto simp: exit_ok_def set_main_def less_Suc_eq)
qed (auto simp: exit_ok_def main_next_def set_main_def crashed_def split: outcome.split)

lemma worker_exit_ok: "worker_step exists w s t \<Longrightarrow> exit_ok n s \<Longrightarrow> exit_ok n t"
  using worker_local [of exists w s t] unfolding exit_ok_def by metis

interpretation exiting: inductive_invariant "\<lambda>s. s = server_start threads paths \<and> 0 \<le> threads" "server_step exists"
    "\<lambda>s. no_queue (sRt s) \<and> staffed threads (sRt s) \<and> exit_ok (nat threads) s"
  for threads paths exists
proof unfold_locales
  show "no_queue (sRt s) \<and> staffed threads (sRt s) \<and> exit_ok (nat threads) s"
    if "s = server_start threads paths \<and> 0 \<le> threads" for s
    using that staffed_start no_message.inv_start [OF refl, of threads paths] by (auto simp: exit_ok_def server_start_def)
  show "no_queue (sRt t) \<and> staffed threads (sRt t) \<and> exit_ok (nat threads) t"
    if "no_queue (sRt s) \<and> staffed threads (sRt s) \<and> exit_ok (nat threads) s" "server_step exists s t" for s t
    using that(2,1) worker_exit_ok main_exit_ok
    by (induction rule: server_step.induct)
       (auto dest: worker_quiet main_quiet worker_steady main_steady, auto simp: staffed_def)
qed

text \<open>A worker that waits without end has no step, and neither has the main thread that joins it.\<close>

lemma join_stuck_step:
  assumes "main_step exists s t" and "sMain s = MJoin ok k" "sPc s k \<noteq> Stopped" "k < length (mWorkers (rtWorkers (sRt s)))"
  shows "sMain t = MJoin ok k"
  using assms by (induction rule: main_step.induct) (auto simp: set_main_def)

lemma join_stuck:
  assumes "reach (\<lambda>u. u = s) (server_step exists) t"
    and s: "sMain s = MJoin ok k" "sPc s k = Hung q" "no_queue (sRt s)" "staffed n (sRt s)" "k < nat n"
  shows "sMain t = MJoin ok k \<and> sPc t k = Hung q \<and> no_queue (sRt t) \<and> staffed n (sRt t)"
  using assms(1)
proof (induction rule: reach.induct)
  case (reach_step t u)
  from reach_step.hyps(2) show ?case
  proof (cases rule: server_step.cases)
    case (worker w)
    with reach_step.IH worker_local [OF worker(3)] show ?thesis by (auto dest: worker_quiet worker_steady)
  next
    case main
    from reach_step.IH s(5) have "sPc t k \<noteq> Stopped" "k < length (mWorkers (rtWorkers (sRt t)))" by (auto simp: staffed_def)
    with reach_step.IH join_stuck_step [OF main(2)] main_local [OF main(2)] main(2) show ?thesis
      by (auto dest: main_quiet main_steady)
  qed
qed (use s in auto)

text \<open>
  C12: \<open>main\<close> comes to its end only when every worker's thread has ended, and then nothing moves any
  more; but the workers are joined one by one, so that one of them that waits without end keeps the
  process from ever ending, whatever the others do.
\<close>

theorem exit_waits_for_workers:
  assumes "reach (\<lambda>s. s = server_start threads paths \<and> 0 \<le> threads) (server_step exists) s"
  shows "(sMain s = MEnd \<longrightarrow> (\<forall>w < nat threads. sPc s w = Stopped) \<and> (\<forall>t. \<not> server_step exists s t)) \<and>
    (\<forall>ok k q. sMain s = MJoin ok k \<and> k < nat threads \<and> sPc s k = Hung q \<longrightarrow>
       (\<forall>t. reach (\<lambda>u. u = s) (server_step exists) t \<longrightarrow> sMain t = MJoin ok k))"
proof -
  have i: "no_queue (sRt s)" "staffed threads (sRt s)" "exit_ok (nat threads) s" using exiting.always [OF assms] by auto
  have "\<not> server_step exists s t" if e: "sMain s = MEnd" for t
  proof
    assume "server_step exists s t"
    then show False
    proof (cases rule: server_step.cases)
      case (worker w)
      with i(2) have "w < nat threads" by (simp add: staffed_def)
      with i(3) e worker_local [OF worker(3)] show False by (auto simp: exit_ok_def)
    next
      case main
      from main(2) show False using e by (induction rule: main_step.induct) auto
    qed
  qed
  moreover have "sMain t = MJoin ok k"
    if "sMain s = MJoin ok k" "k < nat threads" "sPc s k = Hung q" "reach (\<lambda>u. u = s) (server_step exists) t" for ok k q t
    using join_stuck [OF that(4,1,3) i(1,2) that(2)] by simp
  ultimately show ?thesis using i(3) unfolding exit_ok_def by blast
qed

text \<open>
  In the run of \<open>Ownership\<close>, the service's script sends two messages (to a number that no service has)
  and the start script ends with an error.
\<close>

abbreviation two_sends :: act where
  "two_sends \<equiv> Call (ASend (Some 1) (Some 99) (Some 3) (Some 0) True (Some []))"

definition stuck_at :: "pc \<Rightarrow> main_pc \<Rightarrow> sys" where
  "stuck_at q m =
     (let s = run_state False (Some 1) (Some (a_service True True)) [(1, 1)] [] q m None
      in s\<lparr>sRt := (sRt s)\<lparr>rtPool := \<lparr>mPool = replicate 9 new_msg, mPoolLock = True\<rparr>\<rparr>\<rparr>)"

lemma send_lost:
  "sendService (Some 1) (Some 99) (Some 3) (Some 0) True (Some []) (sRt (run_state False (Some 1) (Some (a_service True True)) [(1, 1)] [] q m None)) =
     Done () (sRt (stuck_at q m))"
proof -
  let ?r = "sRt (run_state False (Some 1) (Some (a_service True True)) [(1, 1)] [] q m None)"
  have p: "rtPool ?r = \<lparr>mPool = replicate 10 new_msg, mPoolLock = False\<rparr>" by (simp add: run_state_def)
  then have "pool_ok (rtPool ?r)" by (simp add: pool_ok_def reset_new)
  with p show ?thesis
    by (subst sendService_run) (simp_all, simp_all add: send_run run_state_def stuck_at_def popped_def to_i32_def)
qed

lemma stuck_1: "runs_to (stuck_at (InLua 1 0 []) (MStart []))"
proof -
  let ?s = "run_state False (Some 1) (Some (a_service True True)) [(1, 1)] [] (InLua 1 0 []) (MStart []) None"
  have h: "rtHeap (sRt ?s) 1 \<noteq> None" by (simp add: run_state_def)
  have "alive 1 (lua_act a_lua two_sends []) (sRt ?s) = Done (Running []) (sRt (stuck_at (InLua 1 0 []) (MStart [])))"
    using h send_lost [of "InLua 1 0 []" "MStart []"] by (auto simp: alive_run catch_def)
  moreover have "set_pc 0 (InLua 1 0 []) (sRt (stuck_at (InLua 1 0 []) (MStart []))) ?s = stuck_at (InLua 1 0 []) (MStart [])"
    by (simp add: set_pc_def stuck_at_def run_state_def)
  ultimately have "worker_next 0 (alive 1 (lua_act a_lua two_sends []) (sRt ?s)) (after_script 1 0) ?s = stuck_at (InLua 1 0 []) (MStart [])"
    by (simp add: worker_next_def)
  with w_lua [of ?s 0 1 0 "[]" two_sends a_lua] have "worker_step a_lua 0 ?s (stuck_at (InLua 1 0 []) (MStart []))"
    by (simp add: run_state_def)
  then show ?thesis by (rule worker_run [OF run_6, rotated 2]) (simp_all add: run_state_def)
qed

lemma stuck_2: "runs_to (stuck_at (Hung (InLua 1 0 [])) (MStart []))"
proof -
  let ?s = "stuck_at (InLua 1 0 []) (MStart [])"
  have h: "rtHeap (sRt ?s) 1 \<noteq> None" "mPoolLock (rtPool (sRt ?s))" by (simp_all add: run_state_def stuck_at_def)
  have "sendService (Some 1) (Some 99) (Some 3) (Some 0) True (Some []) (sRt ?s) = Spin (sRt ?s)"
    using h(2) by (simp add: sendService_def poolop_pop_held)
  with h(1) have "alive 1 (lua_act a_lua two_sends []) (sRt ?s) = Spin (sRt ?s)" by (auto simp: alive_run catch_def)
  moreover have "set_pc 0 (Hung (InLua 1 0 [])) (sRt ?s) ?s = stuck_at (Hung (InLua 1 0 [])) (MStart [])" "sPc ?s 0 = InLua 1 0 []"
    by (simp_all add: set_pc_def stuck_at_def run_state_def)
  ultimately have "worker_next 0 (alive 1 (lua_act a_lua two_sends []) (sRt ?s)) (after_script 1 0) ?s = stuck_at (Hung (InLua 1 0 [])) (MStart [])"
    by (simp add: worker_next_def)
  with w_lua [of ?s 0 1 0 "[]" two_sends a_lua] have "worker_step a_lua 0 ?s (stuck_at (Hung (InLua 1 0 [])) (MStart []))"
    by (simp add: run_state_def stuck_at_def)
  then show ?thesis by (rule worker_run [OF stuck_1, rotated 2]) (simp_all add: run_state_def stuck_at_def)
qed

lemma stuck_3: "runs_to (stuck_at (Hung (InLua 1 0 [])) (MJoin False 0))"
  by (rule main_run [OF stuck_2])
     (simp add: stuck_at_def run_state_def,
      use m_start [of "stuck_at (Hung (InLua 1 0 [])) (MStart [])" "[]" "EndScript False" a_lua]
      in \<open>simp add: run_defs stuck_at_def\<close>)

theorem exit_waits_for_workers_witness:
  "\<exists>s. runs_to s \<and> sMain s = MJoin False 0 \<and>
     (\<forall>t. reach (\<lambda>u. u = s) (server_step a_lua) t \<longrightarrow> sMain t = MJoin False 0)"
proof -
  let ?s = "stuck_at (Hung (InLua 1 0 [])) (MJoin False 0)"
  have s: "sMain ?s = MJoin False 0" "sPc ?s 0 = Hung (InLua 1 0 [])" by (simp_all add: stuck_at_def run_state_def)
  have "(\<lambda>s. s = server_start 1 [''srv''] \<and> 0 \<le> (1 :: int)) = (\<lambda>s. s = server_start 1 [''srv''])" by simp
  with stuck_3 have "reach (\<lambda>s. s = server_start 1 [''srv''] \<and> 0 \<le> (1 :: int)) (server_step a_lua) ?s" by simp
  note w = conjunct2 [OF exit_waits_for_workers [OF this], rule_format, of False 0 "InLua 1 0 []"]
  have "sMain t = MJoin False 0" if "reach (\<lambda>u. u = ?s) (server_step a_lua) t" for t
    by (rule w [OF _ that]) (intro conjI s, simp)
  with s(1) stuck_3 show ?thesis by blast
qed

end
