(* ===== verification/CoreCalls.thy ===== *)
theory CoreCalls
  imports LuaValue
begin

text \<open>
  The calls of the core table in \<open>src/lua/luaApi.cpp\<close> that talk to the clock and the terminal, and the
  printer of a Lua stack beside them.  The clock counts nanoseconds since the epoch, \<open>fixed\<close> is
  \<open>std::to_string\<close> of a double, \<open>dbl\<close> the conversion of an integer to a double.  The address in a light
  or full userdata is printed as a signed 64-bit number.  The call of \<open>src/uuid\<close> is at the end.
\<close>

section \<open>The clock\<close>

text \<open>\<open>time_point_cast\<close> rounds towards zero.\<close>

definition time_point_cast :: "int \<Rightarrow> int \<Rightarrow> int" where
  "time_point_cast unit ns = (if 0 \<le> ns then ns div unit else - ((- ns) div unit))"

definition core_time :: "int \<Rightarrow> 'f lua_val list" where
  "core_time now = [LInt (time_point_cast 1000000000 now)]"

definition core_mstime :: "int \<Rightarrow> 'f lua_val list" where
  "core_mstime now = [LInt (time_point_cast 1000000 now)]"

lemma cast_cast:
  assumes "0 < a" "0 < b"
  shows "time_point_cast a (time_point_cast b ns) = time_point_cast (b * a) ns"
proof (cases "0 \<le> ns")
  case True
  then have "0 \<le> ns div b" using assms(2) by (simp add: pos_imp_zdiv_nonneg_iff)
  with True assms show ?thesis by (simp add: time_point_cast_def zdiv_zmult2_eq)
next
  case False
  then have n: "0 \<le> - ns" by simp
  then have d: "0 \<le> (- ns) div b" using assms(2) by (simp add: pos_imp_zdiv_nonneg_iff)
  have "(- ns) div b div a = (- ns) div (b * a)" using assms by (simp add: zdiv_zmult2_eq)
  with False d show ?thesis by (cases "(- ns) div b = 0") (auto simp: time_point_cast_def)
qed

text \<open>The two clocks agree, before the epoch too: seconds are what is left of the milliseconds.\<close>

lemma clocks_agree: "core_mstime now = [LInt m] \<Longrightarrow> core_time now = [LInt (time_point_cast 1000 m)]"
  by (auto simp: core_time_def core_mstime_def cast_cast)

section \<open>The terminal\<close>

text \<open>\<open>key\<close>: the character that is waiting, if any; the end of the input is -1.\<close>

definition luaGetChar :: "int option \<Rightarrow> 'f lua_val list" where
  "luaGetChar key = (case key of None \<Rightarrow> [] | Some c \<Rightarrow> [LInt c])"

text \<open>
  What \<open>printf\<close> writes for a format alone: \<open>None\<close> when it asks for an argument, or for a conversion
  that does not exist, which is undefined.
\<close>

fun printf :: "string \<Rightarrow> string option" where
  "printf [] = Some []"
| "printf (c # cs) =
     (if c = CHR ''%'' then
        (case cs of
           [] \<Rightarrow> None
         | d # ds \<Rightarrow> if d = CHR ''%'' then map_option (Cons (CHR ''%'')) (printf ds) else None)
      else map_option (Cons c) (printf cs))"

definition core_print :: "('f \<Rightarrow> string) \<Rightarrow> 'f lua_val \<Rightarrow> string res" where
  "core_print fmt v =
     rbind (check_string fmt v) (\<lambda>format. case printf format of None \<Rightarrow> Raises OutOfBounds | Some out \<Rightarrow> Ok out)"

lemma printf_plain: "CHR ''%'' \<notin> set t \<Longrightarrow> printf t = Some t"
  by (induction t rule: printf.induct) auto

lemma printf_shorter: "printf t = Some out \<Longrightarrow> length out \<le> length t \<and> (CHR ''%'' \<in> set t \<longrightarrow> length out < length t)"
proof (induction t arbitrary: out rule: printf.induct)
  case (2 c cs)
  show ?case
  proof (cases "c = CHR ''%''")
    case True
    with "2.prems" obtain ds o' where "cs = CHR ''%'' # ds" "printf ds = Some o'" "out = CHR ''%'' # o'"
      by (auto split: list.splits if_splits)
    with "2.IH"(1) [OF True, of "CHR ''%''" ds o'] show ?thesis by simp
  next
    case False
    with "2.prems" obtain o' where "printf cs = Some o'" "out = c # o'" by auto
    with "2.IH"(2) [OF False, of o'] False show ?thesis by simp
  qed
qed simp

text \<open>
  \<open>core.print\<close> hands the text of a script to \<open>printf\<close> as its format: it writes the text as it is
  exactly when there is no percent sign in it.  With one, something else is written, or the
  call reads arguments that are not there.
\<close>

lemma print_verbatim_iff: "core_print fmt (LStr t) = Ok (c_str t) \<longleftrightarrow> CHR ''%'' \<notin> set (c_str t)"
proof
  assume "core_print fmt (LStr t) = Ok (c_str t)"
  then have "printf (c_str t) = Some (c_str t)" by (simp add: core_print_def split: option.splits)
  with printf_shorter [OF this] show "CHR ''%'' \<notin> set (c_str t)" by auto
qed (simp add: core_print_def printf_plain)

section \<open>The stack\<close>

fun lua_typename :: "'f lua_val \<Rightarrow> string" where
  "lua_typename LNil = ''nil''"
| "lua_typename (LBool b) = ''boolean''"
| "lua_typename (LInt i) = ''number''"
| "lua_typename (LFloat x) = ''number''"
| "lua_typename (LStr s) = ''string''"
| "lua_typename (LTable t) = ''table''"
| "lua_typename (LFunction n) = ''function''"
| "lua_typename (LUserdata p) = ''userdata''"

fun stack_value :: "('f \<Rightarrow> string) \<Rightarrow> (int \<Rightarrow> 'f) \<Rightarrow> 'f lua_val \<Rightarrow> string" where
  "stack_value fixed dbl LNil = ''nil''"
| "stack_value fixed dbl (LBool b) = (if b then ''1'' else ''0'')"
| "stack_value fixed dbl (LInt i) = fixed (dbl i)"
| "stack_value fixed dbl (LFloat x) = fixed x"
| "stack_value fixed dbl (LStr s) = c_str s"
| "stack_value fixed dbl (LTable t) = ''table''"
| "stack_value fixed dbl (LFunction n) = ''function''"
| "stack_value fixed dbl (LUserdata p) = int_digits (signed_take_bit 63 (int p))"

definition stack_line :: "('f \<Rightarrow> string) \<Rightarrow> (int \<Rightarrow> 'f) \<Rightarrow> nat \<Rightarrow> nat \<Rightarrow> 'f lua_val \<Rightarrow> string" where
  "stack_line fixed dbl n i v =
     int_digits (int i - int n - 1) @ '' '' @ int_digits (int i) @ '' ('' @ lua_typename v @ '')'' @
     stack_value fixed dbl v @ [CHR 0x0A]"

text \<open>The loop, from the top of the stack down.\<close>

fun stack_lines :: "('f \<Rightarrow> string) \<Rightarrow> (int \<Rightarrow> 'f) \<Rightarrow> 'f lua_val list \<Rightarrow> nat \<Rightarrow> string" where
  "stack_lines fixed dbl stack 0 = []"
| "stack_lines fixed dbl stack (Suc i) =
     stack_line fixed dbl (length stack) (Suc i) (stack ! i) @ stack_lines fixed dbl stack i"

definition luaPrintStack :: "('f \<Rightarrow> string) \<Rightarrow> (int \<Rightarrow> 'f) \<Rightarrow> 'f lua_val list \<Rightarrow> string" where
  "luaPrintStack fixed dbl stack =
     ''==============Lua Stack =============='' @ [CHR 0x0A] @ stack_lines fixed dbl stack (length stack) @
     ''==============Lua Stack End=============='' @ [CHR 0x0A, CHR 0x0A]"

text \<open>One line for each slot, the top first, under its index from the bottom and from the top.\<close>

lemma stack_lines_slots:
  "n \<le> length stack \<Longrightarrow>
   stack_lines fixed dbl stack n =
     concat (map (\<lambda>(i, v). stack_line fixed dbl (length stack) i v) (rev (enumerate 1 (take n stack))))"
  by (induction n) (simp_all add: take_Suc_conv_app_nth enumerate_append_eq)

section \<open>The dump of a crash\<close>

text \<open>
  \<open>printStackTrace\<close> of \<open>src/main.cpp\<close>, in debug builds for Windows: what it logs for the addresses that
  \<open>StackWalk64\<close> finds.  \<open>names\<close> is \<open>SymFromAddr\<close>: a name and the address where the function starts.
\<close>

fun hex_text :: "nat \<Rightarrow> string" where
  "hex_text n = (if n < 16 then [''0123456789abcdef'' ! n] else hex_text (n div 16) @ [''0123456789abcdef'' ! (n mod 16)])"

declare hex_text.simps [simp del]

definition printStackTrace :: "(64 word \<Rightarrow> (string \<times> 64 word) option) \<Rightarrow> 64 word list \<Rightarrow> string list" where
  "printStackTrace names frames =
     ''Crash!'' # map (\<lambda>a. case names a of
         Some (name, start) \<Rightarrow> ''Function:'' @ c_str name @ '' - Address:'' @ hex_text (unat start)
       | None \<Rightarrow> ''Address: '' @ hex_text (unat a)) frames"

text \<open>Two addresses never have the same text, which is never empty.\<close>

definition hex_value :: "string \<Rightarrow> nat" where
  "hex_value t = foldl (\<lambda>n c. 16 * n + length (takeWhile (\<lambda>d. d \<noteq> c) ''0123456789abcdef'')) 0 t"

lemma hex_text_value: "hex_value (hex_text n) = n \<and> hex_text n \<noteq> []"
proof (induction n rule: hex_text.induct)
  case (1 n)
  have digit: "length (takeWhile (\<lambda>d. d \<noteq> ''0123456789abcdef'' ! k) ''0123456789abcdef'') = k" if "k < 16" for k
  proof -
    have "\<forall>k \<in> {..<16}. length (takeWhile (\<lambda>d. d \<noteq> ''0123456789abcdef'' ! k) ''0123456789abcdef'') = k"
      by (simp add: lessThan_nat_numeral lessThan_Suc)
    with that show ?thesis by blast
  qed
  show ?case
  proof (cases "n < 16")
    case True
    with digit [OF True] show ?thesis by (subst (1 2) hex_text.simps) (simp add: hex_value_def)
  next
    case False
    with 1 digit [of "n mod 16"] show ?thesis
      by (subst (1 2) hex_text.simps) (simp add: hex_value_def)
  qed
qed

lemma printStackTrace_tells_apart:
  assumes "\<And>a. names a = None" and "printStackTrace names xs = printStackTrace names ys"
  shows "xs = ys"
proof -
  have "a = b" if "hex_text (unat a) = hex_text (unat b)" for a b :: "64 word"
    using hex_text_value [of "unat a"] hex_text_value [of "unat b"] that by (metis word_unat_eq_iff)
  then have "inj (\<lambda>a :: 64 word. ''Address: '' @ hex_text (unat a))" by (auto intro!: injI)
  with assms show ?thesis by (simp add: printStackTrace_def inj_map_eq_map)
qed

section \<open>Identifiers\<close>

text \<open>
  \<open>src/uuid/uuid.cpp\<close>.  stduuid is not part of the repository: \<open>random_uuid\<close> is what its generator makes
  of a Mersenne twister seeded with so many words.  The call draws as many as the twister's state has,
  \<open>rd k\<close> being the device's answers.  \<open>checked\<close> tells a build with assertions; \<open>None\<close> is the end of the
  process in one of them.
\<close>

record 'u uuids =
  random_uuid :: "32 word list \<Rightarrow> 'u"
  is_nil :: "'u \<Rightarrow> bool"
  as_bytes :: "'u \<Rightarrow> 8 word list"
  is_random_based :: "'u \<Rightarrow> bool"
  is_rfc :: "'u \<Rightarrow> bool"
  to_string :: "'u \<Rightarrow> string"

definition uuid :: "bool \<Rightarrow> 'u uuids \<Rightarrow> (nat \<Rightarrow> 32 word) \<Rightarrow> 'f lua_val list option" where
  "uuid checked lib rd =
     (let i = random_uuid lib (map rd [0 ..< 624]) in
      if checked \<and> (is_nil lib i \<or> length (as_bytes lib i) \<noteq> 16 \<or> \<not> is_random_based lib i \<or> \<not> is_rfc lib i)
      then None else Some [LStr (c_str (to_string lib i))])"

text \<open>With a generator of random-based identifiers the assertions change nothing.\<close>

lemma uuid_checks:
  assumes "\<And>ws. let i = random_uuid lib ws in
    \<not> is_nil lib i \<and> length (as_bytes lib i) = 16 \<and> is_random_based lib i \<and> is_rfc lib i"
  shows "uuid True lib rd = uuid False lib rd \<and> uuid True lib rd \<noteq> (None :: 'f lua_val list option)"
  using assms [of "map rd [0 ..< 624]"] by (simp add: uuid_def Let_def)

end
