(* ===== verification/Boot.thy ===== *)
theory Boot
  imports Scheduler LuaValue
begin

text \<open>
  \<open>src/main.cpp\<close> up to the start script: the configuration table, the log, and the state in which
  the start script runs.  What the operating system, the Lua library and spdlog answer is the
  record \<open>platform\<close>; \<open>debug\<close> tells a build with \<open>_DEBUG\<close>.  An error of a Lua call here has no
  protected call around it: Lua's panic aborts the process, a fault.
\<close>

section \<open>Reading the configuration\<close>

record ServerConfig =
  threadNum :: int
  startScript :: string
  logFilePath :: string
  logLevel :: string
  cPath :: string
  luaPath :: string
  servicePaths :: "string list"
  configArgs :: "string list"

definition ServerConfig_ctor :: "bool \<Rightarrow> int \<Rightarrow> ServerConfig" where
  "ServerConfig_ctor debug hardware_concurrency =
     \<lparr>threadNum = hardware_concurrency, startScript = [], logFilePath = [],
      logLevel = (if debug then ''debug'' else ''info''), cPath = [], luaPath = [], servicePaths = [], configArgs = []\<rparr>"

text \<open>
  How Lua converts: \<open>fmt\<close> prints a float, \<open>str2number\<close> reads a text, \<open>dbl\<close> makes a float of an
  integer.  \<open>trunc\<close> is the integral part; outside 32 bits the conversion to \<open>int32_t\<close> is undefined.
\<close>

record 'f numbers =
  fmt :: "'f \<Rightarrow> string"
  str2number :: "string \<Rightarrow> 'f option"
  dbl :: "int \<Rightarrow> 'f"
  trunc :: "'f \<Rightarrow> int option"

definition check_number :: "'f numbers \<Rightarrow> 'f lua_val \<Rightarrow> 'f res" where
  "check_number n v =
     (case v of
        LInt i \<Rightarrow> Ok (dbl n i)
      | LFloat x \<Rightarrow> Ok x
      | LStr s \<Rightarrow> (case str2number n s of None \<Rightarrow> Raises LuaError | Some x \<Rightarrow> Ok x)
      | _ \<Rightarrow> Raises LuaError)"

definition number_to_i32 :: "'f numbers \<Rightarrow> 'f \<Rightarrow> int res" where
  "number_to_i32 n x =
     (case trunc n x of
        None \<Rightarrow> Raises SignedOverflow
      | Some i \<Rightarrow> if - 2147483648 \<le> i \<and> i \<le> i32_max then Ok i else Raises SignedOverflow)"

text \<open>The strings of an array, its keys unread; what is no table is walked all the same.\<close>

definition push_strings :: "'f numbers \<Rightarrow> string list \<Rightarrow> 'f lua_val \<Rightarrow> string list res" where
  "push_strings n xs v =
     (case v of
        LTable t \<Rightarrow>
          each (fmt n) (\<lambda>_. False) (\<lambda>ys e. rbind (check_string (fmt n) (snd e)) (\<lambda>s. Ok (ys @ [s]))) xs t
      | _ \<Rightarrow> Raises TypeConfusion)"

definition read_setting ::
  "'f numbers \<Rightarrow> ServerConfig \<Rightarrow> 'f lua_val \<times> 'f lua_val \<Rightarrow> ServerConfig res"
where
  "read_setting n config e =
     rbind (check_string (fmt n) (fst e)) (\<lambda>key.
       if key = ''thread'' then
         rbind (check_number n (snd e)) (\<lambda>x. rbind (number_to_i32 n x) (\<lambda>i. Ok (config\<lparr>threadNum := i\<rparr>)))
       else if key = ''start'' then
         rbind (check_string (fmt n) (snd e)) (\<lambda>s. Ok (config\<lparr>startScript := s\<rparr>))
       else if key = ''logFile'' then
         rbind (check_string (fmt n) (snd e)) (\<lambda>s. Ok (config\<lparr>logFilePath := s\<rparr>))
       else if key = ''luaPath'' then
         rbind (check_string (fmt n) (snd e)) (\<lambda>s. Ok (config\<lparr>luaPath := s\<rparr>))
       else if key = ''cPath'' then
         rbind (check_string (fmt n) (snd e)) (\<lambda>s. Ok (config\<lparr>cPath := s\<rparr>))
       else if key = ''servicePath'' then
         rbind (push_strings n (servicePaths config) (snd e)) (\<lambda>xs. Ok (config\<lparr>servicePaths := xs\<rparr>))
       else if key = ''args'' then
         rbind (push_strings n (configArgs config) (snd e)) (\<lambda>xs. Ok (config\<lparr>configArgs := xs\<rparr>))
       else Ok config)"

text \<open>\<open>readConfig\<close> on the global \<open>Config\<close>; \<open>None\<close> when it answers false.\<close>

definition readConfig ::
  "'f numbers \<Rightarrow> ServerConfig \<Rightarrow> 'f lua_val \<Rightarrow> ServerConfig option res"
where
  "readConfig n config g =
     (case g of
        LTable t \<Rightarrow>
          rbind (each (fmt n) (\<lambda>_. True) (read_setting n) config t) (\<lambda>c.
            if startScript c = '''' then Ok None
            else if threadNum c \<le> 0 then Ok None
            else Ok (Some c))
      | _ \<Rightarrow> Ok None)"

section \<open>The log\<close>

datatype log_level = LogDebug | LogInfo | LogWarn | LogErr

definition log_level_of :: "string \<Rightarrow> log_level" where
  "log_level_of name =
     (if name = ''info'' then LogInfo else if name = ''error'' then LogErr
      else if name = ''warn'' then LogWarn else LogDebug)"

record 'f platform = "'f numbers" +
  hardware_threads :: int
  loadfile :: "string \<Rightarrow> bool"
  run_config :: "string \<Rightarrow> string list \<Rightarrow> 'f lua_val option"
  parent_path :: "string \<Rightarrow> string"
  path_exists :: "string \<Rightarrow> bool"
  create_dirs :: "string \<Rightarrow> bool"
  open_sink :: "string \<Rightarrow> bool"

text \<open>
  The level of the logger and whether it writes to a file; \<open>None\<close> when the file cannot be opened.
  \<open>create_directories\<close> is the overload that throws, outside the \<open>try\<close>.
\<close>

definition setLog :: "('f, 'y) platform_scheme \<Rightarrow> ServerConfig \<Rightarrow> (log_level \<times> bool) option res" where
  "setLog pl config =
     (let level = log_level_of (logLevel config)
      in if logFilePath config = [] then Ok (Some (level, False))
         else
           (let dirPath = parent_path pl (logFilePath config)
            in if \<not> path_exists pl dirPath \<and> \<not> create_dirs pl dirPath then Raises UncaughtException
               else if open_sink pl (logFilePath config) then Ok (Some (level, True))
               else Ok None))"

section \<open>\<open>main\<close>\<close>

text \<open>How \<open>main\<close> goes before its loop: it returns, or runs the start script.\<close>

datatype boot = Returns int | RunStart string "string list" "string \<times> string"

definition add_paths :: "string list \<Rightarrow> ('z runtime_scheme, unit) op" where
  "add_paths ps = foldr (\<lambda>p k. andthen (ServiceMgr_addServicePath p) k) ps (ret ())"

definition boot_with :: "('f, 'y) platform_scheme \<Rightarrow> ServerConfig \<Rightarrow> ('z core_scheme, boot) op" where
  "boot_with pl config =
     andthen (luaSetLuaPath (luaPath config))
    (andthen (luaSetCPath (cPath config))
    (bind (lift_res (setLog pl config)) (\<lambda>l.
       if l = None then ret (Returns (-1))
       else
         bind (luaNewState []) (\<lambda>paths.
           if \<not> loadfile pl (startScript config) then ret (Returns (-1))
           else
             andthen (add_paths (servicePaths config))
            (andthen (workerop (WorkerMgr_initWorker (threadNum config)))
              (ret (RunStart (startScript config) (map c_str (configArgs config)) paths)))))))"

definition main_boot :: "bool \<Rightarrow> ('f, 'y) platform_scheme \<Rightarrow> string list \<Rightarrow> ('z core_scheme, boot) op" where
  "main_boot debug pl argv =
     (if length argv < 2 then ret (Returns 0)
      else if \<not> loadfile pl (argv ! 1) then ret (Returns (-1))
      else
        (case run_config pl (argv ! 1) (drop 2 argv) of
           None \<Rightarrow> ret (Returns (-1))
         | Some g \<Rightarrow>
             bind (lift_res (readConfig (numbers.truncate pl) (ServerConfig_ctor debug (hardware_threads pl)) g)) (\<lambda>r.
               case r of None \<Rightarrow> ret (Returns (-1)) | Some config \<Rightarrow> boot_with pl config)))"

section \<open>What a configuration means\<close>

text \<open>The value of a field: what the table holds under its key, the default without one.\<close>

definition setting :: "'f lua_table \<Rightarrow> string \<Rightarrow> 'a \<Rightarrow> ('f lua_val \<Rightarrow> 'a) \<Rightarrow> 'a" where
  "setting t key d f = (if lt_get t (LStr key) = LNil then d else f (lt_get t (LStr key)))"

definition string_at :: "'f numbers \<Rightarrow> 'f lua_val \<Rightarrow> string" where
  "string_at n v = c_str (the (lua_tostring (fmt n) v))"

definition strings_at :: "'f numbers \<Rightarrow> 'f lua_val \<Rightarrow> string list" where
  "strings_at n v = (case v of LTable u \<Rightarrow> map (\<lambda>e. string_at n (snd e)) u | _ \<Rightarrow> [])"

definition number_at :: "'f numbers \<Rightarrow> 'f lua_val \<Rightarrow> int" where
  "number_at n v = (case rbind (check_number n v) (number_to_i32 n) of Ok i \<Rightarrow> i | _ \<Rightarrow> 0)"

definition configured :: "'f numbers \<Rightarrow> ServerConfig \<Rightarrow> 'f lua_table \<Rightarrow> ServerConfig" where
  "configured n c t = c
     \<lparr>threadNum := setting t ''thread'' (threadNum c) (number_at n),
      startScript := setting t ''start'' (startScript c) (string_at n),
      logFilePath := setting t ''logFile'' (logFilePath c) (string_at n),
      cPath := setting t ''cPath'' (cPath c) (string_at n),
      luaPath := setting t ''luaPath'' (luaPath c) (string_at n),
      servicePaths := setting t ''servicePath'' (servicePaths c) (\<lambda>v. servicePaths c @ strings_at n v),
      configArgs := setting t ''args'' (configArgs c) (\<lambda>v. configArgs c @ strings_at n v)\<rparr>"

text \<open>Entries of the types that the reader asks for.\<close>

definition setting_typed :: "'f numbers \<Rightarrow> 'f lua_val \<times> 'f lua_val \<Rightarrow> bool" where
  "setting_typed n e \<longleftrightarrow> snd e \<noteq> LNil \<and>
     (fst e = LStr ''thread'' \<longrightarrow> (\<exists>i. rbind (check_number n (snd e)) (number_to_i32 n) = Ok i)) \<and>
     (fst e \<in> LStr ` {''start'', ''logFile'', ''luaPath'', ''cPath''} \<longrightarrow> lua_tostring (fmt n) (snd e) \<noteq> None) \<and>
     (fst e \<in> LStr ` {''servicePath'', ''args''} \<longrightarrow>
        (\<exists>u. snd e = LTable u \<and> (\<forall>x \<in> set u. lua_tostring (fmt n) (snd x) \<noteq> None)))"

lemma push_strings_run:
  assumes "\<forall>x \<in> set u. lua_tostring (fmt n) (snd x) \<noteq> None"
  shows "push_strings n xs (LTable u) = Ok (xs @ strings_at n (LTable u))"
proof -
  have "rfold (\<lambda>ys e. rbind (check_string (fmt n) (snd e)) (\<lambda>s. Ok (ys @ [s]))) xs u =
      Ok (xs @ map (\<lambda>e. string_at n (snd e)) u)"
    using assms by (induction u arbitrary: xs) (auto simp: check_string_def string_at_def)
  moreover have "unconverted (\<lambda>_. False) u" by (simp add: unconverted_def)
  ultimately show ?thesis by (simp add: push_strings_def each_plain strings_at_def)
qed

lemma read_number:
  "rbind (check_number n v) (number_to_i32 n) = Ok i \<Longrightarrow>
   rbind (check_number n v) (\<lambda>x. rbind (number_to_i32 n x) (\<lambda>i. Ok (f i))) = Ok (f (number_at n v))"
  by (auto simp: rbind_Ok number_at_def)

lemma setting_Cons:
  "setting (e # t) key d f = (if fst e = LStr key then (if snd e = LNil then d else f (snd e)) else setting t key d f)"
  by (simp add: setting_def lt_get_def)

lemma setting_absent: "LStr key \<notin> fst ` set t \<Longrightarrow> setting t key d f = d"
proof -
  assume "LStr key \<notin> fst ` set t"
  then have "map_of t (LStr key) = None" by (simp add: map_of_eq_None_iff)
  then show ?thesis by (simp add: setting_def lt_get_def)
qed

text \<open>One entry that is read, and the rest of the table.\<close>

lemma read_setting_run:
  assumes "setting_typed n e" and "fst e = LStr k" "c_str k = k" and "LStr k \<notin> fst ` set t"
  shows "\<exists>c'. read_setting n c e = Ok c' \<and> configured n c' t = configured n c (e # t)"
proof -
  have nn: "snd e \<noteq> LNil" using assms(1) by (simp add: setting_typed_def)
  have absent: "setting t k (d :: int) f = d" "setting t k (d' :: string) f' = d'" "setting t k (ds :: string list) fs = ds"
    for d f d' f' ds fs by (rule setting_absent [OF assms(4)])+
  have str: "check_string (fmt n) (snd e) = Ok (string_at n (snd e))"
    if "k \<in> {''start'', ''logFile'', ''luaPath'', ''cPath''}"
  proof -
    from that have "fst e \<in> LStr ` {''start'', ''logFile'', ''luaPath'', ''cPath''}" unfolding assms(2) by (rule imageI)
    then have "lua_tostring (fmt n) (snd e) \<noteq> None" using assms(1) by (simp only: setting_typed_def simp_thms)
    then obtain s where "lua_tostring (fmt n) (snd e) = Some s" by auto
    then show ?thesis by (simp add: check_string_def string_at_def)
  qed
  have list: "push_strings n xs (snd e) = Ok (xs @ strings_at n (snd e))" if "k \<in> {''servicePath'', ''args''}" for xs
  proof -
    from that have "fst e \<in> LStr ` {''servicePath'', ''args''}" unfolding assms(2) by (rule imageI)
    then have "\<exists>u. snd e = LTable u \<and> (\<forall>x \<in> set u. lua_tostring (fmt n) (snd x) \<noteq> None)"
      using assms(1) by (simp only: setting_typed_def simp_thms)
    then obtain u where u: "snd e = LTable u" "\<forall>x \<in> set u. lua_tostring (fmt n) (snd x) \<noteq> None" by (elim exE conjE)
    show ?thesis unfolding u(1) by (rule push_strings_run [OF u(2)])
  qed
  note [simp] = assms(2,3) setting_Cons configured_def read_setting_def nn
  consider "k = ''thread''" | "k = ''start''" | "k = ''logFile''" | "k = ''luaPath''" | "k = ''cPath''"
    | "k = ''servicePath''" | "k = ''args''"
    | "k \<notin> {''thread'', ''start'', ''logFile'', ''luaPath'', ''cPath'', ''servicePath'', ''args''}" by auto
  then show ?thesis
  proof cases
    case 1
    then obtain i where "rbind (check_number n (snd e)) (number_to_i32 n) = Ok i"
      using assms(1,2) by (auto simp: setting_typed_def)
    from read_number [OF this, where f = "\<lambda>i. c\<lparr>threadNum := i\<rparr>"] 1 absent show ?thesis by (simp add: c_str_def)
  next
    case 8
    then show ?thesis by simp
  qed (use str list absent in \<open>simp_all add: c_str_def\<close>)
qed

lemma read_settings_run:
  assumes "str_keys t" and "\<forall>e \<in> set t. setting_typed n e"
  shows "rfold (read_setting n) c t = Ok (configured n c t)"
  using assms
proof (induction t arbitrary: c)
  case Nil
  then show ?case by (simp add: configured_def setting_def)
next
  case (Cons e t)
  then obtain k where k: "fst e = LStr k" "c_str k = k" by (auto simp: str_keys_def)
  have "LStr k \<notin> fst ` set t" using Cons.prems(1) k(1) by (auto simp: str_keys_def)
  with read_setting_run [OF _ k] Cons.prems(2) obtain c' where
    c: "read_setting n c e = Ok c'" "configured n c' t = configured n c (e # t)" by (metis list.set_intros(1))
  have "str_keys t" using Cons.prems(1) by (simp add: str_keys_def)
  with Cons.IH [of c'] Cons.prems(2) c show ?case by simp
qed

text \<open>
  C31: from a table whose keys are strings and whose entries have the types asked for,
  \<open>readConfig\<close> reads each field from under its key, whatever their order, and accepts exactly the
  tables with a start script and a positive number of threads; other keys, \<open>logLevel\<close> included,
  change nothing.
\<close>

theorem readConfig_reads:
  assumes "str_keys t" and "\<forall>e \<in> set t. setting_typed n e"
  shows "readConfig n c (LTable t) = Ok (let r = configured n c t in
      if startScript r \<noteq> '''' \<and> 0 < threadNum r then Some r else None) \<and>
    logLevel (configured n c t) = logLevel c"
  using read_settings_run [OF assms] by (auto simp: readConfig_def each_plain [OF str_keys_unconverted [OF assms(1)]] Let_def configured_def)

section \<open>The state of the start script\<close>

lemma add_paths_run: "add_paths ps s = Done () (s\<lparr>mServicePaths := mServicePaths s @ ps\<rparr>)"
  by (induction ps arbitrary: s) (simp_all add: add_paths_def ServiceMgr_addServicePath_def)

lemma boot_with_run:
  "boot_with pl c s = Done (RunStart script args paths) t \<Longrightarrow>
   script = startScript c \<and> args = map c_str (configArgs c) \<and> paths = (c_str (luaPath c), c_str (cPath c)) \<and>
   t = s\<lparr>LuaPath := luaPath c, CPath := cPath c, mServicePaths := mServicePaths s @ servicePaths c,
         rtWorkers := init_loop [1 .. threadNum c] (rtWorkers s)\<rparr>"
  by (cases "setLog pl c")
     (auto simp: boot_with_def lift_res_def luaSetLuaPath_def luaSetCPath_def luaNewState_def add_paths_run zoom_def
        WorkerMgr_initWorker_def split: if_splits)

text \<open>
  C30: when \<open>main\<close> comes to run the start script, the server is in the state in which the
  transition system of the scripts and workers starts, for the configured threads and service
  paths: every worker free, no service, the message pool full and unlocked, and at least one worker.
  The start script has a name, and the Lua states will search the configured paths.
\<close>

theorem main_boot_state:
  fixes pl :: "('f, 'y) platform_scheme"
  assumes "main_boot debug pl argv (core_init (runtime_init 0 [])) = Done (RunStart script args paths) s"
  shows "\<exists>g c. run_config pl (argv ! 1) (drop 2 argv) = Some g \<and>
    readConfig (numbers.truncate pl) (ServerConfig_ctor debug (hardware_threads pl)) g = Ok (Some c) \<and>
    s = sRt (server_start (threadNum c) (servicePaths c))\<lparr>LuaPath := luaPath c, CPath := cPath c\<rparr> \<and>
    script = startScript c \<and> script \<noteq> '''' \<and> 1 \<le> threadNum c \<and> paths = (c_str (luaPath c), c_str (cPath c))"
proof -
  let ?read = "\<lambda>g. readConfig (numbers.truncate pl) (ServerConfig_ctor debug (hardware_threads pl)) g"
  from assms obtain g where g: "run_config pl (argv ! 1) (drop 2 argv) = Some g"
    and r: "bind (lift_res (?read g)) (\<lambda>r. case r of None \<Rightarrow> ret (Returns (-1)) | Some config \<Rightarrow> boot_with pl config)
        (core_init (runtime_init 0 [])) = Done (RunStart script args paths) s"
    unfolding main_boot_def by (auto split: if_splits option.splits)
  then obtain c where c: "?read g = Ok (Some c)" "boot_with pl c (core_init (runtime_init 0 [])) = Done (RunStart script args paths) s"
    by (cases "?read g") (auto simp: lift_res_def split: option.splits)
  from c(1) have ok: "startScript c \<noteq> ''''" "1 \<le> threadNum c"
    by (auto simp: readConfig_def rbind_Ok split: lua_val.splits if_splits)
  from boot_with_run [OF c(2)] g c(1) ok show ?thesis
    by (simp add: server_start_def core_init_def runtime_init_def runtime.defs)
qed

section \<open>The properties at a concrete configuration\<close>

definition a_config :: "int lua_table" where
  "a_config = [(LStr ''servicePath'', LTable [(LInt 1, LStr ''srv'')]), (LStr ''start'', LStr ''main.lua''),
     (LStr ''logLevel'', LStr ''debug''), (LStr ''thread'', LInt 4)]"

definition a_platform :: "int platform" where
  "a_platform = \<lparr>fmt = int_digits, str2number = (\<lambda>_. None), dbl = id, trunc = Some, hardware_threads = 8,
     loadfile = (\<lambda>_. True), run_config = (\<lambda>_ _. Some (LTable a_config)), parent_path = id,
     path_exists = (\<lambda>_. True), create_dirs = (\<lambda>_. True), open_sink = (\<lambda>_. True)\<rparr>"

lemma a_config_ok:
  "str_keys a_config" "\<forall>e \<in> set a_config. setting_typed (numbers.truncate a_platform) e"
  by (simp_all add: a_config_def str_keys_def c_str_def setting_typed_def a_platform_def numbers.defs
      check_number_def number_to_i32_def i32_max_def)

theorem readConfig_reads_witness:
  "\<exists>c. readConfig (numbers.truncate a_platform) (ServerConfig_ctor False 8) (LTable a_config) = Ok (Some c) \<and>
    threadNum c = 4 \<and> startScript c = ''main.lua'' \<and> servicePaths c = [''srv''] \<and> logLevel c = ''info''"
  using readConfig_reads [OF a_config_ok, of "ServerConfig_ctor False 8"]
  by (simp add: configured_def setting_def a_config_def lt_get_def string_at_def strings_at_def number_at_def
      a_platform_def numbers.defs check_number_def number_to_i32_def i32_max_def ServerConfig_ctor_def c_str_def)

theorem main_boot_state_witness:
  "\<exists>s. main_boot False a_platform [''996server'', ''c.lua''] (core_init (runtime_init 0 [])) =
      Done (RunStart ''main.lua'' [] ('''', '''')) s \<and>
    (\<exists>c :: ServerConfig. 1 \<le> threadNum c \<and> s = sRt (server_start (threadNum c) (servicePaths c))\<lparr>LuaPath := luaPath c, CPath := cPath c\<rparr>)"
proof -
  let ?n = "numbers.truncate a_platform" and ?c = "configured (numbers.truncate a_platform) (ServerConfig_ctor False 8) a_config"
  have c: "startScript ?c = ''main.lua''" "threadNum ?c = 4" "logFilePath ?c = []" "configArgs ?c = []"
    "luaPath ?c = []" "cPath ?c = []"
    by (simp_all add: configured_def setting_def a_config_def lt_get_def string_at_def strings_at_def number_at_def
      a_platform_def numbers.defs check_number_def number_to_i32_def i32_max_def ServerConfig_ctor_def c_str_def)
  have r: "readConfig ?n (ServerConfig_ctor False 8) (LTable a_config) = Ok (Some ?c)"
    using c by (simp add: readConfig_def each_plain [OF str_keys_unconverted [OF a_config_ok(1)]] read_settings_run [OF a_config_ok])
  have l: "loadfile a_platform = (\<lambda>_. True)" "run_config a_platform = (\<lambda>_ _. Some (LTable a_config))" "hardware_threads a_platform = 8"
    by (simp_all add: a_platform_def)
  have "setLog a_platform ?c = Ok (Some (log_level_of (logLevel ?c), False))" by (simp add: setLog_def c Let_def)
  then have "\<exists>s. main_boot False a_platform [''996server'', ''c.lua''] (core_init (runtime_init 0 [])) =
      Done (RunStart ''main.lua'' [] ('''', '''')) s"
    by (simp add: main_boot_def boot_with_def lift_res_def l r c luaSetLuaPath_def luaSetCPath_def luaNewState_def
        add_paths_run zoom_def WorkerMgr_initWorker_def core_init_def runtime_init_def runtime.defs c_str_def)
  then obtain s where s: "main_boot False a_platform [''996server'', ''c.lua''] (core_init (runtime_init 0 [])) =
      Done (RunStart ''main.lua'' [] ('''', '''')) s" ..
  have "\<exists>c :: ServerConfig. 1 \<le> threadNum c \<and> s = sRt (server_start (threadNum c) (servicePaths c))\<lparr>LuaPath := luaPath c, CPath := cPath c\<rparr>"
    using main_boot_state [OF s] by blast
  with s show ?thesis by blast
qed

end
