(* ===== verification/Logging.thy ===== *)
theory Logging
  imports Boot
begin

text \<open>
  \<open>src/log/log.cpp\<close> on the logger that \<open>setLog\<close> of \<open>src/main.cpp\<close> installs: the levels in the order of
  spdlog, and what a script's calls leave in the sinks.  spdlog is not part of the repository; as it
  documents, a line goes to the sinks whose level, beside the logger's, it reaches, and a line that
  cannot be formatted (here: a null text) is reported elsewhere and written nowhere.
\<close>

section \<open>Levels\<close>

fun level_code :: "log_level \<Rightarrow> nat" where
  "level_code LogDebug = 1"
| "level_code LogInfo = 2"
| "level_code LogWarn = 3"
| "level_code LogErr = 4"

lemma level_code_inj: "level_code a = level_code b \<Longrightarrow> a = b"
  by (cases a; cases b) simp_all

instantiation log_level :: linorder
begin

definition less_eq_log_level :: "log_level \<Rightarrow> log_level \<Rightarrow> bool" where
  "less_eq_log_level a b \<longleftrightarrow> level_code a \<le> level_code b"

definition less_log_level :: "log_level \<Rightarrow> log_level \<Rightarrow> bool" where
  "less_log_level a b \<longleftrightarrow> level_code a < level_code b"

instance
  by standard (auto simp: less_eq_log_level_def less_log_level_def intro: level_code_inj)

end

lemma debug_lowest [simp]: "LogDebug \<le> l"
  by (cases l) (simp_all add: less_eq_log_level_def)

section \<open>The logger\<close>

record sink =
  skLevel :: log_level
  skLines :: "(log_level \<times> string) list"

record logger =
  lgLevel :: log_level
  lgSinks :: "sink list"

text \<open>The console first, then the file if there is one; all with the one level.\<close>

definition logger_of :: "log_level \<times> bool \<Rightarrow> logger" where
  "logger_of cfg =
     \<lparr>lgLevel = fst cfg,
      lgSinks = \<lparr>skLevel = fst cfg, skLines = []\<rparr> # (if snd cfg then [\<lparr>skLevel = fst cfg, skLines = []\<rparr>] else [])\<rparr>"

definition sink_it :: "log_level \<Rightarrow> string \<Rightarrow> sink \<Rightarrow> sink" where
  "sink_it lvl line k = (if skLevel k \<le> lvl then k\<lparr>skLines := skLines k @ [(lvl, line)]\<rparr> else k)"

definition log_it :: "log_level \<Rightarrow> string option \<Rightarrow> logger \<Rightarrow> logger" where
  "log_it lvl data lg =
     (case data of
        None \<Rightarrow> lg
      | Some t \<Rightarrow> if lgLevel lg \<le> lvl then lg\<lparr>lgSinks := map (sink_it lvl (c_str t)) (lgSinks lg)\<rparr> else lg)"

definition log_debug :: "('f \<Rightarrow> string) \<Rightarrow> 'f lua_val \<Rightarrow> logger \<Rightarrow> logger" where
  "log_debug pr a1 = log_it LogDebug (lua_tostring pr a1)"

definition log_info :: "('f \<Rightarrow> string) \<Rightarrow> 'f lua_val \<Rightarrow> logger \<Rightarrow> logger" where
  "log_info pr a1 = log_it LogInfo (lua_tostring pr a1)"

definition log_warning :: "('f \<Rightarrow> string) \<Rightarrow> 'f lua_val \<Rightarrow> logger \<Rightarrow> logger" where
  "log_warning pr a1 = log_it LogWarn (lua_tostring pr a1)"

definition log_error :: "('f \<Rightarrow> string) \<Rightarrow> 'f lua_val \<Rightarrow> logger \<Rightarrow> logger" where
  "log_error pr a1 = log_it LogErr (lua_tostring pr a1)"

text \<open>A call of a script, by the level that its name stands for.\<close>

fun log_call :: "('f \<Rightarrow> string) \<Rightarrow> logger \<Rightarrow> log_level \<times> 'f lua_val \<Rightarrow> logger" where
  "log_call pr lg (LogDebug, v) = log_debug pr v lg"
| "log_call pr lg (LogInfo, v) = log_info pr v lg"
| "log_call pr lg (LogWarn, v) = log_warning pr v lg"
| "log_call pr lg (LogErr, v) = log_error pr v lg"

lemma log_call_it: "log_call pr lg (lvl, v) = log_it lvl (lua_tostring pr v) lg"
  by (cases lvl) (simp_all add: log_debug_def log_info_def log_warning_def log_error_def)

section \<open>What is written\<close>

text \<open>The lines of a list of calls, from a level on.\<close>

fun logged :: "('f \<Rightarrow> string) \<Rightarrow> log_level \<Rightarrow> (log_level \<times> 'f lua_val) list \<Rightarrow> (log_level \<times> string) list" where
  "logged pr level [] = []"
| "logged pr level ((lvl, v) # calls) =
     (case lua_tostring pr v of Some t \<Rightarrow> if level \<le> lvl then [(lvl, c_str t)] else [] | None \<Rightarrow> []) @ logged pr level calls"

lemma log_run:
  assumes "lgLevel lg = level" and "\<forall>k \<in> set (lgSinks lg). skLevel k = level"
  shows "foldl (log_call pr) lg calls =
    lg\<lparr>lgSinks := map (\<lambda>k. k\<lparr>skLines := skLines k @ logged pr level calls\<rparr>) (lgSinks lg)\<rparr>"
  using assms
proof (induction calls arbitrary: lg)
  case Nil
  then show ?case by simp
next
  case (Cons c calls)
  obtain lvl v where c: "c = (lvl, v)" by (cases c)
  let ?new = "case lua_tostring pr v of Some t \<Rightarrow> if level \<le> lvl then [(lvl, c_str t)] else [] | None \<Rightarrow> []"
  let ?lg = "lg\<lparr>lgSinks := map (\<lambda>k. k\<lparr>skLines := skLines k @ ?new\<rparr>) (lgSinks lg)\<rparr>"
  have "map (sink_it lvl t) (lgSinks lg) = map (\<lambda>k. k\<lparr>skLines := skLines k @ [(lvl, t)]\<rparr>) (lgSinks lg)" if "level \<le> lvl" for t
    using Cons.prems(2) that by (simp add: sink_it_def)
  then have "log_call pr lg c = ?lg"
    using Cons.prems(1) by (simp add: c log_call_it log_it_def split: option.split)
  moreover have "lgLevel ?lg = level" "\<forall>k \<in> set (lgSinks ?lg). skLevel k = level" using Cons.prems by simp_all
  ultimately show ?case using Cons.IH [of ?lg] by (simp add: c comp_def)
qed

lemma setLog_level: "setLog pl c = Ok (Some (level, to_file)) \<Longrightarrow> level = log_level_of (logLevel c)"
  by (simp add: setLog_def Let_def split: if_splits)

lemma read_setting_level: "read_setting n c e = Ok d \<Longrightarrow> logLevel d = logLevel c"
proof -
  let ?P = "\<lambda>d. logLevel d = logLevel c"
  have seq: "\<forall>d. rbind m f = Ok d \<longrightarrow> ?P d" if "\<And>a. \<forall>d. f a = Ok d \<longrightarrow> ?P d" for m :: "'x res" and f
    using that by (auto simp: rbind_Ok)
  have test: "\<forall>d. (if b then x else y) = Ok d \<longrightarrow> ?P d" if "\<forall>d. x = Ok d \<longrightarrow> ?P d" "\<forall>d. y = Ok d \<longrightarrow> ?P d" for b x y
    using that by simp
  have "\<forall>d. read_setting n c e = Ok d \<longrightarrow> ?P d"
    unfolding read_setting_def by (intro seq test) simp_all
  then show "read_setting n c e = Ok d \<Longrightarrow> ?P d" by simp
qed

lemma readConfig_level:
  assumes "readConfig n c g = Ok (Some d)"
  shows "logLevel d = logLevel c"
proof -
  from assms obtain t where t: "g = LTable t" by (cases g) (simp_all add: readConfig_def)
  with assms have "each (fmt n) (\<lambda>_. True) (read_setting n) c t = Ok d"
    by (auto simp: readConfig_def rbind_Ok split: if_splits)
  then show ?thesis by (rule each_inv [where P = "\<lambda>x. logLevel x = logLevel c"]) (simp_all add: read_setting_level)
qed



end
