(* ===== verification/Mailbox.thy ===== *)
theory Mailbox
  imports RuntimeFacts
begin

text \<open>
  The abstract specification of message passing: one queue for each initialised service, a post
  appends, a collection empties.  The manager's \<open>send\<close> and the services' queues with their mutexes,
  the heap of services and the pool that takes the messages back implement it, as long as no lock
  is held for good.
\<close>

section \<open>Specification\<close>

type_synonym boxes = "int \<Rightarrow> service_msg list option"

datatype mail = Post int service_msg | Collect int

fun box_step :: "mail \<Rightarrow> boxes \<Rightarrow> lua_msg list \<times> boxes" where
  "box_step (Post i m) b = ([], case b i of None \<Rightarrow> b | Some q \<Rightarrow> b(i \<mapsto> q @ [m]))"
| "box_step (Collect i) b = (case b i of None \<Rightarrow> ([], b) | Some q \<Rightarrow> (map msg_table q, b(i \<mapsto> [])))"

fun box_run :: "mail list \<Rightarrow> boxes \<Rightarrow> lua_msg list list \<times> boxes" where
  "box_run [] b = ([], b)"
| "box_run (c # cs) b =
     (let (r, b') = box_step c b; (rs, b'') = box_run cs b' in (r # rs, b''))"

section \<open>Implementation\<close>

text \<open>\<open>Collect\<close> is what a worker's poll does to the service of that number before the Lua call.\<close>

fun mail_exec :: "mail \<Rightarrow> ('z runtime_scheme, lua_msg list) op" where
  "mail_exec (Post i m) = andthen (ServiceMgr_send i m) (ret [])"
| "mail_exec (Collect i) =
     bind (ServiceMgr_getService i) (\<lambda>p.
       case p of
         None \<Rightarrow> ret []
       | Some p \<Rightarrow> bind (on_service p (gets mIsInit)) (\<lambda>b. if b then Service_drain p else ret []))"

definition boxes :: "'z runtime_scheme \<Rightarrow> boxes" where
  "boxes s i =
     (case om_find (mServices s) i of
        None \<Rightarrow> None
      | Some p \<Rightarrow> (case rtHeap s p of None \<Rightarrow> None | Some v \<Rightarrow> if mIsInit v then Some (mMsgs v) else None))"

definition mail_ready :: "'z runtime_scheme \<Rightarrow> bool" where
  "mail_ready s \<longleftrightarrow> \<not> mServiceLock s \<and> \<not> mPoolLock (rtPool s) \<and>
     (\<forall>i p. om_find (mServices s) i = Some p \<longrightarrow>
        (\<exists>v. rtHeap s p = Some v \<and> \<not> mMsgLock v \<and> (\<forall>m \<in> set (mMsgs v). msg_ok m))) \<and>
     (\<forall>i j p. om_find (mServices s) i = Some p \<longrightarrow> om_find (mServices s) j = Some p \<longrightarrow> i = j)"

fun mail_ok :: "mail \<Rightarrow> bool" where
  "mail_ok (Post i m) = msg_ok m"
| "mail_ok (Collect i) = True"

lemma drain_run [op_spec]:
  assumes "rtHeap s p = Some v" "\<not> mMsgLock v" "\<not> mPoolLock (rtPool s)" "\<forall>m \<in> set (mMsgs v). msg_ok m"
  shows "Service_drain p s = Done (map msg_table (mMsgs v))
    (s\<lparr>rtHeap := (rtHeap s)(p \<mapsto> v\<lparr>mMsgs := []\<rparr>),
       rtPool := (rtPool s)\<lparr>mPool := mPool (rtPool s) @ map ServiceMsg_reset (mMsgs v)\<rparr>\<rparr>)"
proof -
  let ?l = "v\<lparr>mMsgLock := True\<rparr>"
  let ?s = "s\<lparr>rtHeap := (rtHeap s)(p \<mapsto> ?l)\<rparr>"
  have "drain_loop p (mMsgs v) [] ?s =
    Done (map msg_table (mMsgs v))
      (?s\<lparr>rtHeap := (rtHeap ?s)(p \<mapsto> ?l\<lparr>mMsgs := []\<rparr>),
         rtPool := (rtPool ?s)\<lparr>mPool := mPool (rtPool ?s) @ map ServiceMsg_reset (mMsgs v)\<rparr>\<rparr>)"
    using drain_loop_free [of ?s p ?l "mMsgs v" "[]"] assms by (simp add: msg_ok_def)
  with assms show ?thesis
    by (simp add: Service_drain_def on_service_gets on_service_Done)
qed

lemma boxes_upd:
  assumes "mail_ready s" "om_find (mServices s) i = Some p" "rtHeap s p = Some v"
  shows "boxes (s\<lparr>rtHeap := (rtHeap s)(p \<mapsto> v\<lparr>mMsgs := q\<rparr>), rtPool := pl\<rparr>) =
    (if mIsInit v then (boxes s)(i \<mapsto> q) else boxes s)"
proof (rule ext)
  fix j
  show "boxes (s\<lparr>rtHeap := (rtHeap s)(p \<mapsto> v\<lparr>mMsgs := q\<rparr>), rtPool := pl\<rparr>) j =
      (if mIsInit v then (boxes s)(i \<mapsto> q) else boxes s) j"
  proof (cases "j = i")
    case False
    then have "om_find (mServices s) j \<noteq> Some p" using assms(1,2) unfolding mail_ready_def by blast
    with False show ?thesis by (simp add: boxes_def split: option.split)
  qed (use assms(2,3) in \<open>simp add: boxes_def\<close>)
qed

lemma ready_upd:
  assumes "mail_ready s" "om_find (mServices s) i = Some p" "rtHeap s p = Some v"
    and "\<forall>m \<in> set q. msg_ok m" "\<not> mPoolLock pl"
  shows "mail_ready (s\<lparr>rtHeap := (rtHeap s)(p \<mapsto> v\<lparr>mMsgs := q\<rparr>), rtPool := pl\<rparr>)"
proof -
  from assms(1-3) have "\<not> mMsgLock v" unfolding mail_ready_def by fastforce
  with assms show ?thesis by (auto simp: mail_ready_def)
qed

lemma mail_step:
  fixes s :: "'z runtime_scheme"
  assumes s: "mail_ready s" and c: "mail_ok c"
  shows "\<exists>t. mail_exec c s = Done (fst (box_step c (boxes s))) t \<and> boxes t = snd (box_step c (boxes s)) \<and> mail_ready t"
proof -
  have free: "\<not> mServiceLock s" "\<not> mPoolLock (rtPool s)" using s by (simp_all add: mail_ready_def)
  show ?thesis
  proof (cases c)
    case (Post i m)
    show ?thesis
    proof (cases "om_find (mServices s) i")
      case None
      with Post s free show ?thesis by (simp add: send_run boxes_def)
    next
      case (Some p)
      with s obtain v where v: "rtHeap s p = Some v" "\<not> mMsgLock v" "\<forall>m \<in> set (mMsgs v). msg_ok m"
        unfolding mail_ready_def by blast
      let ?t = "s\<lparr>rtHeap := (rtHeap s)(p \<mapsto> v\<lparr>mMsgs := mMsgs v @ [m]\<rparr>), rtPool := rtPool s\<rparr>"
      have same: "?t = s\<lparr>rtHeap := (rtHeap s)(p \<mapsto> v\<lparr>mMsgs := mMsgs v @ [m]\<rparr>)\<rparr>" by simp
      show ?thesis
      proof (cases "mIsInit v")
        case True
        have "mail_exec c s = Done [] ?t" using Post Some v True free same by (simp add: send_run)
        moreover have "boxes ?t = (boxes s)(i \<mapsto> mMsgs v @ [m])"
          unfolding boxes_upd [OF s Some v(1), where q = "mMsgs v @ [m]" and pl = "rtPool s"] using True by simp
        moreover have "mail_ready ?t"
          by (rule ready_upd [OF s Some v(1)]) (use v(3) c Post free in auto)
        moreover have "boxes s i = Some (mMsgs v)" using Some v True by (simp add: boxes_def)
        ultimately show ?thesis using Post by (intro exI [of _ ?t]) simp
      next
        case False
        with Post Some v free s show ?thesis by (simp add: send_run boxes_def)
      qed
    qed
  next
    case (Collect i)
    show ?thesis
    proof (cases "om_find (mServices s) i")
      case None
      with Collect s free show ?thesis by (simp add: getService_free boxes_def)
    next
      case (Some p)
      with s obtain v where v: "rtHeap s p = Some v" "\<not> mMsgLock v" "\<forall>m \<in> set (mMsgs v). msg_ok m"
        unfolding mail_ready_def by blast
      let ?pl = "(rtPool s)\<lparr>mPool := mPool (rtPool s) @ map ServiceMsg_reset (mMsgs v)\<rparr>"
      let ?t = "s\<lparr>rtHeap := (rtHeap s)(p \<mapsto> v\<lparr>mMsgs := []\<rparr>), rtPool := ?pl\<rparr>"
      show ?thesis
      proof (cases "mIsInit v")
        case True
        have "mail_exec c s = Done (map msg_table (mMsgs v)) ?t"
          using Collect Some v True free by (simp add: getService_free on_service_gets drain_run)
        moreover have "boxes ?t = (boxes s)(i \<mapsto> [])" using boxes_upd [OF s Some v(1)] True by simp
        moreover have "mail_ready ?t" by (rule ready_upd [OF s Some v(1)]) (use free in auto)
        moreover have "boxes s i = Some (mMsgs v)" using Some v True by (simp add: boxes_def)
        ultimately show ?thesis using Collect by (intro exI [of _ ?t]) simp
      next
        case False
        with Collect Some v free s show ?thesis by (simp add: getService_free on_service_gets boxes_def)
      qed
    qed
  qed
qed



end
