(* ===== verification/ConfigStore.thy ===== *)
theory ConfigStore
  imports LuaValue
begin

text \<open>
  \<open>src/config\<close>: the configuration tables that a script stores once and every service reads:
  a map from a table's name to a map from a line's id to a map from a column's key to a value.
  \<open>single\<close> is the conversion of a double to a \<open>float\<close>, \<open>trunc\<close> that of a \<open>float\<close> to an integer.
\<close>

section \<open>State\<close>

datatype ConfigValueType = CvNone | CvInt | CvFloat | CvBool | CvString | CvJson

record 'f config =
  cvType :: ConfigValueType
  intValue :: int
  floatValue :: 'f
  stringValue :: string

definition Config_ctor :: "'f::zero config" where
  "Config_ctor = \<lparr>cvType = CvNone, intValue = 0, floatValue = 0, stringValue = ''''\<rparr>"

text \<open>\<open>std::unordered_map\<close>: its entries, each key once; \<open>insert\<close> keeps an entry that is there.\<close>

definition um_insert :: "string \<Rightarrow> 'v \<Rightarrow> (string \<times> 'v) list \<Rightarrow> (string \<times> 'v) list" where
  "um_insert k v m = (if map_of m k = None then m @ [(k, v)] else m)"

type_synonym 'f config_keys = "(string \<times> 'f config) list"
type_synonym 'f config_lines = "(string \<times> 'f config_keys) list"
type_synonym 'f configs = "(string \<times> 'f config_lines) list"

section \<open>\<open>ConfigMgr\<close>\<close>

definition ConfigMgr_getConfig :: "'f configs \<Rightarrow> string \<Rightarrow> 'f config_lines option" where
  "ConfigMgr_getConfig mConfigs configName =
     (case map_of mConfigs configName of None \<Rightarrow> None | Some c \<Rightarrow> Some c)"

definition ConfigMgr_getLine :: "'f configs \<Rightarrow> string \<Rightarrow> string \<Rightarrow> 'f config_keys option" where
  "ConfigMgr_getLine mConfigs configName i =
     (case ConfigMgr_getConfig mConfigs configName of
        None \<Rightarrow> None
      | Some config \<Rightarrow> (case map_of config i of None \<Rightarrow> None | Some line \<Rightarrow> Some line))"

definition ConfigMgr_getValue :: "'f configs \<Rightarrow> string \<Rightarrow> string \<Rightarrow> string \<Rightarrow> 'f config option" where
  "ConfigMgr_getValue mConfigs configName i key =
     (case ConfigMgr_getLine mConfigs configName i of
        None \<Rightarrow> None
      | Some line \<Rightarrow> (case map_of line key of None \<Rightarrow> None | Some v \<Rightarrow> Some v))"

section \<open>\<open>initConfig\<close>\<close>

text \<open>The value that one entry of a line stores; \<open>None\<close> for a type it skips.\<close>

fun read_value :: "('f::zero \<Rightarrow> string) \<Rightarrow> ('f \<Rightarrow> 'f) \<Rightarrow> 'f lua_val \<Rightarrow> 'f config option res" where
  "read_value fmt single (LBool b) = Ok (Some (Config_ctor\<lparr>intValue := of_bool b, cvType := CvBool\<rparr>))"
| "read_value fmt single (LInt i) = Ok (Some (Config_ctor\<lparr>intValue := i, cvType := CvInt\<rparr>))"
| "read_value fmt single (LFloat x) = Ok (Some (Config_ctor\<lparr>floatValue := single x, cvType := CvFloat\<rparr>))"
| "read_value fmt single (LStr s) = Ok (Some (Config_ctor\<lparr>stringValue := c_str s, cvType := CvString\<rparr>))"
| "read_value fmt single (LTable t) =
     rbind (check_string fmt (lt_get t (LStr ''data''))) (\<lambda>s.
       Ok (Some (Config_ctor\<lparr>stringValue := s, cvType := CvJson\<rparr>)))"
| "read_value fmt single v = Ok None"

definition read_key ::
  "('f::zero \<Rightarrow> string) \<Rightarrow> ('f \<Rightarrow> 'f) \<Rightarrow> 'f config_keys \<Rightarrow> 'f lua_val \<times> 'f lua_val \<Rightarrow> 'f config_keys res"
where
  "read_key fmt single keyConfigs e =
     rbind (check_string fmt (fst e)) (\<lambda>key.
     rbind (read_value fmt single (snd e)) (\<lambda>value.
       Ok (case value of None \<Rightarrow> keyConfigs | Some c \<Rightarrow> um_insert key c keyConfigs)))"

definition read_line ::
  "('f::zero \<Rightarrow> string) \<Rightarrow> ('f \<Rightarrow> 'f) \<Rightarrow> 'f config_lines \<Rightarrow> 'f lua_val \<times> 'f lua_val \<Rightarrow> 'f config_lines res"
where
  "read_line fmt single idConfigs e =
     (case snd e of
        LTable t \<Rightarrow>
          rbind (check_string fmt (fst e)) (\<lambda>i.
          rbind (each fmt (\<lambda>_. True) (read_key fmt single) [] t) (\<lambda>keyConfigs.
            Ok (um_insert i keyConfigs idConfigs)))
      | _ \<Rightarrow> Ok idConfigs)"

definition read_config ::
  "('f::zero \<Rightarrow> string) \<Rightarrow> ('f \<Rightarrow> 'f) \<Rightarrow> 'f configs \<Rightarrow> 'f lua_val \<times> 'f lua_val \<Rightarrow> 'f configs res"
where
  "read_config fmt single configs e =
     (case snd e of
        LTable t \<Rightarrow>
          rbind (check_string fmt (fst e)) (\<lambda>configName.
          rbind (each fmt (\<lambda>e. lua_istable (snd e)) (read_line fmt single) [] t) (\<lambda>idConfigs.
            Ok (um_insert configName idConfigs configs)))
      | _ \<Rightarrow> Ok configs)"

definition initConfig ::
  "('f::zero \<Rightarrow> string) \<Rightarrow> ('f \<Rightarrow> 'f) \<Rightarrow> 'f lua_val \<Rightarrow> 'f configs \<Rightarrow> bool res \<times> 'f configs"
where
  "initConfig fmt single a1 mConfigs =
     (case a1 of
        LTable t \<Rightarrow>
          (case each fmt (\<lambda>e. lua_istable (snd e)) (read_config fmt single) [] t of
             Ok configs \<Rightarrow> (Ok True, configs)
           | Raises e \<Rightarrow> (Raises e, mConfigs)
           | Loops \<Rightarrow> (Loops, mConfigs))
      | _ \<Rightarrow> (Ok False, mConfigs))"

section \<open>Reading it back\<close>

text \<open>\<open>toInt\<close>: \<open>std::stoi\<close>, with 0 for what it throws on.\<close>

definition stoi :: "string \<Rightarrow> int option" where
  "stoi str =
     (case read_int str of
        None \<Rightarrow> None
      | Some n \<Rightarrow> if n < - 2147483648 \<or> 2147483647 < n then None else Some n)"

definition toInt :: "string \<Rightarrow> int" where
  "toInt str = (case stoi str of Some n \<Rightarrow> n | None \<Rightarrow> 0)"

text \<open>
  What a value is pushed as; a \<open>Float\<close> goes through \<open>lua_pushinteger\<close>.  No value of the type
  \<open>None\<close> is ever stored (lemma \<open>stored_types\<close>).
\<close>

fun push_value :: "('f \<Rightarrow> int) \<Rightarrow> 'f config \<Rightarrow> 'f lua_val option" where
  "push_value trunc c =
     (case cvType c of
        CvBool \<Rightarrow> Some (LBool (intValue c \<noteq> 0))
      | CvInt \<Rightarrow> Some (LInt (intValue c))
      | CvFloat \<Rightarrow> Some (LInt (trunc (floatValue c)))
      | CvString \<Rightarrow> Some (LStr (c_str (stringValue c)))
      | CvJson \<Rightarrow> Some (LTable (lua_setfield ''data'' (LStr (c_str (stringValue c))) []))
      | CvNone \<Rightarrow> None)"

text \<open>A list of strings as the table \<open>{[1] = ..., [2] = ...}\<close>.\<close>

definition string_list :: "string list \<Rightarrow> 'f lua_table" where
  "string_list xs = fst (foldl (\<lambda>(t, i) x. (lua_rawseti i (LStr (c_str x)) t, i + 1)) ([], 1) xs)"

definition set_by_id :: "string \<Rightarrow> 'f lua_val \<Rightarrow> 'f lua_table \<Rightarrow> 'f lua_table" where
  "set_by_id i v t =
     (let intField = toInt i in if intField \<noteq> 0 then lua_rawseti intField v t else lua_setfield (c_str i) v t)"

text \<open>
  One line: its table and the keys whose values are json, in the order the map is iterated.  A
  value of type \<open>None\<close> would write to what lies below the line's table.
\<close>

definition line_table :: "('f \<Rightarrow> int) \<Rightarrow> 'f config_keys \<Rightarrow> ('f lua_table \<times> string list) res" where
  "line_table trunc line =
     rfold (\<lambda>(t, jsonKeys) (key, value).
       (case push_value trunc value of
          None \<Rightarrow> Raises TypeConfusion
        | Some v \<Rightarrow> Ok (lua_setfield (c_str key) v t, if cvType value = CvJson then jsonKeys @ [key] else jsonKeys)))
       ([], []) line"

definition getConfig ::
  "('f \<Rightarrow> string) \<Rightarrow> ('f \<Rightarrow> int) \<Rightarrow> ('f config_lines \<Rightarrow> 'f config_lines) \<Rightarrow> ('f config_keys \<Rightarrow> 'f config_keys) \<Rightarrow>
   ((string \<times> string list) list \<Rightarrow> (string \<times> string list) list) \<Rightarrow> 'f lua_val \<Rightarrow> 'f configs \<Rightarrow> 'f lua_val list res"
where
  "getConfig fmt trunc iterL iterK iterJ a1 mConfigs =
     rbind (check_string fmt a1) (\<lambda>configName.
       case ConfigMgr_getConfig mConfigs configName of
         None \<Rightarrow> Ok []
       | Some config \<Rightarrow>
           rbind (rfold (\<lambda>(t, jsonMaps) (i, line).
               rbind (line_table trunc (iterK line)) (\<lambda>(lt, jsonKeys).
                 Ok (set_by_id i (LTable lt) t, if jsonKeys = [] then jsonMaps else um_insert i jsonKeys jsonMaps)))
               ([], []) (iterL config)) (\<lambda>(t, jsonMaps).
             Ok [LTable t,
                 LTable (foldl (\<lambda>t (i, ks). set_by_id i (LTable (string_list ks)) t) [] (iterJ jsonMaps))]))"

definition getConfigLine ::
  "('f \<Rightarrow> string) \<Rightarrow> ('f \<Rightarrow> int) \<Rightarrow> ('f config_keys \<Rightarrow> 'f config_keys) \<Rightarrow> 'f lua_val \<Rightarrow> 'f lua_val \<Rightarrow> 'f configs \<Rightarrow>
   'f lua_val list res"
where
  "getConfigLine fmt trunc iterK a1 a2 mConfigs =
     rbind (check_string fmt a1) (\<lambda>configName.
     rbind (check_string fmt a2) (\<lambda>i.
       case ConfigMgr_getLine mConfigs configName i of
         None \<Rightarrow> Ok []
       | Some line \<Rightarrow>
           rbind (line_table trunc (iterK line)) (\<lambda>(t, jsonKeys).
             Ok [LTable t, LTable (string_list jsonKeys)])))"

text \<open>With a value of type \<open>None\<close> the call would return its last argument.\<close>

definition getConfigValue ::
  "('f \<Rightarrow> string) \<Rightarrow> ('f \<Rightarrow> int) \<Rightarrow> 'f lua_val \<Rightarrow> 'f lua_val \<Rightarrow> 'f lua_val \<Rightarrow> 'f configs \<Rightarrow> 'f lua_val list res"
where
  "getConfigValue fmt trunc a1 a2 a3 mConfigs =
     rbind (check_string fmt a1) (\<lambda>configName.
     rbind (check_string fmt a2) (\<lambda>i.
     rbind (check_string fmt a3) (\<lambda>key.
       case ConfigMgr_getValue mConfigs configName i key of
         None \<Rightarrow> Ok []
       | Some value \<Rightarrow> Ok [case push_value trunc value of Some v \<Rightarrow> v | None \<Rightarrow> a3])))"

section \<open>What is stored\<close>

lemma map_of_um_insert:
  "map_of (um_insert k v m) k' = (case map_of m k' of None \<Rightarrow> if k' = k then Some v else None | Some w \<Rightarrow> Some w)"
  by (auto simp: um_insert_def map_add_def split: option.split)

fun key_of :: "'f lua_val \<Rightarrow> string" where
  "key_of (LStr s) = s"
| "key_of v = ''''"

lemma rfold_insert:
  fixes t :: "'f lua_table" and m :: "(string \<times> 'v) list"
  assumes "str_keys t"
    and "\<And>e m. e \<in> set t \<Longrightarrow> f m e = Ok (case g (snd e) of None \<Rightarrow> m | Some c \<Rightarrow> um_insert (key_of (fst e)) c m)"
  shows "\<exists>m'. rfold f m t = Ok m' \<and>
    (\<forall>k. map_of m' k = (case map_of m k of Some c \<Rightarrow> Some c | None \<Rightarrow> Option.bind (map_of t (LStr k)) g))"
  using assms
proof (induction t arbitrary: m)
  case (Cons e t)
  then obtain s where s: "fst e = LStr s" by (auto simp: str_keys_def)
  let ?m = "case g (snd e) of None \<Rightarrow> m | Some c \<Rightarrow> um_insert s c m"
  have "str_keys t" using Cons.prems(1) by (simp add: str_keys_def)
  with Cons.IH [of ?m] Cons.prems(2) obtain m' where m': "rfold f ?m t = Ok m'"
    "\<And>k. map_of m' k = (case map_of ?m k of Some c \<Rightarrow> Some c | None \<Rightarrow> Option.bind (map_of t (LStr k)) g)"
    by auto
  have new: "map_of t (LStr s) = None"
    using Cons.prems(1) s by (force simp: str_keys_def map_of_eq_None_iff)
  have "map_of m' k = (case map_of m k of Some c \<Rightarrow> Some c | None \<Rightarrow> Option.bind (map_of (e # t) (LStr k)) g)" for k
    using s new by (cases e) (auto simp: m'(2) map_of_um_insert split: option.split)
  moreover have "rfold f m (e # t) = Ok m'" using m'(1) Cons.prems(2) [of e m] s by (cases "g (snd e)") simp_all
  ultimately show ?case by blast
qed (simp split: option.split)

text \<open>A table of tables of tables, with strings for keys and a text in every json value.\<close>

definition data_ok :: "('f \<Rightarrow> string) \<Rightarrow> 'f lua_table \<Rightarrow> bool" where
  "data_ok fmt t \<longleftrightarrow> (\<forall>k d. (k, LTable d) \<in> set t \<longrightarrow> lua_tostring fmt (lt_get d (LStr ''data'')) \<noteq> None)"

definition config_table :: "('f \<Rightarrow> string) \<Rightarrow> 'f lua_table \<Rightarrow> bool" where
  "config_table fmt t \<longleftrightarrow> str_keys t \<and>
     (\<forall>k u. (k, LTable u) \<in> set t \<longrightarrow> str_keys u \<and>
        (\<forall>l w. (l, LTable w) \<in> set u \<longrightarrow> str_keys w \<and> data_ok fmt w))"

text \<open>What the server hands out for a value of the script's table.\<close>

fun handed_out :: "('f \<Rightarrow> string) \<Rightarrow> ('f \<Rightarrow> 'f) \<Rightarrow> ('f \<Rightarrow> int) \<Rightarrow> 'f lua_val \<Rightarrow> 'f lua_val list" where
  "handed_out fmt single trunc (LBool b) = [LBool b]"
| "handed_out fmt single trunc (LInt i) = [LInt i]"
| "handed_out fmt single trunc (LFloat x) = [LInt (trunc (single x))]"
| "handed_out fmt single trunc (LStr s) = [LStr (c_str s)]"
| "handed_out fmt single trunc (LTable d) =
     (case lua_tostring fmt (lt_get d (LStr ''data'')) of
        None \<Rightarrow> [] | Some s \<Rightarrow> [LTable [(LStr ''data'', LStr (c_str s))]])"
| "handed_out fmt single trunc v = []"

definition value_of :: "('f::zero \<Rightarrow> string) \<Rightarrow> ('f \<Rightarrow> 'f) \<Rightarrow> 'f lua_val \<Rightarrow> 'f config option" where
  "value_of fmt single v = (case read_value fmt single v of Ok c \<Rightarrow> c | _ \<Rightarrow> None)"

lemma value_handed_out:
  "handed_out fmt single trunc v =
     (case value_of fmt single v of None \<Rightarrow> [] | Some c \<Rightarrow> [the (push_value trunc c)]) \<and>
   (case value_of fmt single v of None \<Rightarrow> True | Some c \<Rightarrow> push_value trunc c \<noteq> None)"
  by (cases v) (auto simp: value_of_def Config_ctor_def check_string_def lt_set_def split: option.split)

lemma line_stored:
  assumes "str_keys t" "data_ok fmt t"
  shows "\<exists>m. each fmt (\<lambda>_. True) (read_key fmt single) [] t = Ok m \<and>
    (\<forall>k. map_of m k = Option.bind (map_of t (LStr k)) (value_of fmt single))"
proof -
  have "read_key fmt single m e =
      Ok (case value_of fmt single (snd e) of None \<Rightarrow> m | Some c \<Rightarrow> um_insert (key_of (fst e)) c m)"
    if "e \<in> set t" for e m
  proof -
    from that assms(1) obtain s where s: "fst e = LStr s" "c_str s = s" by (auto simp: str_keys_def)
    have "\<exists>c. read_value fmt single (snd e) = Ok c"
    proof (cases "snd e")
      case (LTable d)
      with that have "(fst e, LTable d) \<in> set t" by (metis prod.collapse)
      with assms(2) obtain y where "lua_tostring fmt (lt_get d (LStr ''data'')) = Some y" by (auto simp: data_ok_def)
      with LTable show ?thesis by (simp add: check_string_def)
    qed simp_all
    then obtain c where "read_value fmt single (snd e) = Ok c" by blast
    with s show ?thesis by (cases c) (simp_all add: read_key_def value_of_def)
  qed
  from rfold_insert [where m = "[]", OF assms(1) this] show ?thesis
    by (simp add: each_plain [OF str_keys_unconverted [OF assms(1)]])
qed

definition line_of :: "('f::zero \<Rightarrow> string) \<Rightarrow> ('f \<Rightarrow> 'f) \<Rightarrow> 'f lua_val \<Rightarrow> 'f config_keys option" where
  "line_of fmt single v =
     (case v of LTable t \<Rightarrow> (case each fmt (\<lambda>_. True) (read_key fmt single) [] t of Ok m \<Rightarrow> Some m | _ \<Rightarrow> None) | _ \<Rightarrow> None)"

lemma config_stored:
  assumes "str_keys u" and "\<forall>l w. (l, LTable w) \<in> set u \<longrightarrow> str_keys w \<and> data_ok fmt w"
  shows "\<exists>m. each fmt (\<lambda>e. lua_istable (snd e)) (read_line fmt single) [] u = Ok m \<and>
    (\<forall>k. map_of m k = Option.bind (map_of u (LStr k)) (line_of fmt single))"
proof -
  have "read_line fmt single m e =
      Ok (case line_of fmt single (snd e) of None \<Rightarrow> m | Some c \<Rightarrow> um_insert (key_of (fst e)) c m)"
    if "e \<in> set u" for e m
  proof -
    from that assms(1) obtain s where s: "fst e = LStr s" "c_str s = s" by (auto simp: str_keys_def)
    show ?thesis
    proof (cases "snd e")
      case (LTable w)
      with that have "(fst e, LTable w) \<in> set u" by (metis prod.collapse)
      with assms(2) line_stored [of w fmt single] obtain m' where
        "each fmt (\<lambda>_. True) (read_key fmt single) [] w = Ok m'" by blast
      with LTable s show ?thesis by (simp add: read_line_def line_of_def)
    qed (simp_all add: read_line_def line_of_def)
  qed
  from rfold_insert [where m = "[]", OF assms(1) this] show ?thesis
    by (simp add: each_plain [OF str_keys_unconverted [OF assms(1)]])
qed

definition lines_of :: "('f::zero \<Rightarrow> string) \<Rightarrow> ('f \<Rightarrow> 'f) \<Rightarrow> 'f lua_val \<Rightarrow> 'f config_lines option" where
  "lines_of fmt single v =
     (case v of
        LTable t \<Rightarrow> (case each fmt (\<lambda>e. lua_istable (snd e)) (read_line fmt single) [] t of Ok m \<Rightarrow> Some m | _ \<Rightarrow> None)
      | _ \<Rightarrow> None)"

lemma configs_stored:
  assumes "config_table fmt t"
  shows "\<exists>m. initConfig fmt single (LTable t) s = (Ok True, m) \<and>
    (\<forall>k. map_of m k = Option.bind (map_of t (LStr k)) (lines_of fmt single))"
proof -
  have t: "str_keys t" using assms by (simp add: config_table_def)
  have "read_config fmt single m e =
      Ok (case lines_of fmt single (snd e) of None \<Rightarrow> m | Some c \<Rightarrow> um_insert (key_of (fst e)) c m)"
    if "e \<in> set t" for e m
  proof -
    from that t obtain s where s: "fst e = LStr s" "c_str s = s" by (auto simp: str_keys_def)
    show ?thesis
    proof (cases "snd e")
      case (LTable u)
      with that have "(fst e, LTable u) \<in> set t" by (metis prod.collapse)
      with assms have "str_keys u" "\<forall>l w. (l, LTable w) \<in> set u \<longrightarrow> str_keys w \<and> data_ok fmt w"
        unfolding config_table_def by blast+
      from config_stored [OF this, where single = single] obtain m' where
        "each fmt (\<lambda>e. lua_istable (snd e)) (read_line fmt single) [] u = Ok m'" by blast
      with LTable s show ?thesis by (simp add: read_config_def lines_of_def)
    qed (simp_all add: read_config_def lines_of_def)
  qed
  from rfold_insert [where m = "[]", OF t this] show ?thesis
    by (auto simp: initConfig_def each_plain [OF str_keys_unconverted [OF t]])
qed

lemma no_table:
  assumes "\<nexists>u. map_of t k = Some (LTable u)"
  shows "Option.bind (map_of t k) (lines_of fmt single) = None" "Option.bind (map_of t k) (line_of fmt single) = None"
    "lua_index (lt_get t k) k' = LNil"
proof -
  show "Option.bind (map_of t k) (lines_of fmt single) = None"
    using assms by (cases "map_of t k") (auto simp: lines_of_def split: lua_val.split)
  show "Option.bind (map_of t k) (line_of fmt single) = None"
    using assms by (cases "map_of t k") (auto simp: line_of_def split: lua_val.split)
  show "lua_index (lt_get t k) k' = LNil"
  proof (cases "map_of t k")
    case (Some v)
    with assms show ?thesis by (cases v) (simp_all add: lt_get_def)
  qed (simp add: lt_get_def)
qed

section \<open>Properties\<close>

text \<open>
  C24: what a script gives to \<open>config.init\<close>, as a table of tables of tables with strings for keys
  and a text under \<open>data\<close> in every json value, is what \<open>config.getValue\<close> hands out for a table's
  name, a line's id and a key, and nothing for any other three names; a value that was stored
  before is gone.  A number with a fraction comes back as an integer.
\<close>

theorem config_value_roundtrip:
  fixes t :: "'f::zero lua_table"
  assumes "config_table fmt t" and "c_str name = name" "c_str i = i" "c_str key = key"
  shows "\<exists>m. initConfig fmt single (LTable t) s = (Ok True, m) \<and>
    getConfigValue fmt trunc (LStr name) (LStr i) (LStr key) m =
      Ok (handed_out fmt single trunc (lua_index (lua_index (lua_index (LTable t) (LStr name)) (LStr i)) (LStr key)))"
proof -
  from configs_stored [OF assms(1)] obtain m where m: "initConfig fmt single (LTable t) s = (Ok True, m)"
    "\<And>k. map_of m k = Option.bind (map_of t (LStr k)) (lines_of fmt single)" by blast
  have "getConfigValue fmt trunc (LStr name) (LStr i) (LStr key) m =
      Ok (handed_out fmt single trunc (lua_index (lua_index (lua_index (LTable t) (LStr name)) (LStr i)) (LStr key)))"
  proof (cases "\<exists>u. map_of t (LStr name) = Some (LTable u)")
    case False
    have "map_of m name = None" "\<And>k. lua_index (lua_index (LTable t) (LStr name)) k = LNil"
      using no_table(1,3) [OF False] by (simp_all add: m(2))
    with assms show ?thesis
      by (simp add: getConfigValue_def ConfigMgr_getValue_def ConfigMgr_getLine_def ConfigMgr_getConfig_def)
  next
    case True
    then obtain u where u: "map_of t (LStr name) = Some (LTable u)" by blast
    have "(LStr name, LTable u) \<in> set t" using u by (rule map_of_SomeD)
    with assms(1) have ok: "str_keys u" "\<forall>l w. (l, LTable w) \<in> set u \<longrightarrow> str_keys w \<and> data_ok fmt w"
      unfolding config_table_def by blast+
    from config_stored [OF this, where single = single] obtain ls where
      ls: "each fmt (\<lambda>e. lua_istable (snd e)) (read_line fmt single) [] u = Ok ls"
      "\<And>k. map_of ls k = Option.bind (map_of u (LStr k)) (line_of fmt single)" by blast
    with u have mls: "map_of m name = Some ls" by (simp add: m(2) lines_of_def)
    show ?thesis
    proof (cases "\<exists>w. map_of u (LStr i) = Some (LTable w)")
      case False
      have "map_of ls i = None" "lua_index (lua_index (LTable u) (LStr i)) (LStr key) = LNil"
        using no_table(2,3) [OF False] by (simp_all add: ls(2))
      with assms mls u show ?thesis
        by (simp add: getConfigValue_def ConfigMgr_getValue_def ConfigMgr_getLine_def ConfigMgr_getConfig_def lt_get_def)
    next
      case True
      then obtain w where w: "map_of u (LStr i) = Some (LTable w)" by blast
      have "(LStr i, LTable w) \<in> set u" using w by (rule map_of_SomeD)
      with ok(2) have "str_keys w" "data_ok fmt w" by blast+
      from line_stored [OF this, where single = single] obtain ks where
        ks: "each fmt (\<lambda>_. True) (read_key fmt single) [] w = Ok ks"
        "\<And>k. map_of ks k = Option.bind (map_of w (LStr k)) (value_of fmt single)" by blast
      with w have "map_of ls i = Some ks" by (simp add: ls(2) line_of_def)
      with mls assms have "getConfigValue fmt trunc (LStr name) (LStr i) (LStr key) m =
          (case map_of ks key of None \<Rightarrow> Ok [] | Some c \<Rightarrow>
             Ok [case push_value trunc c of Some v \<Rightarrow> v | None \<Rightarrow> LStr key])"
        by (simp add: getConfigValue_def ConfigMgr_getValue_def ConfigMgr_getLine_def ConfigMgr_getConfig_def
              del: push_value.simps split: option.split)
      also have "\<dots> = Ok (handed_out fmt single trunc (lt_get w (LStr key)))"
        using value_handed_out [of fmt single trunc "lt_get w (LStr key)"]
        by (auto simp: ks(2) lt_get_def value_of_def simp del: push_value.simps split: option.splits)
      finally show ?thesis using u w by (simp add: lt_get_def)
    qed
  qed
  with m(1) show ?thesis by blast
qed

text \<open>
  C25: a table whose lines have numbers for ids, as \<open>{item = {[1001] = ...}}\<close>, is never stored:
  reading the id as a string breaks \<open>lua_next\<close>, so that \<open>config.init\<close> raises an error (or fails
  before) and the configuration stays what it was.
\<close>

theorem config_number_ids_fail:
  fixes u :: "'f::zero lua_table"
  assumes "(k, LTable u) \<in> set t" and "str_keys t"
    and "\<forall>e \<in> set u. numeric (fst e)" and "(i, LTable w) \<in> set u"
  shows "(\<forall>b. fst (initConfig fmt single (LTable t) s) \<noteq> Ok b) \<and> snd (initConfig fmt single (LTable t) s) = s"
proof -
  let ?conv = "\<lambda>e. lua_istable (snd e)"
  have "\<exists>e \<in> set u. ?conv e" using assms(4) by force
  then obtain xs e ys where split: "u = xs @ e # ys" and e: "?conv e" and xs: "\<forall>x \<in> set xs. \<not> ?conv x"
    by (rule split_list_first_propE)
  have "LStr z \<notin> fst ` set u" for z using assms(3) by fastforce
  then have "each fmt ?conv (read_line fmt single) [] u = rbind (rfold (read_line fmt single) [] (xs @ [e])) (\<lambda>_. Raises LuaError)"
    unfolding split by (intro each_number) (use assms(3) e xs split in \<open>auto simp: unconverted_def\<close>)
  then have stuck: "each fmt ?conv (read_line fmt single) [] u \<noteq> Ok ls" for ls
    by (cases "rfold (read_line fmt single) [] (xs @ [e])") simp_all
  have "read_config fmt single c (k, LTable u) \<noteq> Ok d" for c d
    using stuck by (auto simp: read_config_def rbind_Ok)
  from rfold_stuck [where f = "read_config fmt single", OF assms(1) this] have "each fmt ?conv (read_config fmt single) [] t \<noteq> Ok m" for m
    by (simp add: each_plain [OF str_keys_unconverted [OF assms(2)]])
  note never = this
  show ?thesis
  proof (cases "each fmt ?conv (read_config fmt single) [] t")
    case (Ok m)
    with never [of m] show ?thesis by blast
  qed (simp_all add: initConfig_def)
qed

text \<open>The types of what is stored.\<close>

definition typed :: "'f configs \<Rightarrow> bool" where
  "typed m \<longleftrightarrow> (\<forall>(n, ls) \<in> set m. \<forall>(i, ks) \<in> set ls. \<forall>(k, c) \<in> set ks. cvType c \<noteq> CvNone)"

lemma um_insert_set: "set (um_insert k v m) \<subseteq> insert (k, v) (set m)"
  by (auto simp: um_insert_def)

lemma read_value_type: "read_value fmt single v = Ok (Some c) \<Longrightarrow> cvType c \<noteq> CvNone"
  by (cases v) (auto simp: rbind_Ok)

lemma stored_types:
  assumes "typed s"
  shows "typed (snd (initConfig fmt single a s))"
proof (cases a)
  case (LTable t)
  let ?P = "\<lambda>ks :: 'a config_keys. \<forall>(k, c) \<in> set ks. cvType c \<noteq> CvNone"
  let ?Q = "\<lambda>ls :: 'a config_lines. \<forall>(i, ks) \<in> set ls. ?P ks"
  have key: "?P n" if "?P m" "read_key fmt single m e = Ok n" for m n e
    using that um_insert_set read_value_type by (fastforce simp: read_key_def rbind_Ok split: option.splits)
  have line: "?Q n" if q: "?Q m" and r: "read_line fmt single m e = Ok n" for m n e
  proof (cases "snd e")
    case (LTable w)
    with r obtain i ks where ks: "each fmt (\<lambda>_. True) (read_key fmt single) [] w = Ok ks" "n = um_insert i ks m"
      by (auto simp: read_line_def rbind_Ok)
    have "?P ks" by (rule each_inv [OF ks(1)]) (use key in auto)
    with ks(2) q um_insert_set [of i ks m] show ?thesis by fastforce
  qed (use q r in \<open>simp_all add: read_line_def\<close>)
  have config: "typed n" if q: "typed m" and r: "read_config fmt single m e = Ok n" for m n e
  proof (cases "snd e")
    case (LTable w)
    with r obtain i ls where ls: "each fmt (\<lambda>e. lua_istable (snd e)) (read_line fmt single) [] w = Ok ls" "n = um_insert i ls m"
      by (auto simp: read_config_def rbind_Ok)
    have "?Q ls" by (rule each_inv [OF ls(1)]) (use line in auto)
    with ls(2) q um_insert_set [of i ls m] show ?thesis unfolding typed_def by fastforce
  qed (use q r in \<open>simp_all add: read_config_def\<close>)
  have "typed n" if "each fmt (\<lambda>e. lua_istable (snd e)) (read_config fmt single) [] t = Ok n" for n
    by (rule each_inv [OF that]) (use config in \<open>auto simp: typed_def\<close>)
  with LTable assms show ?thesis
    by (cases "each fmt (\<lambda>e. lua_istable (snd e)) (read_config fmt single) [] t") (simp_all add: initConfig_def)
qed (use assms in \<open>simp_all add: initConfig_def\<close>)

lemma line_table_typed:
  assumes "\<forall>(k, c) \<in> set ks. cvType c \<noteq> CvNone"
  shows "\<exists>r. line_table trunc ks = Ok r"
proof -
  have "\<exists>r. rfold (\<lambda>(t, jsonKeys) (key, value).
       (case push_value trunc value of
          None \<Rightarrow> Raises TypeConfusion
        | Some v \<Rightarrow> Ok (lua_setfield (c_str key) v t, if cvType value = CvJson then jsonKeys @ [key] else jsonKeys)))
       a ks = Ok r" for a
    using assms
  proof (induction ks arbitrary: a)
    case (Cons e ks)
    obtain k c where e: "e = (k, c)" by (cases e)
    obtain t js where a: "a = (t, js)" by (cases a)
    from Cons.prems e obtain v where "push_value trunc c = Some v" by (cases "cvType c") auto
    with Cons e a show ?case by (simp del: push_value.simps)
  qed simp
  then show ?thesis by (simp add: line_table_def)
qed

text \<open>
  C26: whatever sequence of calls to \<open>config.init\<close> led to the stored configuration, every stored
  value has one of the five types the readers know: \<open>config.getLine\<close> never writes below the table
  it builds, whatever order the map is iterated in, and answers every name it is given.
\<close>

theorem config_lines_typed:
  fixes inits :: "'f::zero lua_val list"
  assumes "\<And>ks. set (iterK ks) \<subseteq> set ks"
  shows "getConfigLine fmt trunc iterK (LStr name) (LStr i) (foldl (\<lambda>s a. snd (initConfig fmt single a s)) [] inits)
    \<in> range Ok"
proof -
  let ?m = "foldl (\<lambda>s a. snd (initConfig fmt single a s)) [] inits"
  have "typed (foldl (\<lambda>s a. snd (initConfig fmt single a s)) s inits)" if "typed s" for s
    using that by (induction inits arbitrary: s) (simp_all add: stored_types)
  note gen = this
  have "typed []" by (simp add: typed_def)
  from gen [OF this] have m: "typed ?m" .
  show ?thesis
  proof (cases "ConfigMgr_getLine ?m (c_str name) (c_str i)")
    case (Some ks)
    then obtain ls where "map_of ?m (c_str name) = Some ls" "map_of ls (c_str i) = Some ks"
      by (auto simp: ConfigMgr_getLine_def ConfigMgr_getConfig_def split: option.splits)
    then have "(c_str name, ls) \<in> set ?m" "(c_str i, ks) \<in> set ls" by (auto dest: map_of_SomeD)
    with m have "\<forall>(k, c) \<in> set ks. cvType c \<noteq> CvNone" unfolding typed_def by fastforce
    with assms [of ks] have "\<forall>(k, c) \<in> set (iterK ks). cvType c \<noteq> CvNone" by blast
    from line_table_typed [OF this] obtain r where "line_table trunc (iterK ks) = Ok r" by blast
    with Some show ?thesis by (simp add: getConfigLine_def split: prod.split)
  qed (simp add: getConfigLine_def)
qed

section \<open>The properties at concrete tables\<close>

definition config_sample :: "int lua_table" where
  "config_sample = [(LStr ''item'', LTable [(LStr ''1001'', LTable [(LStr ''name'', LStr ''sword''), (LStr ''price'', LInt 5),
     (LStr ''drop'', LTable [(LStr ''data'', LStr ''[1]'')])])])]"

theorem config_value_roundtrip_witness:
  "\<exists>m. initConfig int_digits id (LTable config_sample) [] = (Ok True, m) \<and>
     getConfigValue int_digits id (LStr ''item'') (LStr ''1001'') (LStr ''drop'') m =
       Ok [LTable [(LStr ''data'', LStr ''[1]'')]]"
  using config_value_roundtrip [of int_digits config_sample "''item''" "''1001''" "''drop''" id "[]" id]
  by (auto simp: config_sample_def config_table_def str_keys_def data_ok_def lt_get_def c_str_def)

theorem config_number_ids_fail_witness:
  "snd (initConfig int_digits id (LTable [(LStr ''item'', LTable [(LInt 1001, LTable [(LStr ''a'', LInt 5)])])]) []) = []"
  using config_number_ids_fail [of "LStr ''item''" "[(LInt 1001, LTable [(LStr ''a'', LInt 5)])]"
      "[(LStr ''item'', LTable [(LInt 1001, LTable [(LStr ''a'', LInt (5 :: int))])])]" "LInt 1001" "[(LStr ''a'', LInt 5)]"
      int_digits id "[]"]
  by (simp add: str_keys_def c_str_def)

theorem config_lines_typed_witness:
  "getConfigLine int_digits id rev (LStr ''item'') (LStr ''1001'')
     (foldl (\<lambda>s a. snd (initConfig int_digits id a s)) [] [LTable config_sample, LNil]) \<in> range Ok"
  by (rule config_lines_typed) simp

end
