(* ===== verification/Json.thy ===== *)
theory Json
  imports LuaValue
begin

text \<open>
  \<open>src/json/json.cpp\<close>: Lua tables as JSON texts and back.  cJSON is not part of the repository: its
  trees are the datatype below (a node's name is null but in an object), \<open>print\<close> and \<open>parse\<close> are
  its printer and parser.  \<open>dbl\<close> is the conversion of an integer to a double, \<open>valueint\<close> the
  integer that cJSON keeps beside a number's double.  Tables that contain themselves, which make
  the encoder recurse until the stack is full, are not values of this model.
\<close>

section \<open>Trees\<close>

datatype 'f cjson =
    CBool bool
  | CNum 'f
  | CStr string
  | CNull
  | CArray "(string option \<times> 'f cjson) list"
  | CObject "(string option \<times> 'f cjson) list"
  | CRaw string

fun json_children_of :: "'f cjson \<Rightarrow> (string option \<times> 'f cjson) list" where
  "json_children_of (CArray cs) = cs"
| "json_children_of (CObject cs) = cs"
| "json_children_of j = []"

section \<open>Decoding: \<open>fetchCreateLuaTable\<close>\<close>

fun node_value :: "(int \<Rightarrow> 'f) \<Rightarrow> ('f \<Rightarrow> int) \<Rightarrow> 'f cjson \<Rightarrow> 'f lua_val option"
  and fetchCreateLuaTable ::
    "(int \<Rightarrow> 'f) \<Rightarrow> ('f \<Rightarrow> int) \<Rightarrow> (string option \<times> 'f cjson) list \<Rightarrow> int \<Rightarrow> 'f lua_table \<Rightarrow> 'f lua_table"
where
  "node_value dbl valueint (CArray cs) = Some (LTable (fetchCreateLuaTable dbl valueint cs 1 []))"
| "node_value dbl valueint (CObject cs) = Some (LTable (fetchCreateLuaTable dbl valueint cs 1 []))"
| "node_value dbl valueint (CStr s) = Some (LStr (c_str s))"
| "node_value dbl valueint (CNum x) = Some (if dbl (valueint x) = x then LInt (valueint x) else LFloat x)"
| "node_value dbl valueint (CBool b) = Some (LBool b)"
| "node_value dbl valueint CNull = Some LNil"
| "node_value dbl valueint (CRaw s) = None"
| "fetchCreateLuaTable dbl valueint [] index t = t"
| "fetchCreateLuaTable dbl valueint ((name, c) # cs) index t =
     (case node_value dbl valueint c of
        None \<Rightarrow> fetchCreateLuaTable dbl valueint cs index t
      | Some v \<Rightarrow>
          (case name of
             Some s \<Rightarrow> fetchCreateLuaTable dbl valueint cs index (lua_setfield (c_str s) v t)
           | None \<Rightarrow> fetchCreateLuaTable dbl valueint cs (index + 1) (lua_rawseti index v t)))"

definition json_decode ::
  "('f \<Rightarrow> string) \<Rightarrow> (int \<Rightarrow> 'f) \<Rightarrow> ('f \<Rightarrow> int) \<Rightarrow> (string \<Rightarrow> 'f cjson option) \<Rightarrow> 'f lua_val \<Rightarrow> 'f lua_val"
where
  "json_decode fmt dbl valueint parse a1 =
     (case lua_tostring fmt a1 of
        None \<Rightarrow> LNil
      | Some jsonStr \<Rightarrow>
          (case parse (c_str jsonStr) of
             None \<Rightarrow> LNil
           | Some root \<Rightarrow> LTable (fetchCreateLuaTable dbl valueint (json_children_of root) 1 [])))"

section \<open>Encoding: \<open>fetchCreateJson\<close>\<close>

fun lua_isstr :: "'f lua_val \<Rightarrow> bool" where
  "lua_isstr (LStr s) = True"
| "lua_isstr v = False"

text \<open>The first key decides: a table whose first key is not a string becomes an array.\<close>

definition is_array :: "'f lua_table \<Rightarrow> bool" where
  "is_array t = (case t of [] \<Rightarrow> False | e # _ \<Rightarrow> \<not> lua_isstr (fst e))"

definition add_item ::
  "('f \<Rightarrow> string) \<Rightarrow> bool \<Rightarrow> 'f cjson option \<Rightarrow> 'f lua_val \<Rightarrow> 'f cjson option \<Rightarrow> 'f cjson option"
where
  "add_item fmt isArray root key item =
     (let root = (case root of Some r \<Rightarrow> r | None \<Rightarrow> if isArray then CArray [] else CObject [])
      in Some (case item of
           None \<Rightarrow> root
         | Some j \<Rightarrow>
             if isArray then CArray (json_children_of root @ [(None, j)])
             else (case lua_tostring fmt key of
                     None \<Rightarrow> root
                   | Some k \<Rightarrow> CObject (json_children_of root @ [(Some (c_str k), j)]))))"


fun json_item :: "('f \<Rightarrow> string) \<Rightarrow> (int \<Rightarrow> 'f) \<Rightarrow> 'f lua_val \<Rightarrow> 'f cjson option res" where
  "json_item fmt dbl (LBool b) = Ok (Some (CBool b))"
| "json_item fmt dbl (LInt i) = Ok (Some (CNum (dbl i)))"
| "json_item fmt dbl (LFloat x) = Ok (Some (CNum x))"
| "json_item fmt dbl (LStr s) = Ok (Some (CStr (c_str s)))"
| "json_item fmt dbl (LTable t) =
     each fmt (\<lambda>_. \<not> is_array t)
       (\<lambda>root e. rbind (json_item fmt dbl (snd e)) (\<lambda>item. Ok (add_item fmt (is_array t) root (fst e) item)))
       None t"
| "json_item fmt dbl LNil = Ok None"
| "json_item fmt dbl (LFunction n) = Ok None"
| "json_item fmt dbl (LUserdata n) = Ok None"

definition fetchCreateJson :: "('f \<Rightarrow> string) \<Rightarrow> (int \<Rightarrow> 'f) \<Rightarrow> 'f lua_table \<Rightarrow> 'f cjson option res" where
  "fetchCreateJson fmt dbl t = json_item fmt dbl (LTable t)"

text \<open>\<open>encode\<close> tests its first argument and converts the top of the stack, its last.\<close>

definition json_encode ::
  "('f \<Rightarrow> string) \<Rightarrow> (int \<Rightarrow> 'f) \<Rightarrow> ('f cjson \<Rightarrow> string) \<Rightarrow> 'f lua_val list \<Rightarrow> 'f lua_val res"
where
  "json_encode fmt dbl print args =
     (if args = [] \<or> \<not> lua_istable (hd args) then Ok (LStr ''{}'')
      else
        (case last args of
           LTable t \<Rightarrow>
             rbind (fetchCreateJson fmt dbl t) (\<lambda>root.
               Ok (LStr (case root of None \<Rightarrow> ''{}'' | Some j \<Rightarrow> c_str (print j))))
         | _ \<Rightarrow> Raises TypeConfusion))"

section \<open>Tables that survive\<close>

definition is_seq :: "'f lua_table \<Rightarrow> bool" where
  "is_seq t \<longleftrightarrow> map fst t = map LInt [1..int (length t)]"

fun json_ok :: "(int \<Rightarrow> 'f) \<Rightarrow> ('f \<Rightarrow> int) \<Rightarrow> 'f lua_val \<Rightarrow> bool" where
  "json_ok dbl valueint (LBool b) = True"
| "json_ok dbl valueint (LInt i) = (valueint (dbl i) = i)"
| "json_ok dbl valueint (LFloat x) = (dbl (valueint x) \<noteq> x)"
| "json_ok dbl valueint (LStr s) = (c_str s = s)"
| "json_ok dbl valueint (LTable t) =
     (t \<noteq> [] \<and> (is_seq t \<or> str_keys t) \<and> (\<forall>e \<in> set t. json_ok dbl valueint (snd e)))"
| "json_ok dbl valueint v = False"

lemma json_ok_not_nil: "json_ok dbl valueint v \<Longrightarrow> v \<noteq> LNil"
  by auto

lemma array_items:
  assumes "\<And>e. e \<in> set t \<Longrightarrow> f (snd e) = Ok (J e)" and "root = None \<or> (\<exists>cs. root = Some (CArray cs))"
  shows "rfold (\<lambda>root e. rbind (f (snd e)) (\<lambda>item. Ok (add_item fmt True root (fst e) item))) root t =
    Ok (if t = [] then root
        else Some (CArray ((case root of None \<Rightarrow> [] | Some r \<Rightarrow> json_children_of r) @
          map (Pair None) (List.map_filter J t))))"
  using assms
proof (induction t arbitrary: root)
  case (Cons e t)
  have "add_item fmt True root (fst e) (J e) = Some (CArray
      ((case root of None \<Rightarrow> [] | Some r \<Rightarrow> json_children_of r) @ map (Pair None) (case J e of None \<Rightarrow> [] | Some j \<Rightarrow> [j])))"
    using Cons.prems(2) by (auto simp: add_item_def split: option.split)
  with Cons.IH [of "add_item fmt True root (fst e) (J e)"] Cons.prems(1) show ?case
    by (auto simp: map_filter_simps split: option.split)
qed simp

lemma object_items:
  assumes "str_keys t" and "\<And>e. e \<in> set t \<Longrightarrow> f (snd e) = Ok (Some (J e))"
  shows "rfold (\<lambda>root e. rbind (f (snd e)) (\<lambda>item. Ok (add_item fmt False root (fst e) item))) root t =
    Ok (if t = [] then root
        else Some (CObject ((case root of None \<Rightarrow> [] | Some r \<Rightarrow> json_children_of r) @
          map (\<lambda>e. (lua_tostring fmt (fst e), J e)) t)))"
  using assms
proof (induction t arbitrary: root)
  case (Cons e t)
  then obtain s where s: "fst e = LStr s" "c_str s = s" by (auto simp: str_keys_def)
  then have "add_item fmt False root (fst e) (Some (J e)) = Some (CObject
      ((case root of None \<Rightarrow> [] | Some r \<Rightarrow> json_children_of r) @ [(Some s, J e)]))"
    by (auto simp: add_item_def split: option.split)
  moreover have "str_keys t" using Cons.prems(1) by (simp add: str_keys_def)
  ultimately show ?case using Cons.IH [of "add_item fmt False root (fst e) (Some (J e))"] Cons.prems(2) s by auto
qed simp

lemma children_of_seq:
  assumes "\<And>e. e \<in> set t \<Longrightarrow> node_value dbl valueint (J e) = Some (snd e) \<and> snd e \<noteq> LNil"
    and "map fst t = map LInt [i..i + int (length t) - 1]" and "\<forall>j \<ge> i. LInt j \<notin> fst ` set u"
  shows "fetchCreateLuaTable dbl valueint (map (\<lambda>e. (None, J e)) t) i u = u @ t"
  using assms
proof (induction t arbitrary: i u)
  case (Cons e t)
  from Cons.prems(2) have e: "fst e = LInt i" "map fst t = map LInt [i + 1..i + 1 + int (length t) - 1]"
    by (simp_all add: upto_rec1)
  have "lua_rawseti i (snd e) u = u @ [e]"
    using Cons.prems(1,3) e(1) lt_set_new [of "LInt i" u "snd e"] by (metis list.set_intros(1) order_refl prod.collapse)
  moreover have "\<forall>j \<ge> i + 1. LInt j \<notin> fst ` set (u @ [e])" using Cons.prems(3) e(1) by auto
  ultimately show ?case using Cons.IH [OF _ e(2), of "u @ [e]"] Cons.prems(1) by simp
qed simp

lemma children_of_object:
  assumes "\<And>e. e \<in> set t \<Longrightarrow> node_value dbl valueint (J e) = Some (snd e) \<and> snd e \<noteq> LNil"
    and "str_keys (u @ t)"
  shows "fetchCreateLuaTable dbl valueint (map (\<lambda>e. (lua_tostring fmt (fst e), J e)) t) i u = u @ t"
  using assms
proof (induction t arbitrary: u)
  case (Cons e t)
  then obtain s where s: "fst e = LStr s" "c_str s = s" by (auto simp: str_keys_def)
  have "fst e \<notin> fst ` set u" using Cons.prems(2) by (auto simp: str_keys_def)
  then have "lua_setfield s (snd e) u = u @ [e]"
    using lt_set_new [of "LStr s" u "snd e"] s(1) Cons.prems(1) by (metis list.set_intros(1) prod.collapse)
  with Cons.IH [of "u @ [e]"] Cons.prems s show ?case by simp
qed simp

lemma json_item_back:
  "json_ok dbl valueint v \<Longrightarrow> \<exists>j. json_item fmt dbl v = Ok (Some j) \<and> node_value dbl valueint j = Some v"
proof (induction v)
  case (LTable t)
  have "\<forall>e \<in> set t. \<exists>j. json_item fmt dbl (snd e) = Ok (Some j) \<and> node_value dbl valueint j = Some (snd e)"
  proof
    fix e assume e: "e \<in> set t"
    with LTable.prems have "json_ok dbl valueint (snd e)" by simp
    with LTable.IH [of e "snd e"] e show "\<exists>j. json_item fmt dbl (snd e) = Ok (Some j) \<and> node_value dbl valueint j = Some (snd e)"
      by (cases e) auto
  qed
  then obtain J where J: "\<And>e. e \<in> set t \<Longrightarrow> json_item fmt dbl (snd e) = Ok (Some (J e)) \<and> node_value dbl valueint (J e) = Some (snd e)"
    by metis
  have nn: "\<And>e. e \<in> set t \<Longrightarrow> node_value dbl valueint (J e) = Some (snd e) \<and> snd e \<noteq> LNil"
    using J LTable.prems json_ok_not_nil by fastforce
  have ne: "t \<noteq> []" using LTable.prems by simp
  show ?case
  proof (cases "str_keys t")
    case True
    with ne have arr: "\<not> is_array t" by (cases t) (auto simp: is_array_def str_keys_def)
    have "json_item fmt dbl (LTable t) = Ok (Some (CObject (map (\<lambda>e. (lua_tostring fmt (fst e), J e)) t)))"
      using object_items [OF True, of "json_item fmt dbl" J fmt None] J arr ne
      by (simp add: each_plain [OF str_keys_unconverted [OF True]])
    moreover have "fetchCreateLuaTable dbl valueint (map (\<lambda>e. (lua_tostring fmt (fst e), J e)) t) 1 [] = [] @ t"
      by (rule children_of_object) (use nn True in auto)
    ultimately show ?thesis by simp
  next
    case False
    with LTable.prems have seq: "map fst t = map LInt [1..int (length t)]" by (simp add: is_seq_def)
    with ne have arr: "is_array t" by (cases t) (auto simp: is_array_def upto_rec1)
    have mf: "List.map_filter (\<lambda>e. Some (J e)) t = map J t" by (induction t) (simp_all add: map_filter_simps)
    have "unconverted (\<lambda>_. False) t" by (simp add: unconverted_def)
    then have "json_item fmt dbl (LTable t) = Ok (Some (CArray (map (\<lambda>e. (None, J e)) t)))"
      using array_items [of t "json_item fmt dbl" "\<lambda>e. Some (J e)" None fmt] J arr ne
      by (simp add: each_plain mf comp_def)
    moreover have "fetchCreateLuaTable dbl valueint (map (\<lambda>e. (None, J e)) t) 1 [] = [] @ t"
      by (rule children_of_seq) (use nn seq in auto)
    ultimately show ?thesis by simp
  qed
qed auto

section \<open>Properties\<close>

text \<open>
  C27: a table that is a non-empty list or has strings for keys, holding booleans, texts without a
  NUL, integers that survive cJSON's \<open>valueint\<close>, fractions and such tables again, comes back as it
  was from \<open>encode\<close> followed by \<open>decode\<close>, given a parser that reads back the one text printed.
\<close>

theorem json_roundtrip:
  assumes "json_ok dbl valueint (LTable t)"
    and "\<And>j. fetchCreateJson fmt dbl t = Ok (Some j) \<Longrightarrow> parse (c_str (print j)) = Some j"
  shows "\<exists>s. json_encode fmt dbl print [LTable t] = Ok (LStr s) \<and>
    json_decode fmt dbl valueint parse (LStr s) = LTable t"
proof -
  from json_item_back [OF assms(1)] obtain j where j: "json_item fmt dbl (LTable t) = Ok (Some j)"
    "node_value dbl valueint j = Some (LTable t)" by blast
  from j(2) have "fetchCreateLuaTable dbl valueint (json_children_of j) 1 [] = t"
    by (cases j) (auto split: if_splits)
  moreover have "parse (c_str (print j)) = Some j" using assms(2) j(1) by (simp add: fetchCreateJson_def)
  ultimately show ?thesis
    using j(1) by (simp add: json_encode_def fetchCreateJson_def json_decode_def)
qed

text \<open>
  A table whose first key is not a string is encoded as an array of its values alone: every
  key is forgotten, and empty tables, functions and userdata leave no gap, so that \<open>decode\<close>
  numbers what remains from 1 on.
\<close>

theorem json_array_forgets_keys:
  assumes "\<not> lua_isstr k" and "\<And>e. e \<in> set ((k, v) # t) \<Longrightarrow> json_item fmt dbl (snd e) = Ok (J e)"
  shows "fetchCreateJson fmt dbl ((k, v) # t) = Ok (Some (CArray (map (Pair None) (List.map_filter J ((k, v) # t)))))"
proof -
  have arr: "is_array ((k, v) # t)" using assms(1) by (simp add: is_array_def)
  have "unconverted (\<lambda>_. \<not> is_array ((k, v) # t)) ((k, v) # t)" using arr by (simp add: unconverted_def)
  with array_items [of "(k, v) # t" "json_item fmt dbl" J None fmt] assms(2) arr show ?thesis
    by (simp only: fetchCreateJson_def json_item.simps each_plain) simp
qed

text \<open>
  In a table whose first key is a string, a number among the keys (with no entry under its
  printed form) makes \<open>encode\<close> raise an error, or fail before: the key is read as a string, and
  \<open>lua_next\<close> does not find it again.
\<close>

theorem json_mixed_keys_raise:
  assumes "lua_isstr (fst (hd (xs @ (k, v) # ys)))" and "numeric k"
    and "\<forall>e \<in> set (xs @ (k, v) # ys). numeric (fst e) \<longrightarrow> LStr (the (lua_tostring fmt (fst e))) \<notin> fst ` set (xs @ (k, v) # ys)"
  shows "json_encode fmt dbl print [LTable (xs @ (k, v) # ys)] \<noteq> Ok r"
proof -
  let ?t = "xs @ (k, v) # ys"
  have arr: "\<not> is_array ?t" using assms(1) by (cases ?t) (simp_all add: is_array_def)
  have "\<exists>e \<in> set ?t. numeric (fst e)" using assms(2) by force
  then obtain us e ws where t: "?t = us @ e # ws" and e: "numeric (fst e)" and us: "\<forall>x \<in> set us. \<not> numeric (fst x)"
    by (rule split_list_first_propE)
  have "LStr (the (lua_tostring fmt (fst e))) \<notin> fst ` set (us @ e # ws)" using assms(3) e t by auto
  then have "each fmt (\<lambda>_. True) f None ?t = rbind (rfold f None (us @ [e])) (\<lambda>_. Raises LuaError)" for f :: "'a cjson option \<Rightarrow> _"
    unfolding t by (intro each_number) (use us e in \<open>auto simp: unconverted_def\<close>)
  then have "each fmt (\<lambda>_. True) f None ?t \<noteq> Ok z" for f :: "'a cjson option \<Rightarrow> _" and z
    by (cases "rfold f None (us @ [e])") simp_all
  with arr have "fetchCreateJson fmt dbl ?t \<noteq> Ok z" for z by (simp add: fetchCreateJson_def)
  then show ?thesis by (auto simp: json_encode_def rbind_Ok)
qed

section \<open>The properties at concrete tables\<close>

theorem json_roundtrip_witness:
  "\<exists>s. json_encode int_digits id (\<lambda>_. ''[true]'') [LTable [(LInt 1, LBool True)]] = Ok (LStr s) \<and>
    json_decode int_digits id id (\<lambda>_. Some (CArray [(None, CBool True)])) (LStr s) =
      LTable [(LInt 1, LBool True)]"
  by (rule json_roundtrip)
     (auto simp: fetchCreateJson_def is_seq_def is_array_def each_plain unconverted_def add_item_def)

theorem json_array_forgets_keys_witness:
  "fetchCreateJson int_digits id [(LInt 4, LBool True), (LStr ''x'', LTable []), (LStr ''y'', LBool False)] =
     Ok (Some (CArray [(None, CBool True), (None, CBool False)]))"
proof -
  let ?J = "\<lambda>e. case snd e of LBool b \<Rightarrow> Some (CBool b) | _ \<Rightarrow> None"
  have "fetchCreateJson int_digits id [(LInt 4, LBool True), (LStr ''x'', LTable []), (LStr ''y'', LBool False)] =
     Ok (Some (CArray (map (Pair None) (List.map_filter ?J [(LInt 4 :: int lua_val, LBool True :: int lua_val), (LStr ''x'', LTable []), (LStr ''y'', LBool False)]))))"
    by (rule json_array_forgets_keys) (auto simp: each_plain unconverted_def)
  then show ?thesis by (simp add: map_filter_simps)
qed

theorem json_mixed_keys_raise_witness:
  "\<forall>r. json_encode int_digits id (\<lambda>_. ''x'') [LTable [(LStr ''a'', LInt 1), (LInt 7, LInt 2)]] \<noteq> Ok r"
proof
  fix r
  have "int_digits 7 = ''7''" by code_simp
  then show "json_encode int_digits id (\<lambda>_. ''x'') [LTable [(LStr ''a'', LInt 1), (LInt 7, LInt 2)]] \<noteq> Ok r"
    using json_mixed_keys_raise [of "[(LStr ''a'', LInt 1)]" "LInt 7" "LInt 2" "[]" int_digits id "\<lambda>_. ''x''" r] by simp
qed

end
