(* ===== verification/Xml.thy ===== *)
theory Xml
  imports LuaValue
begin

text \<open>
  \<open>src/xml/xml.cpp\<close>: XML texts as Lua tables and back.  libxml2 is not part of the repository: the
  tree that it parses a text into is the datatype below, \<open>prop\<close> is \<open>xmlGetProp\<close>, and a writer is the
  list of the calls made to it, which \<open>render\<close> turns into a text.  The strings of a tree are C
  strings; no text is longer than an \<open>int\<close> counts.
\<close>

section \<open>Trees\<close>

datatype xml_type = XmlElement | XmlText | XmlOther nat

datatype xml_node =
  XmlNode (xnType: xml_type) (xnName: "string option") (xnContent: "string option")
    (xnAttrs: "string list") (xnChildren: "xml_node list")

section \<open>Decoding\<close>

text \<open>The two loops that look for the first and for the last character of a text.\<close>

definition xml_blank :: "char \<Rightarrow> bool" where
  "xml_blank ch \<longleftrightarrow> ch = CHR 0x0A \<or> ch = CHR '' ''"

fun first_ink :: "nat \<Rightarrow> string \<Rightarrow> nat option" where
  "first_ink i [] = None"
| "first_ink i (ch # data) = (if \<not> xml_blank ch then Some i else first_ink (Suc i) data)"

fun last_ink :: "nat \<Rightarrow> string \<Rightarrow> nat option" where
  "last_ink 0 data = None"
| "last_ink (Suc i) data =
     (if \<not> xml_blank (data ! i) \<and> data ! i \<noteq> CHR 0x00 then Some (Suc i) else last_ink i data)"

definition xml_text :: "string \<Rightarrow> string option" where
  "xml_text data =
     (case (first_ink 0 data, last_ink (length data) data) of
        (Some chIndex, Some chLastIndex) \<Rightarrow>
          if chIndex < chLastIndex then Some (take (chLastIndex - chIndex) (drop chIndex data)) else None
      | _ \<Rightarrow> None)"

definition xml_attrs :: "(xml_node \<Rightarrow> string \<Rightarrow> string option) \<Rightarrow> xml_node \<Rightarrow> 'f lua_table" where
  "xml_attrs prop it =
     foldl (\<lambda>t a. lua_setfield a (case prop it a of None \<Rightarrow> LNil | Some v \<Rightarrow> LStr v) t) [] (xnAttrs it)"

text \<open>The loop tests the type of the first sibling, \<open>node\<close>, each time, never that of \<open>it\<close>.\<close>

definition xml_supported :: "xml_node list \<Rightarrow> bool" where
  "xml_supported node = (case node of [] \<Rightarrow> False | n # _ \<Rightarrow> xnType n = XmlElement \<or> xnType n = XmlText)"

definition element_table ::
  "(xml_node \<Rightarrow> string \<Rightarrow> string option) \<Rightarrow> xml_node \<Rightarrow> string \<Rightarrow> 'f lua_table \<Rightarrow> 'f lua_table"
where
  "element_table prop it name children =
     (let t = lua_setfield ''name'' (LStr name) [];
          t = (if xnAttrs it \<noteq> [] then lua_setfield ''attrs'' (LTable (xml_attrs prop it)) t else t)
      in if xnChildren it \<noteq> [] then lua_setfield ''children'' (LTable children) t else t)"

fun fetchXmlTable ::
  "(xml_node \<Rightarrow> string \<Rightarrow> string option) \<Rightarrow> bool \<Rightarrow> xml_node list \<Rightarrow> int \<Rightarrow> 'f lua_table \<Rightarrow> 'f lua_table res"
where
  "fetchXmlTable prop supported [] index t = Ok t"
| "fetchXmlTable prop supported (XmlNode ty name content ats cs # its) index t =
     (if \<not> supported then fetchXmlTable prop supported its index t
      else
        (case name of
           None \<Rightarrow> Raises NullPointer
         | Some nm \<Rightarrow>
             if nm = ''text'' then
               (case content of
                  None \<Rightarrow> Raises NullPointer
                | Some data \<Rightarrow>
                    fetchXmlTable prop supported its index
                      (case xml_text data of None \<Rightarrow> t | Some s \<Rightarrow> lua_setfield ''data'' (LStr s) t))
             else
               rbind (fetchXmlTable prop (xml_supported cs) cs 1 []) (\<lambda>children.
                 fetchXmlTable prop supported its (index + 1)
                   (lua_rawseti index (LTable (element_table prop (XmlNode ty name content ats cs) nm children)) t))))"

text \<open>
  \<open>parse\<close> answers the root element and the siblings after it.  \<open>luaL_len\<close> and \<open>luaL_checklstring\<close>
  raise on what is not a string, a number included.
\<close>

definition xmlDecode ::
  "(xml_node \<Rightarrow> string \<Rightarrow> string option) \<Rightarrow> (string \<Rightarrow> xml_node list option) \<Rightarrow> 'f lua_val \<Rightarrow> 'f lua_val res"
where
  "xmlDecode prop parse a1 =
     (case a1 of
        LStr data \<Rightarrow>
          (case parse data of
             None \<Rightarrow> Ok LNil
           | Some root \<Rightarrow> rbind (fetchXmlTable prop (xml_supported root) root 1 []) (\<lambda>t. Ok (LTable t)))
      | _ \<Rightarrow> Raises LuaError)"

section \<open>Encoding\<close>

datatype xml_event = XmlStart string | XmlAttr string string | XmlString string | XmlEnd

definition write_attr ::
  "('f \<Rightarrow> string) \<Rightarrow> xml_event list \<Rightarrow> 'f lua_val \<times> 'f lua_val \<Rightarrow> xml_event list res"
where
  "write_attr fmt writer e =
     rbind (check_string fmt (fst e)) (\<lambda>k.
     rbind (check_string fmt (snd e)) (\<lambda>v. Ok (writer @ [XmlAttr k v])))"

lemma index_smaller:
  assumes "lua_index v k = LTable t" and "e \<in> set t"
  shows "size (snd e) < size v"
proof -
  obtain u where u: "v = LTable u" "lt_get u k = LTable t" using assms(1) by (cases v) auto
  have "size (snd e) < size (LTable t)" using entry_smaller [OF assms(2)] by simp
  also have "\<dots> < size v" using lt_get_smaller [of u k] u by (simp add: table_size_def)
  finally show ?thesis .
qed

text \<open>One entry of a table, the body of the loop of \<open>fetchCreateXml\<close>.\<close>

function write_node :: "('f \<Rightarrow> string) \<Rightarrow> xml_event list \<Rightarrow> 'f lua_val \<Rightarrow> xml_event list res" where
  "write_node fmt writer v =
     (if \<not> lua_istable v then Ok writer
      else
        (case lua_tostring fmt (lua_index v (LStr ''name'')) of
           None \<Rightarrow> Ok writer
         | Some name \<Rightarrow>
             rbind (case lua_index v (LStr ''attrs'') of
                 LTable ats \<Rightarrow> each fmt (\<lambda>_. True) (write_attr fmt) (writer @ [XmlStart (c_str name)]) ats
               | _ \<Rightarrow> Ok (writer @ [XmlStart (c_str name)])) (\<lambda>w1.
             rbind (Ok (case lua_tostring fmt (lua_index v (LStr ''data'')) of
                 None \<Rightarrow> w1 | Some s \<Rightarrow> w1 @ [XmlString (c_str s)])) (\<lambda>w2.
             rbind (case lua_index v (LStr ''children'') of
                 LTable t \<Rightarrow> each fmt (\<lambda>_. False) (\<lambda>w e. write_node fmt w (snd e)) w2 t
               | _ \<Rightarrow> Ok w2) (\<lambda>w3. Ok (w3 @ [XmlEnd]))))))"
  by pat_completeness auto

termination
  by (relation "measure (\<lambda>(fmt, w, v). size v)") (auto intro: index_smaller)

declare write_node.simps [simp del]

definition fetchCreateXml :: "('f \<Rightarrow> string) \<Rightarrow> xml_event list \<Rightarrow> 'f lua_table \<Rightarrow> xml_event list res" where
  "fetchCreateXml fmt writer t = each fmt (\<lambda>_. False) (\<lambda>w e. write_node fmt w (snd e)) writer t"

text \<open>\<open>created\<close>: whether the buffer and its writer could be had.\<close>

definition xmlEncode ::
  "('f \<Rightarrow> string) \<Rightarrow> bool \<Rightarrow> (xml_event list \<Rightarrow> string) \<Rightarrow> 'f lua_val \<Rightarrow> 'f lua_val res"
where
  "xmlEncode fmt created render a1 =
     (case a1 of
        LTable t \<Rightarrow>
          if created then rbind (fetchCreateXml fmt [] t) (\<lambda>w. Ok (LStr (c_str (render w)))) else Ok LNil
      | _ \<Rightarrow> Ok LNil)"

section \<open>The text that is kept\<close>

lemma first_ink_dropWhile:
  "first_ink i data = (if dropWhile xml_blank data = [] then None
     else Some (i + length (takeWhile xml_blank data)))"
  by (induction data arbitrary: i) auto

lemma last_ink_dropWhile:
  assumes "CHR 0x00 \<notin> set data" and "n \<le> length data"
  shows "last_ink n data = (let r = dropWhile xml_blank (rev (take n data))
    in if r = [] then None else Some (length r))"
  using assms(2)
proof (induction n)
  case (Suc n)
  then have "data ! n \<in> set data" by simp
  with assms(1) have "data ! n \<noteq> CHR 0x00" by metis
  moreover have "rev (take (Suc n) data) = data ! n # rev (take n data)"
    using Suc.prems by (simp add: take_Suc_conv_app_nth)
  ultimately show ?case using Suc by (simp add: Let_def)
qed simp

text \<open>
  The text kept of a text node is its content without the blanks and line feeds at both ends;
  when nothing is left the node leaves no text.
\<close>

theorem xml_text_stripped:
  assumes "CHR 0x00 \<notin> set data"
  shows "xml_text data = (let s = rev (dropWhile xml_blank (rev (dropWhile xml_blank data)))
    in if s = [] then None else Some s)"
proof (cases "dropWhile xml_blank data = []")
  case True
  then show ?thesis by (simp add: xml_text_def first_ink_dropWhile del: dropWhile_eq_Nil_conv)
next
  case False
  let ?a = "takeWhile xml_blank data" and ?d = "dropWhile xml_blank data"
  let ?r = "dropWhile xml_blank (rev ?d)"
  have d: "data = ?a @ ?d" by simp
  from False have "\<not> xml_blank (hd ?d)" by (rule hd_dropWhile)
  moreover have "hd ?d \<in> set (rev ?d)" using False by simp
  ultimately have ne: "?r \<noteq> []" by (metis dropWhile_eq_Nil_conv)
  have "dropWhile xml_blank (rev data) = ?r @ rev ?a"
    by (subst d, subst rev_append, rule dropWhile_append1 [of "hd ?d"])
       (use \<open>\<not> xml_blank (hd ?d)\<close> \<open>hd ?d \<in> set (rev ?d)\<close> in auto)
  with ne have last: "last_ink (length data) data = Some (length ?r + length ?a)"
    using last_ink_dropWhile [OF assms, of "length data"] by (simp add: Let_def)
  have "rev ?r @ rev (takeWhile xml_blank (rev ?d)) = ?d"
    by (metis rev_append rev_rev_ident takeWhile_dropWhile_id)
  then have "take (length ?r) ?d = rev ?r" by (metis append_eq_conv_conj length_rev)
  moreover have "drop (length ?a) data = ?d" by (simp add: dropWhile_eq_drop)
  ultimately show ?thesis
    using False ne last by (simp add: xml_text_def first_ink_dropWhile Let_def)
qed

section \<open>Documents that crash the decoder\<close>

text \<open>The nodes whose names the decoder reads.\<close>

inductive visited :: "xml_node list \<Rightarrow> xml_node \<Rightarrow> bool" where
  here: "xml_supported ns \<Longrightarrow> n \<in> set ns \<Longrightarrow> visited ns n"
| below: "visited ns m \<Longrightarrow> xnName m \<noteq> Some ''text'' \<Longrightarrow> xml_supported (xnChildren m) \<Longrightarrow> n \<in> set (xnChildren m) \<Longrightarrow> visited ns n"

definition xml_fatal :: "xml_node \<Rightarrow> bool" where
  "xml_fatal n \<longleftrightarrow> xnName n = None \<or> xnName n = Some ''text'' \<and> xnContent n = None"

lemma visited_child:
  assumes "xml_supported ns" "m \<in> set ns" "xnName m \<noteq> Some ''text''" and "visited (xnChildren m) n"
  shows "visited ns n"
  using assms(4)
proof (induction "xnChildren m" n rule: visited.induct)
  case (here n)
  from visited.below [OF visited.here [OF assms(1,2)] assms(3) here] show ?case .
next
  case (below m' n)
  from visited.below [OF below(2) below(3) below(4) below(5)] show ?case .
qed

lemma visited_cases:
  assumes "visited ns n"
  shows "xml_supported ns \<and> (n \<in> set ns \<or> (\<exists>m \<in> set ns. xnName m \<noteq> Some ''text'' \<and> visited (xnChildren m) n))"
  using assms
proof (induction rule: visited.induct)
  case (below ns m n)
  then show ?case by (meson visited.here visited.below)
qed simp

lemma visited_iff:
  "(\<forall>m. visited ns m \<longrightarrow> P m) \<longleftrightarrow>
     (xml_supported ns \<longrightarrow> (\<forall>n \<in> set ns. P n \<and> (xnName n \<noteq> Some ''text'' \<longrightarrow> (\<forall>m. visited (xnChildren n) m \<longrightarrow> P m))))"
  using visited_cases [of ns] visited.here [of ns] visited_child [of ns] by blast

lemma unsupported_nothing: "fetchXmlTable prop False ns i t = Ok t"
proof (induction ns arbitrary: i t)
  case (Cons n ns)
  then show ?case by (cases n) simp
qed simp

lemma fetch_returns_iff:
  fixes t :: "'f lua_table"
  shows "(\<exists>u. fetchXmlTable prop s ns i t = Ok u) \<longleftrightarrow>
     (s \<longrightarrow> (\<forall>n \<in> set ns. \<not> xml_fatal n \<and>
        (xnName n \<noteq> Some ''text'' \<longrightarrow> (\<forall>m. visited (xnChildren n) m \<longrightarrow> \<not> xml_fatal m))))"
proof (induction "prop" s ns i t rule: fetchXmlTable.induct)
  case (2 get s ty name content ats cs its i t)
  show ?case
  proof (cases s)
    case s: True
    show ?thesis
    proof (cases name)
      case None
      then show ?thesis using s by (simp add: xml_fatal_def)
    next
      case (Some nm)
      show ?thesis
      proof (cases "nm = ''text''")
        case True
        show ?thesis
        proof (cases content)
          case None
          then show ?thesis using s Some True by (simp add: xml_fatal_def)
        next
          case c: (Some data)
          from 2(2) [OF _ Some True c] s Some True c show ?thesis by (simp add: xml_fatal_def)
        qed
      next
        case False
        have cs: "(\<exists>u :: 'f lua_table. fetchXmlTable get (xml_supported cs) cs 1 [] = Ok u) \<longleftrightarrow> (\<forall>m. visited cs m \<longrightarrow> \<not> xml_fatal m)"
          unfolding visited_iff [of cs] using 2(3) [OF _ Some False] s by simp
        show ?thesis
        proof (cases "\<exists>u :: 'f lua_table. fetchXmlTable get (xml_supported cs) cs 1 [] = Ok u")
          case True
          then obtain u :: "'f lua_table" where u: "fetchXmlTable get (xml_supported cs) cs 1 [] = Ok u" by blast
          have "fetchXmlTable get s (XmlNode ty name content ats cs # its) i t = fetchXmlTable get s its (i + 1)
            (lua_rawseti i (LTable (element_table get (XmlNode ty name content ats cs) nm u)) t)"
            using s Some False u by simp
          moreover have "\<forall>m. visited cs m \<longrightarrow> \<not> xml_fatal m" using cs True by (rule iffD1)
          ultimately show ?thesis using 2(4) [OF _ Some False u] s Some False by (simp add: xml_fatal_def)
        next
          case no: False
          then obtain m where m: "visited cs m" "xml_fatal m" using cs by blast
          then have "\<not> (\<exists>u. fetchXmlTable get s (XmlNode ty name content ats cs # its) i t = Ok u)"
            using s Some False no by (simp add: rbind_Ok)
          with m s Some False show ?thesis by auto
        qed
      qed
    qed
  qed (simp add: unsupported_nothing)
qed simp


section \<open>Writing back what was read\<close>

text \<open>
  Documents of elements and texts, as libxml2 builds them: no element is called \<open>text\<close>, and the
  attributes of one have different names.
\<close>

fun xml_plain :: "(xml_node \<Rightarrow> string \<Rightarrow> string option) \<Rightarrow> xml_node \<Rightarrow> bool" where
  "xml_plain prop (XmlNode ty name content ats cs) =
     (if ty = XmlText then name = Some ''text'' \<and> content \<noteq> None
      else ty = XmlElement \<and> (\<exists>nm. name = Some nm \<and> nm \<noteq> ''text'' \<and> c_str nm = nm) \<and> distinct ats \<and>
        (\<forall>a \<in> set ats. c_str a = a \<and> (\<exists>v. prop (XmlNode ty name content ats cs) a = Some v \<and> c_str v = v)) \<and>
        (\<forall>c \<in> set cs. xml_plain prop c))"

text \<open>The calls that would write such a node again, its texts left out.\<close>

fun outline :: "(xml_node \<Rightarrow> string \<Rightarrow> string option) \<Rightarrow> xml_node \<Rightarrow> xml_event list" where
  "outline prop (XmlNode ty name content ats cs) =
     (if ty = XmlText then []
      else XmlStart (the name) # map (\<lambda>a. XmlAttr a (the (prop (XmlNode ty name content ats cs) a))) ats @
        concat (map (outline prop) cs) @ [XmlEnd])"

lemma xml_attrs_run:
  assumes "distinct ats" and "\<forall>a \<in> set ats. \<exists>v. prop (XmlNode ty name content ats cs) a = Some v"
  shows "xml_attrs prop (XmlNode ty name content ats cs) =
    map (\<lambda>a. (LStr a, LStr (the (prop (XmlNode ty name content ats cs) a)))) ats"
proof -
  let ?v = "\<lambda>a. prop (XmlNode ty name content ats cs) a"
  have "foldl (\<lambda>t a. lua_setfield a (case ?v a of None \<Rightarrow> LNil | Some v \<Rightarrow> LStr v) t) u bs =
      u @ map (\<lambda>a. (LStr a, LStr (the (?v a)))) bs"
    if "distinct bs" "set bs \<subseteq> set ats" "\<forall>b \<in> set bs. LStr b \<notin> fst ` set u" for bs and u :: "'a lua_table"
    using that
  proof (induction bs arbitrary: u)
    case (Cons b bs)
    from Cons.prems(2) assms(2) obtain v where v: "?v b = Some v" by auto
    have "lua_setfield b (LStr v) u = u @ [(LStr b, LStr v)]" using Cons.prems(3) by (simp add: lt_set_new)
    with Cons.IH [of "u @ [(LStr b, LStr v)]"] Cons.prems v show ?case by auto
  qed simp
  from this [of ats "[]"] assms(1) show ?thesis by (simp add: xml_attrs_def)
qed

lemma write_attrs:
  assumes "distinct ats" and "\<forall>a \<in> set ats. c_str a = a \<and> c_str (f a) = f a"
  shows "each fmt (\<lambda>_. True) (write_attr fmt) w (map (\<lambda>a. (LStr a, LStr (f a))) ats) = Ok (w @ map (\<lambda>a. XmlAttr a (f a)) ats)"
proof -
  have "str_keys (map (\<lambda>a. (LStr a :: 'a lua_val, LStr (f a))) ats)"
    using assms by (auto simp: str_keys_def distinct_map inj_on_def comp_def)
  moreover have "rfold (write_attr fmt) w (map (\<lambda>a. (LStr a, LStr (f a))) ats) = Ok (w @ map (\<lambda>a. XmlAttr a (f a)) ats)"
    using assms(2) by (induction ats arbitrary: w) (auto simp: write_attr_def)
  ultimately show ?thesis by (simp add: each_plain [OF str_keys_unconverted])
qed

lemma rbind_Ok_right: "rbind m Ok = m"
  by (cases m) simp_all

text \<open>What a table that \<open>fetchXmlTable\<close> has filled so far holds.\<close>

definition filled_upto :: "int \<Rightarrow> 'f lua_table \<Rightarrow> bool" where
  "filled_upto i t \<longleftrightarrow> distinct (map fst t) \<and> (\<forall>(k, v) \<in> set t. (\<exists>s. k = LStr s \<and> \<not> lua_istable v) \<or> (\<exists>j < i. k = LInt j))"

abbreviation write_all :: "('f \<Rightarrow> string) \<Rightarrow> xml_event list \<Rightarrow> 'f lua_table \<Rightarrow> xml_event list res" where
  "write_all fmt \<equiv> rfold (\<lambda>w e. write_node fmt w (snd e))"

lemma write_no_table: "\<not> lua_istable v \<Longrightarrow> write_node fmt w v = Ok w"
  by (simp add: write_node.simps)

lemma fst_put: "fst ` set (lt_put k v t) = insert k (fst ` set t)"
  by (induction t) auto

lemma filled_data:
  assumes "filled_upto i t"
  shows "filled_upto i (lua_setfield s (LStr x) t)"
    "write_all fmt w (lua_setfield s (LStr x) t) = write_all fmt w t"
proof -
  have "filled_upto i (lt_put (LStr s) (LStr x) t) \<and> write_all fmt w (lt_put (LStr s) (LStr x) t) = write_all fmt w t"
    using assms
  proof (induction t arbitrary: w)
    case Nil
    then show ?case by (simp add: filled_upto_def write_no_table)
  next
    case (Cons e t)
    show ?case
    proof (cases "fst e = LStr s")
      case True
      with Cons.prems have "\<not> lua_istable (snd e)" by (cases e) (auto simp: filled_upto_def)
      with True Cons.prems show ?thesis by (cases e) (auto simp: filled_upto_def write_no_table)
    next
      case False
      have "filled_upto i t" using Cons.prems by (auto simp: filled_upto_def)
      with Cons.IH have IH: "filled_upto i (lt_put (LStr s) (LStr x) t)"
        "write_all fmt w' (lt_put (LStr s) (LStr x) t) = write_all fmt w' t" for w' by auto
      have "fst e \<notin> fst ` set (lt_put (LStr s) (LStr x) t)"
        using False Cons.prems by (auto simp: fst_put filled_upto_def)
      with IH(1) Cons.prems False have "filled_upto i (lt_put (LStr s) (LStr x) (e # t))"
        by (cases e) (auto simp: filled_upto_def)
      with IH(2) False show ?thesis by simp
    qed
  qed
  then show "filled_upto i (lua_setfield s (LStr x) t)"
    "write_all fmt w (lua_setfield s (LStr x) t) = write_all fmt w t"
    by (simp_all add: lt_set_def)
qed

lemma filled_element:
  assumes "filled_upto i t"
  shows "filled_upto (i + 1) (lua_rawseti i (LTable x) t)"
    "write_all fmt w (lua_rawseti i (LTable x) t) = rbind (write_all fmt w t) (\<lambda>w'. write_node fmt w' (LTable x))"
proof -
  have "LInt i \<notin> fst ` set t" using assms by (auto simp: filled_upto_def)
  then have "lua_rawseti i (LTable x) t = t @ [(LInt i, LTable x)]" by (simp add: lt_set_new)
  moreover have "filled_upto (i + 1) (t @ [(LInt i, LTable x)])"
    using assms \<open>LInt i \<notin> fst ` set t\<close> by (auto simp: filled_upto_def)
  moreover have "write_all fmt w (t @ [(LInt i, LTable x)]) = rbind (write_all fmt w t) (\<lambda>w'. write_node fmt w' (LTable x))"
    by (simp add: rfold_append rbind_Ok_right)
  ultimately show "filled_upto (i + 1) (lua_rawseti i (LTable x) t)"
    "write_all fmt w (lua_rawseti i (LTable x) t) = rbind (write_all fmt w t) (\<lambda>w'. write_node fmt w' (LTable x))"
    by simp_all
qed

lemma write_element:
  assumes "xml_plain prop (XmlNode ty name content ats cs)" and "ty \<noteq> XmlText" and "name = Some nm"
    and "\<And>w. write_all fmt w children = Ok (w @ concat (map (outline prop) cs))"
  shows "write_node fmt w (LTable (element_table prop (XmlNode ty name content ats cs) nm children)) =
    Ok (w @ outline prop (XmlNode ty name content ats cs))"
proof -
  let ?n = "XmlNode ty name content ats cs"
  let ?f = "\<lambda>a. the (prop ?n a)"
  let ?T = "element_table prop ?n nm children"
  from assms(1,2,3) have nm: "c_str nm = nm" and d: "distinct ats"
    and at: "\<forall>a \<in> set ats. \<exists>v. prop ?n a = Some v" "\<forall>a \<in> set ats. c_str a = a \<and> c_str (?f a) = ?f a" by auto
  have name: "lt_get ?T (LStr ''name'') = LStr nm" and data: "lt_get ?T (LStr ''data'') = LNil"
    and attrs: "lt_get ?T (LStr ''attrs'') = (if ats = [] then LNil else LTable (xml_attrs prop ?n))"
    and child: "lt_get ?T (LStr ''children'') = (if cs = [] then LNil else LTable children)"
    by (simp_all add: element_table_def lt_get_set Let_def)
  have run: "xml_attrs prop ?n = map (\<lambda>a. (LStr a :: 'a lua_val, LStr (?f a))) ats"
    by (rule xml_attrs_run) (rule d, rule at(1))
  have 1: "(case lt_get ?T (LStr ''attrs'') of
      LTable as \<Rightarrow> each fmt (\<lambda>_. True) (write_attr fmt) (w @ [XmlStart (c_str nm)]) as
    | _ \<Rightarrow> Ok (w @ [XmlStart (c_str nm)])) = Ok ((w @ [XmlStart nm]) @ map (\<lambda>a. XmlAttr a (?f a)) ats)"
    using write_attrs [OF d at(2), of fmt "w @ [XmlStart nm]"] nm
    by (simp add: attrs run)
  have "unconverted (\<lambda>_. False) children" by (simp add: unconverted_def)
  then have 2: "(case lt_get ?T (LStr ''children'') of
      LTable t \<Rightarrow> each fmt (\<lambda>_. False) (\<lambda>w e. write_node fmt w (snd e)) w2 t
    | _ \<Rightarrow> Ok w2) = Ok (w2 @ concat (map (outline prop) cs))" for w2
    using assms(4) by (simp add: child each_plain)
  show ?thesis
    by (subst write_node.simps, simp only: lua_index.simps lua_istable.simps name data lua_tostring.simps
        option.case 1 rbind.simps 2) (simp add: assms(2,3))
qed

lemma write_fetched:
  assumes "\<forall>n \<in> set ns. xml_plain prop n" and "filled_upto i t"
  shows "\<exists>u. fetchXmlTable prop True ns i t = Ok u \<and>
    (\<forall>w. write_all fmt w u = rbind (write_all fmt w t) (\<lambda>w'. Ok (w' @ concat (map (outline prop) ns))))"
  using assms
proof (induction "prop" "True" ns i t rule: fetchXmlTable.induct)
  case (1 get i t)
  then show ?case by (simp add: rbind_Ok_right)
next
  case (2 get ty name content ats cs its i t)
  let ?n = "XmlNode ty name content ats cs"
  show ?case
  proof (cases "ty = XmlText")
    case True
    with 2(5) obtain data where n: "name = Some ''text''" "content = Some data" by auto
    let ?t = "case xml_text data of None \<Rightarrow> t | Some s \<Rightarrow> lua_setfield ''data'' (LStr s) t"
    have t: "filled_upto i ?t" "write_all fmt w ?t = write_all fmt w t" for w
      using filled_data [OF 2(6)] 2(6) by (auto split: option.split)
    from 2(2) [OF _ n(1) _ n(2) _ t(1)] 2(5) obtain u where "fetchXmlTable get True its i ?t = Ok u"
      "\<And>w. write_all fmt w u = rbind (write_all fmt w ?t) (\<lambda>w'. Ok (w' @ concat (map (outline get) its)))" by auto
    with n t True show ?thesis by simp
  next
    case False
    with 2(5) obtain nm where n: "name = Some nm" "nm \<noteq> ''text''" "ty = XmlElement" by auto
    have cs: "\<forall>c \<in> set cs. xml_plain get c" using 2(5) False by simp
    have empty: "filled_upto 1 []" by (simp add: filled_upto_def)
    have "\<exists>u. fetchXmlTable get (xml_supported cs) cs 1 [] = Ok u \<and>
        (\<forall>w. write_all fmt w u = Ok (w @ concat (map (outline get) cs)))"
    proof (cases cs)
      case (Cons c r)
      have "xml_supported cs" using cs Cons by (cases c) (auto simp: xml_supported_def)
      with 2(3) [OF _ n(1,2) _ cs empty] show ?thesis by simp
    qed simp
    then obtain u where u: "fetchXmlTable get (xml_supported cs) cs 1 [] = Ok u"
      "\<And>w. write_all fmt w u = Ok (w @ concat (map (outline get) cs))" by blast
    let ?t = "lua_rawseti i (LTable (element_table get ?n nm u)) t"
    have t: "filled_upto (i + 1) ?t"
      "write_all fmt w ?t = rbind (write_all fmt w t) (\<lambda>w'. Ok (w' @ outline get ?n))" for w
    proof -
      have "xml_plain get ?n" using 2(5) by (simp del: xml_plain.simps)
      then have "write_node fmt w' (LTable (element_table get ?n nm u)) = Ok (w' @ outline get ?n)" for w'
        by (rule write_element [OF _ False n(1) u(2)])
      then show "filled_upto (i + 1) ?t"
        "write_all fmt w ?t = rbind (write_all fmt w t) (\<lambda>w'. Ok (w' @ outline get ?n))" for w
        unfolding filled_element(2) [OF 2(6)] using filled_element(1) [OF 2(6)] by simp_all
    qed
    from 2(4) [OF _ n(1,2) u(1) _ t(1)] 2(5) obtain v where "fetchXmlTable get True its (i + 1) ?t = Ok v"
      "\<And>w. write_all fmt w v = rbind (write_all fmt w ?t) (\<lambda>w'. Ok (w' @ concat (map (outline get) its)))" by auto
    moreover have "rbind (write_all fmt w ?t) (\<lambda>w'. Ok (w' @ concat (map (outline get) its))) =
        rbind (write_all fmt w t) (\<lambda>w'. Ok (w' @ concat (map (outline get) (?n # its))))" for w
      unfolding t(2) by (cases "write_all fmt w t") simp_all
    ultimately show ?thesis using n u(1) by (simp del: outline.simps)
  qed
qed

text \<open>
  C29: writing back the table that was read from a document of elements and texts calls the writer
  for every element and attribute, in their order, and for no text at all: the decoder puts a text
  into the table of the children of its element, and the encoder looks for it in the element.
\<close>

theorem xml_reencoding_loses_text:
  assumes "parse data = Some root" and "\<forall>n \<in> set root. xml_plain prop n"
  shows "\<exists>t. xmlDecode prop parse (LStr data) = Ok (LTable t) \<and>
    xmlEncode fmt True render (LTable t) = Ok (LStr (c_str (render (concat (map (outline prop) root)))))"
proof -
  have "\<exists>u. fetchXmlTable prop (xml_supported root) root 1 [] = Ok u \<and>
      (\<forall>w. write_all fmt w u = Ok (w @ concat (map (outline prop) root)))"
  proof (cases root)
    case (Cons n r)
    have "xml_supported root" using assms(2) Cons by (cases n) (auto simp: xml_supported_def split: if_splits)
    moreover have "filled_upto 1 []" by (simp add: filled_upto_def)
    ultimately show ?thesis using write_fetched [OF assms(2), of 1 "[]" fmt] by simp
  qed simp
  then obtain u where u: "fetchXmlTable prop (xml_supported root) root 1 [] = Ok u"
    "write_all fmt [] u = Ok (concat (map (outline prop) root))" by (metis append_Nil)
  have "unconverted (\<lambda>_. False) u" by (simp add: unconverted_def)
  with u assms(1) show ?thesis
    by (simp add: xmlDecode_def xmlEncode_def fetchCreateXml_def each_plain)
qed

section \<open>The properties at concrete documents\<close>

definition xml_sample :: xml_node where
  "xml_sample = XmlNode XmlElement (Some ''a'') None []
     [XmlNode XmlElement (Some ''b'') None [''k''] [XmlNode XmlText (Some ''text'') (Some '' hi'') [] []]]"

theorem xml_text_stripped_witness: "xml_text '' a b '' = Some ''a b''"
  using xml_text_stripped [of "'' a b ''"] by (simp add: xml_blank_def)


theorem xml_reencoding_loses_text_witness:
  "\<exists>t. xmlDecode (\<lambda>_ _. Some ''v'') (\<lambda>_. Some [xml_sample]) (LStr ''x'') = Ok (LTable t) \<and>
    xmlEncode int_digits True (\<lambda>w. if w = [XmlStart ''a'', XmlStart ''b'', XmlAttr ''k'' ''v'', XmlEnd, XmlEnd] then ''ok'' else [])
      (LTable t) = Ok (LStr ''ok'')"
  using xml_reencoding_loses_text [of "\<lambda>_. Some [xml_sample]" "''x''" "[xml_sample]" "\<lambda>_ _. Some ''v''" int_digits
    "\<lambda>w. if w = [XmlStart ''a'', XmlStart ''b'', XmlAttr ''k'' ''v'', XmlEnd, XmlEnd] then ''ok'' else []"]
  by (simp add: xml_sample_def c_str_def)

end
