(* ===== verification/Protobuf.thy ===== *)
theory Protobuf
  imports LuaValue "HOL-Library.AList"
begin

text \<open>
  \<open>src/protobuf/protobuf.cpp\<close>: Lua tables as protobuf messages and back, by reflection.  The
  protobuf library is not part of the repository.  A message type is a number, \<open>desc\<close> gives its
  fields in order and \<open>typ\<close> its number by name; a message is the list of its fields that were set,
  each by its position and with its values; \<open>dflt\<close> is what the getter of a field that was not set
  returns; \<open>serialize\<close> and \<open>parse\<close> are the wire format.  \<open>GetPrototype\<close> gives a prototype for every
  descriptor, as the library documents, so that its null branches are not modelled.  \<open>len\<close> is
  Lua's length of a table, \<open>toint\<close> the integer a float equals, if any, \<open>dbl\<close> and \<open>single\<close> the
  conversions to a double and to a \<open>float\<close>.
\<close>

section \<open>Descriptors and messages\<close>

datatype field_type =
    TyBool | TyInt32 | TySfixed32 | TySint32 | TyInt64 | TySfixed64 | TySint64
  | TyFixed32 | TyUint32 | TyUint64 | TyFixed64 | TyFloat | TyDouble | TyString | TyMessage
  | TyUnsupported

record field =
  fdName :: string
  fdType :: field_type
  fdRepeated :: bool
  fdMsg :: nat

datatype 'f pval = PBool bool | PInt int | PFloat 'f | PStr string | PMsg "(nat \<times> 'f pval list) list"

type_synonym 'f pmsg = "(nat \<times> 'f pval list) list"

definition pvalues :: "nat \<Rightarrow> 'f pmsg \<Rightarrow> 'f pval list" where
  "pvalues i m = (case map_of m i of None \<Rightarrow> [] | Some vs \<Rightarrow> vs)"

definition pset :: "nat \<Rightarrow> 'f pval list \<Rightarrow> 'f pmsg \<Rightarrow> 'f pmsg" where
  "pset i vs m = AList.update i vs m"

fun pmsg_of :: "'f pval \<Rightarrow> 'f pmsg" where
  "pmsg_of (PMsg m) = m"
| "pmsg_of v = []"

section \<open>\<open>foreachToMsg\<close>\<close>

fun lua_tointeger :: "('f \<Rightarrow> int option) \<Rightarrow> 'f lua_val \<Rightarrow> int" where
  "lua_tointeger toint (LInt i) = i"
| "lua_tointeger toint (LFloat x) = (case toint x of None \<Rightarrow> 0 | Some i \<Rightarrow> i)"
| "lua_tointeger toint v = 0"

fun lua_tonumber :: "(int \<Rightarrow> 'f) \<Rightarrow> 'f lua_val \<Rightarrow> 'f option" where
  "lua_tonumber dbl (LInt i) = Some (dbl i)"
| "lua_tonumber dbl (LFloat x) = Some x"
| "lua_tonumber dbl v = None"

text \<open>The value a field of a scalar type takes from a Lua value; nothing when the types differ.\<close>

fun scalar_of ::
  "('f \<Rightarrow> int option) \<Rightarrow> (int \<Rightarrow> 'f) \<Rightarrow> ('f \<Rightarrow> 'f) \<Rightarrow> field_type \<Rightarrow> 'f lua_val \<Rightarrow> 'f pval option"
where
  "scalar_of toint dbl single TyBool v = (case v of LBool b \<Rightarrow> Some (PBool b) | _ \<Rightarrow> None)"
| "scalar_of toint dbl single TyString v = (case v of LStr s \<Rightarrow> Some (PStr (c_str s)) | _ \<Rightarrow> None)"
| "scalar_of toint dbl single TyFloat v = map_option (\<lambda>x. PFloat (single x)) (lua_tonumber dbl v)"
| "scalar_of toint dbl single TyDouble v = map_option PFloat (lua_tonumber dbl v)"
| "scalar_of toint dbl single TyMessage v = None"
| "scalar_of toint dbl single TyUnsupported v = None"
| "scalar_of toint dbl single ty v =
     (if numeric v
      then Some (PInt
        (if ty \<in> {TyInt32, TySfixed32, TySint32} then to_i32 (lua_tointeger toint v)
         else if ty \<in> {TyInt64, TySfixed64, TySint64} then lua_tointeger toint v
         else if ty \<in> {TyFixed32, TyUint32} then take_bit 32 (lua_tointeger toint v)
         else take_bit 64 (lua_tointeger toint v)))
      else None)"


lemma foldl_cong' [fundef_cong]:
  "a = b \<Longrightarrow> xs = ys \<Longrightarrow> (\<And>c x. x \<in> set ys \<Longrightarrow> f c x = g c x) \<Longrightarrow> foldl f a xs = foldl g b ys"
  by (induction ys arbitrary: a b xs) auto

lemma lt_get_nested: "LTable u = lt_get t k \<Longrightarrow> table_size (lt_get u l) < table_size (LTable t)"
  using lt_get_smaller [of t k] lt_get_smaller [of u l] by simp

text \<open>
  A repeated field appends every element of a list that fits; a singular one is set when the value
  fits, but a singular message always: from a value that is no table it is an empty message.
\<close>

function (sequential) foreachToMsg ::
  "('f \<Rightarrow> int option) \<Rightarrow> (int \<Rightarrow> 'f) \<Rightarrow> ('f \<Rightarrow> 'f) \<Rightarrow> ('f lua_table \<Rightarrow> nat) \<Rightarrow> (nat \<Rightarrow> field list) \<Rightarrow> nat \<Rightarrow>
   'f lua_val \<Rightarrow> 'f pmsg \<Rightarrow> 'f pmsg"
where
  "foreachToMsg toint dbl single len desc ty (LTable t) msg =
     foldl (\<lambda>msg (i, fd).
       let v = lt_get t (LStr (c_str (fdName fd))) in
       if fdRepeated fd then
         (case v of
            LTable u \<Rightarrow>
              foldl (\<lambda>msg j.
                let x = lt_get u (LInt (int j + 1)) in
                if fdType fd = TyMessage then
                  (if lua_istable x
                   then pset i (pvalues i msg @ [PMsg (foreachToMsg toint dbl single len desc (fdMsg fd) x [])]) msg
                   else msg)
                else (case scalar_of toint dbl single (fdType fd) x of
                        None \<Rightarrow> msg | Some p \<Rightarrow> pset i (pvalues i msg @ [p]) msg))
              msg [0..<len u]
          | _ \<Rightarrow> msg)
       else if fdType fd = TyMessage then
         pset i [PMsg (foreachToMsg toint dbl single len desc (fdMsg fd) v [])] msg
       else (case scalar_of toint dbl single (fdType fd) v of None \<Rightarrow> msg | Some p \<Rightarrow> pset i [p] msg))
     msg (enumerate 0 (desc ty))"
| "foreachToMsg toint dbl single len desc ty v msg = msg"
  by pat_completeness auto

termination
  by (relation "measure (\<lambda>(_, _, _, _, _, _, v, _). table_size v)") (auto simp: lt_get_smaller intro: lt_get_nested)

section \<open>\<open>foreachToTable\<close>\<close>

text \<open>An unsigned 64-bit value goes through \<open>lua_pushinteger\<close>, which is signed.\<close>

fun push_scalar :: "'f pval \<Rightarrow> 'f lua_val" where
  "push_scalar (PBool b) = LBool b"
| "push_scalar (PInt i) = LInt (signed_take_bit 63 i)"
| "push_scalar (PFloat x) = LFloat x"
| "push_scalar (PStr s) = LStr (c_str s)"
| "push_scalar (PMsg m) = LNil"

text \<open>A loop whose body may never return.\<close>

fun ofold :: "('a \<Rightarrow> 'x \<Rightarrow> 'a option) \<Rightarrow> 'a \<Rightarrow> 'x list \<Rightarrow> 'a option" where
  "ofold f a [] = Some a"
| "ofold f a (x # xs) = Option.bind (f a x) (\<lambda>b. ofold f b xs)"

lemma ofold_mono [partial_function_mono]:
  assumes "\<And>a x. mono_option (\<lambda>F. f F a x)"
  shows "mono_option (\<lambda>F. ofold (f F) a xs)"
proof (induction xs arbitrary: a)
  case Nil
  show ?case by (simp add: option.const_mono)
next
  case (Cons x xs)
  show ?case unfolding ofold.simps by (rule bind_mono [OF assms Cons.IH])
qed

text \<open>
  A repeated field becomes a list of what it holds, also when it is empty.  \<open>MutableMessage\<close> makes
  the message of a singular field that was not set: the loop goes into it whether or not it is
  there, and does not come back from a message type that contains itself.
\<close>

partial_function (option) foreachToTable ::
  "(nat \<Rightarrow> field list) \<Rightarrow> (nat \<Rightarrow> nat \<Rightarrow> 'f pval) \<Rightarrow> nat \<Rightarrow> 'f pmsg \<Rightarrow> 'f lua_table option"
where
  "foreachToTable desc dflt ty msg =
     ofold (\<lambda>t (i, fd).
       if fdRepeated fd then
         Option.bind (ofold (\<lambda>(u, flag) x.
             if fdType fd = TyUnsupported then Some (u, flag)
             else if fdType fd = TyMessage then
               Option.bind (foreachToTable desc dflt (fdMsg fd) (pmsg_of x)) (\<lambda>w. Some (lua_rawseti flag (LTable w) u, flag + 1))
             else Some (lua_rawseti flag (push_scalar x) u, flag + 1))
           ([], 1) (pvalues i msg)) (\<lambda>(u, flag).
         Some (lua_setfield (c_str (fdName fd)) (LTable u) t))
       else if fdType fd = TyUnsupported then Some t
       else if fdType fd = TyMessage then
         Option.bind (foreachToTable desc dflt (fdMsg fd) (case pvalues i msg of [] \<Rightarrow> [] | x # _ \<Rightarrow> pmsg_of x)) (\<lambda>w.
         Some (lua_setfield (c_str (fdName fd)) (LTable w) t))
       else Some (lua_setfield (c_str (fdName fd)) (push_scalar (case pvalues i msg of [] \<Rightarrow> dflt ty i | x # _ \<Rightarrow> x)) t))
     [] (enumerate 0 (desc ty))"

section \<open>The Lua calls\<close>

text \<open>
  \<open>encode\<close> checks its third argument and reads the top of the stack, its last.  The result is what
  the call returns: no value on an error; \<open>None\<close> when it does not return.
\<close>

definition encodeProto ::
  "('f \<Rightarrow> string) \<Rightarrow> ('f \<Rightarrow> int option) \<Rightarrow> (int \<Rightarrow> 'f) \<Rightarrow> ('f \<Rightarrow> 'f) \<Rightarrow> ('f lua_table \<Rightarrow> nat) \<Rightarrow> (nat \<Rightarrow> field list) \<Rightarrow>
   (string \<Rightarrow> nat option) \<Rightarrow> (nat \<Rightarrow> 'f pmsg \<Rightarrow> string option) \<Rightarrow> 'f lua_val list \<Rightarrow> 'f lua_val list res"
where
  "encodeProto fmt toint dbl single len desc typ serialize args =
     rbind (check_string fmt (if 1 < length args then args ! 1 else LNil)) (\<lambda>msgTypeName.
       if length args < 3 \<or> \<not> lua_istable (args ! 2) then Ok []
       else
         (case typ msgTypeName of
            None \<Rightarrow> Ok []
          | Some ty \<Rightarrow>
              (case serialize ty (foreachToMsg toint dbl single len desc ty (last args) []) of
                 None \<Rightarrow> Ok [] | Some data \<Rightarrow> Ok [LStr data])))"

definition decodeProto ::
  "('f \<Rightarrow> string) \<Rightarrow> (nat \<Rightarrow> field list) \<Rightarrow> (nat \<Rightarrow> nat \<Rightarrow> 'f pval) \<Rightarrow> (string \<Rightarrow> nat option) \<Rightarrow>
   (nat \<Rightarrow> string \<Rightarrow> 'f pmsg option) \<Rightarrow> 'f lua_val \<Rightarrow> 'f lua_val \<Rightarrow> 'f lua_val list res option"
where
  "decodeProto fmt desc dflt typ parse a2 a3 =
     (case check_string fmt a2 of
        Ok msgTypeName \<Rightarrow>
          (case lua_tostring fmt a3 of
             None \<Rightarrow> Some (Raises LuaError)
           | Some data \<Rightarrow>
               (case typ msgTypeName of
                  None \<Rightarrow> Some (Ok [])
                | Some ty \<Rightarrow>
                    (case parse ty data of
                       None \<Rightarrow> Some (Ok [])
                     | Some msg \<Rightarrow> map_option (\<lambda>t. Ok [LTable t]) (foreachToTable desc dflt ty msg))))
      | Raises e \<Rightarrow> Some (Raises e)
      | Loops \<Rightarrow> None)"

section \<open>When a decoder returns\<close>

text \<open>The message types that a type has as singular fields.\<close>

definition part_of :: "(nat \<Rightarrow> field list) \<Rightarrow> (nat \<times> nat) set" where
  "part_of desc = {(b, a). \<exists>fd \<in> set (desc a). \<not> fdRepeated fd \<and> fdType fd = TyMessage \<and> fdMsg fd = b}"

lemma ofold_elem: "ofold f a xs = Some b \<Longrightarrow> x \<in> set xs \<Longrightarrow> \<exists>c d. f c x = Some d"
  by (induction xs arbitrary: a) (auto simp: bind_eq_Some_conv)

lemma ofold_total: "(\<And>c x. x \<in> set xs \<Longrightarrow> \<exists>d. f c x = Some d) \<Longrightarrow> \<exists>b. ofold f a xs = Some b"
proof (induction xs arbitrary: a)
  case (Cons x xs)
  from Cons.prems obtain c where "f a x = Some c" by fastforce
  with Cons show ?case by simp
qed simp

lemma in_enumerate: "x \<in> set xs \<Longrightarrow> \<exists>i. (i, x) \<in> set (enumerate n xs)"
  by (metis in_set_conv_nth in_set_enumerate_eq add.commute diff_add_inverse fst_conv le_add1 length_enumerate nat_add_left_cancel_less snd_conv)

lemma table_accessible:
  "foreachToTable desc dflt ty msg = Some t \<Longrightarrow> ty \<in> Wellfounded.acc (part_of desc)"
  apply (erule foreachToTable.raw_induct [of "\<lambda>desc dflt ty msg t. ty \<in> Wellfounded.acc (part_of desc)", rotated])
  subgoal premises prems for rec desc dflt ty msg y
  proof (rule accI)
    fix b assume "(b, ty) \<in> part_of desc"
    then obtain fd where fd: "fd \<in> set (desc ty)" "\<not> fdRepeated fd" "fdType fd = TyMessage" "fdMsg fd = b"
      by (auto simp: part_of_def)
    then obtain i where "(i, fd) \<in> set (enumerate 0 (desc ty))" using in_enumerate [OF fd(1), of 0] by blast
    from ofold_elem [OF prems(2) this] fd obtain w where
      "rec desc dflt b (case pvalues i msg of [] \<Rightarrow> [] | x # _ \<Rightarrow> pmsg_of x) = Some w"
      by (auto simp: bind_eq_Some_conv)
    from prems(1) [OF this] show "b \<in> Wellfounded.acc (part_of desc)" .
  qed
  done

lemma part_smaller: "x \<in> set (pvalues i m) \<Longrightarrow> size (PMsg (pmsg_of x)) < size (PMsg m)"
proof -
  assume x: "x \<in> set (pvalues i m)"
  then obtain vs where vs: "(i, vs) \<in> set m" "x \<in> set vs"
    by (cases "map_of m i") (auto simp: pvalues_def dest: map_of_SomeD)
  let ?s = "size_prod (\<lambda>_. 0) (size_list size)"
  have "size x \<le> size_list size vs" using vs(2) by (rule size_list_estimation') simp
  then have "Suc (size x) \<le> ?s (i, vs)" by simp
  moreover have "?s (i, vs) \<le> size_list ?s m" using vs(1) by (rule size_list_estimation') (rule order_refl)
  ultimately have le: "Suc (size x) \<le> size_list ?s m" by simp
  then show ?thesis by (cases x) simp_all
qed

lemma table_total:
  assumes "wf (part_of desc)"
  shows "\<exists>t. foreachToTable desc dflt ty msg = Some t"
proof -
  have "wf (inv_image (less_than <*lex*> part_of desc) (\<lambda>(ty, msg). (size (PMsg msg), ty)))"
    using assms by (intro wf_inv_image wf_lex_prod wf_less_than)
  then have "\<exists>t. foreachToTable desc dflt (fst p) (snd p) = Some t" for p
  proof (induction p rule: wf_induct_rule)
    case (less p)
    obtain ty msg where p: "p = (ty, msg)" by (cases p)
    have sub: "\<exists>t. foreachToTable desc dflt b m = Some t"
      if "size (PMsg m) < size (PMsg msg) \<or> size (PMsg m) = size (PMsg msg) \<and> (b, ty) \<in> part_of desc" for b m
      using less [of "(b, m)"] that p by auto
    have least: "size (PMsg []) = size (PMsg msg) \<or> size (PMsg []) < size (PMsg msg)" by (cases msg) auto
    have field: "fd \<in> set (desc ty)" if "(i, fd) \<in> set (enumerate 0 (desc ty))" for i fd
      using that by (auto simp: in_set_enumerate_eq)
    have inner: "\<exists>r. ofold (\<lambda>(u, flag) x.
        if fdType fd = TyUnsupported then Some (u, flag)
        else if fdType fd = TyMessage then
          Option.bind (foreachToTable desc dflt (fdMsg fd) (pmsg_of x)) (\<lambda>w. Some (lua_rawseti flag (LTable w) u, flag + 1))
        else Some (lua_rawseti flag (push_scalar x) u, flag + 1)) c (pvalues i msg) = Some r" for fd :: field and i c
    proof (rule ofold_total, clarify)
      fix x u flag assume "x \<in> set (pvalues i msg)"
      with sub [of "pmsg_of x" "fdMsg fd"] part_smaller obtain w where "foreachToTable desc dflt (fdMsg fd) (pmsg_of x) = Some w"
        by blast
      then show "\<exists>d. (if fdType fd = TyUnsupported then Some (u, flag)
        else if fdType fd = TyMessage then
          Option.bind (foreachToTable desc dflt (fdMsg fd) (pmsg_of x)) (\<lambda>w. Some (lua_rawseti flag (LTable w) u, flag + 1))
        else Some (lua_rawseti flag (push_scalar x) u, flag + 1)) = Some d" by simp
    qed
    have single: "\<exists>w. foreachToTable desc dflt (fdMsg fd) (case pvalues i msg of [] \<Rightarrow> [] | x # _ \<Rightarrow> pmsg_of x) = Some w"
      if fd: "fd \<in> set (desc ty)" "\<not> fdRepeated fd" "fdType fd = TyMessage" for fd i
    proof (cases "pvalues i msg")
      case Nil
      from fd have "(fdMsg fd, ty) \<in> part_of desc" by (auto simp: part_of_def)
      with sub [of "[]" "fdMsg fd"] least Nil show ?thesis by auto
    next
      case (Cons x xs)
      with part_smaller [of x i msg] sub [of "pmsg_of x" "fdMsg fd"] show ?thesis by simp
    qed
    have "\<exists>t. foreachToTable desc dflt ty msg = Some t"
    proof (subst foreachToTable.simps, rule ofold_total, clarify)
      fix t i fd assume "(i, fd) \<in> set (enumerate 0 (desc ty))"
      note fd = field [OF this]
      obtain u flag where r: "ofold (\<lambda>(u, flag) x.
        if fdType fd = TyUnsupported then Some (u, flag)
        else if fdType fd = TyMessage then
          Option.bind (foreachToTable desc dflt (fdMsg fd) (pmsg_of x)) (\<lambda>w. Some (lua_rawseti flag (LTable w) u, flag + 1))
        else Some (lua_rawseti flag (push_scalar x) u, flag + 1)) ([], 1) (pvalues i msg) = Some (u, flag)"
        using inner by force
      show "\<exists>d. (if fdRepeated fd then
         Option.bind (ofold (\<lambda>(u, flag) x.
             if fdType fd = TyUnsupported then Some (u, flag)
             else if fdType fd = TyMessage then
               Option.bind (foreachToTable desc dflt (fdMsg fd) (pmsg_of x)) (\<lambda>w. Some (lua_rawseti flag (LTable w) u, flag + 1))
             else Some (lua_rawseti flag (push_scalar x) u, flag + 1))
           ([], 1) (pvalues i msg)) (\<lambda>(u, flag).
         Some (lua_setfield (c_str (fdName fd)) (LTable u) t))
       else if fdType fd = TyUnsupported then Some t
       else if fdType fd = TyMessage then
         Option.bind (foreachToTable desc dflt (fdMsg fd) (case pvalues i msg of [] \<Rightarrow> [] | x # _ \<Rightarrow> pmsg_of x)) (\<lambda>w.
         Some (lua_setfield (c_str (fdName fd)) (LTable w) t))
       else Some (lua_setfield (c_str (fdName fd)) (push_scalar (case pvalues i msg of [] \<Rightarrow> dflt ty i | x # _ \<Rightarrow> x)) t)) = Some d"
        using r single [OF fd, of i] by auto
    qed
    then show ?case by (simp add: p)
  qed
  from this [of "(ty, msg)"] show ?thesis by simp
qed

lemma not_own_part: "a \<in> Wellfounded.acc r \<Longrightarrow> (a, a) \<notin> r\<^sup>+"
proof (induction rule: acc.induct)
  case (accI a)
  show ?case
  proof
    assume "(a, a) \<in> r\<^sup>+"
    then obtain b where "(a, b) \<in> r\<^sup>*" "(b, a) \<in> r" by (auto dest: tranclD2)
    with accI.IH show False by (meson rtrancl_into_trancl2)
  qed
qed

section \<open>Properties\<close>

text \<open>
  C37: decoding comes back from every message of every type exactly when no message type contains
  itself through singular fields, in any number of steps: a schema with such a type, as
  \<open>message Node { Node next = 1; }\<close>, makes every \<open>decode\<close> of it recurse without end, whatever bytes
  it is given, because the loop asks for a mutable submessage also where there is none.
\<close>

theorem proto_decode_returns_iff:
  "(\<forall>ty msg. foreachToTable desc dflt ty msg \<noteq> None) \<longleftrightarrow> wf (part_of desc)"
proof
  assume all: "\<forall>ty msg. foreachToTable desc dflt ty msg \<noteq> None"
  have "ty \<in> Wellfounded.acc (part_of desc)" for ty
    using all table_accessible by (metis not_None_eq)
  then show "wf (part_of desc)" by (simp add: acc_wfI)
next
  assume "wf (part_of desc)"
  with table_total show "\<forall>ty msg. foreachToTable desc dflt ty msg \<noteq> None" by (metis option.distinct(1))
qed

text \<open>The type in question alone: a message type that is a part of itself is never decoded.\<close>

lemma proto_self_part_hangs:
  assumes "(ty, ty) \<in> (part_of desc)\<^sup>+" and "typ (c_str name) = Some ty" and "parse ty data = Some msg"
  shows "decodeProto fmt desc dflt typ parse (LStr name) (LStr data) = None"
proof -
  have "ty \<notin> Wellfounded.acc (part_of desc)"
  proof
    assume "ty \<in> Wellfounded.acc (part_of desc)"
    from not_own_part [OF this] assms(1) show False by (rule notE)
  qed
  with table_accessible [of desc dflt ty msg] have "foreachToTable desc dflt ty msg = None"
    by (cases "foreachToTable desc dflt ty msg") auto
  with assms(2,3) show ?thesis by (simp add: decodeProto_def)
qed

end
