(* ===== verification/ProtoFacts.thy ===== *)
theory ProtoFacts
  imports Protobuf
begin

text \<open>
  What comes back from a message: the values that fit a message type, and that \<open>decode\<close> of \<open>encode\<close> gives
  them back.
\<close>

section \<open>Values that fit\<close>

definition scalar_fits :: "('f \<Rightarrow> 'f) \<Rightarrow> field_type \<Rightarrow> 'f lua_val \<Rightarrow> bool" where
  "scalar_fits single ty v \<longleftrightarrow>
     (case ty of
        TyBool \<Rightarrow> (\<exists>b. v = LBool b)
      | TyString \<Rightarrow> (\<exists>s. v = LStr s \<and> c_str s = s)
      | TyFloat \<Rightarrow> (\<exists>x. v = LFloat x \<and> single x = x)
      | TyDouble \<Rightarrow> (\<exists>x. v = LFloat x)
      | TyMessage \<Rightarrow> False
      | TyUnsupported \<Rightarrow> False
      | _ \<Rightarrow> (\<exists>i. v = LInt i \<and>
          (if ty \<in> {TyInt32, TySfixed32, TySint32} then to_i32 i = i
           else if ty \<in> {TyFixed32, TyUint32} then take_bit 32 i = i
           else signed_take_bit 63 i = i)))"

definition is_list :: "'f lua_table \<Rightarrow> bool" where
  "is_list u \<longleftrightarrow> map fst u = map LInt [1..int (length u)]"

text \<open>
  A value fits a message type when it is a table of all its fields in their order, with lists for the
  repeated ones.
\<close>

inductive proto_fits :: "('f \<Rightarrow> 'f) \<Rightarrow> ('f lua_table \<Rightarrow> nat) \<Rightarrow> (nat \<Rightarrow> field list) \<Rightarrow> nat \<Rightarrow> 'f lua_val \<Rightarrow> bool"
  for single len desc
where
  fits: "map fst t = map (\<lambda>fd. LStr (fdName fd)) (desc ty) \<Longrightarrow> distinct (map fdName (desc ty)) \<Longrightarrow>
    \<forall>fd \<in> set (desc ty). c_str (fdName fd) = fdName fd \<Longrightarrow>
    \<forall>i < length t. fdRepeated (desc ty ! i) \<longrightarrow> (\<exists>u. snd (t ! i) = LTable u \<and> is_list u \<and> len u = length u) \<Longrightarrow>
    \<forall>i < length t. \<forall>v. (if fdRepeated (desc ty ! i) then v \<in> snd ` (case snd (t ! i) of LTable u \<Rightarrow> set u | _ \<Rightarrow> {}) else v = snd (t ! i)) \<longrightarrow>
      (fdType (desc ty ! i) = TyMessage \<longrightarrow> proto_fits single len desc (fdMsg (desc ty ! i)) v) \<and>
      (fdType (desc ty ! i) \<noteq> TyMessage \<longrightarrow> scalar_fits single (fdType (desc ty ! i)) v) \<Longrightarrow>
    proto_fits single len desc ty (LTable t)"

inductive_cases proto_fits_table: "proto_fits single len desc ty v"

inductive_simps proto_fits_iff: "proto_fits single len desc ty (LTable t)"

lemma scalar_back:
  assumes "scalar_fits single ty v"
  shows "\<exists>p. scalar_of toint dbl single ty v = Some p \<and> push_scalar p = v"
proof -
  have small: "to_i32 i = i \<Longrightarrow> signed_take_bit 63 i = i" for i
    using to_i32_range [of i] by (simp add: signed_take_bit_int_eq_self)
  have unsigned: "take_bit 32 i = i \<Longrightarrow> signed_take_bit 63 i = i" for i :: int
  proof -
    assume i: "take_bit 32 i = i"
    have "0 \<le> i" "i < 2 ^ 32" using i take_bit_int_less_exp [of 32 i] take_bit_nonnegative [of 32 i] by simp_all
    then show ?thesis by (simp add: signed_take_bit_int_eq_self)
  qed
  have wide: "signed_take_bit 63 (take_bit 64 i) = signed_take_bit 63 i" for i :: int
    by (simp add: signed_take_bit_take_bit)
  show ?thesis using assms small unsigned wide by (cases ty) (auto simp: scalar_fits_def)
qed

section \<open>Fields of a message\<close>

lemma pvalues_pset: "pvalues i (pset j vs m) = (if i = j then vs else pvalues i m)"
  by (simp add: pvalues_def pset_def update_conv)

lemma foldl_fields:
  assumes "distinct (map fst xs)" and "\<forall>x \<in> set xs. pvalues (fst x) m = []"
    and "\<And>m x. x \<in> set xs \<Longrightarrow> pvalues (fst x) m = [] \<Longrightarrow>
      pvalues (fst x) (step m x) = V x \<and> (\<forall>j. j \<noteq> fst x \<longrightarrow> pvalues j (step m x) = pvalues j m)"
  shows "(\<forall>x \<in> set xs. pvalues (fst x) (foldl step m xs) = V x) \<and>
    (\<forall>j. j \<notin> fst ` set xs \<longrightarrow> pvalues j (foldl step m xs) = pvalues j m)"
  using assms
proof (induction xs arbitrary: m)
  case (Cons x xs)
  let ?m = "step m x"
  have x: "pvalues (fst x) ?m = V x" "\<And>j. j \<noteq> fst x \<Longrightarrow> pvalues j ?m = pvalues j m"
    using Cons.prems(2) Cons.prems(3) [of x m] by simp_all
  have new: "fst x \<notin> fst ` set xs" using Cons.prems(1) by simp
  have free: "\<forall>y \<in> set xs. pvalues (fst y) ?m = []"
  proof
    fix y assume "y \<in> set xs"
    then show "pvalues (fst y) ?m = []" using new x(2) [of "fst y"] Cons.prems(2) by (metis image_eqI list.set_intros(2))
  qed
  have "distinct (map fst xs)" using Cons.prems(1) by simp
  from Cons.IH [OF this free] Cons.prems(3) have IH:
    "\<forall>y \<in> set xs. pvalues (fst y) (foldl step ?m xs) = V y"
    "\<forall>j. j \<notin> fst ` set xs \<longrightarrow> pvalues j (foldl step ?m xs) = pvalues j ?m" by simp_all
  show ?case using IH x new by auto
qed simp

lemma foldl_appends:
  assumes "\<And>m j. j \<in> set js \<Longrightarrow> step m j = pset i (pvalues i m @ [E j]) m"
  shows "pvalues i (foldl step m js) = pvalues i m @ map E js \<and> (\<forall>k. k \<noteq> i \<longrightarrow> pvalues k (foldl step m js) = pvalues k m)"
  using assms by (induction js arbitrary: m) (simp_all add: pvalues_pset)

lemma list_get:
  assumes "is_list u" and "j < length u"
  shows "lt_get u (LInt (int j + 1)) = snd (u ! j)"
proof -
  have d: "distinct (map fst u)" using assms(1) by (simp add: is_list_def distinct_map inj_on_def)
  have "map fst u ! j = LInt (int j + 1)" using assms by (simp add: is_list_def)
  then have "u ! j = (LInt (int j + 1), snd (u ! j))" using assms(2) by (metis nth_map prod.collapse)
  then have "(LInt (int j + 1), snd (u ! j)) \<in> set u" using assms(2) nth_mem by metis
  with d have "map_of u (LInt (int j + 1)) = Some (snd (u ! j))" by simp
  then show ?thesis by (simp add: lt_get_def)
qed

lemma field_get:
  assumes "map fst t = map (\<lambda>fd. LStr (fdName fd)) fds" and "distinct (map fdName fds)" and "i < length t"
  shows "lt_get t (LStr (fdName (fds ! i))) = snd (t ! i)"
proof -
  have "distinct (map fst t)" using assms(1,2) by (simp add: distinct_map inj_on_def)
  moreover have "t ! i = (LStr (fdName (fds ! i)), snd (t ! i))"
    using assms(1,3) by (metis length_map nth_map prod.collapse)
  then have "(LStr (fdName (fds ! i)), snd (t ! i)) \<in> set t" using assms(3) nth_mem by metis
  ultimately have "map_of t (LStr (fdName (fds ! i))) = Some (snd (t ! i))" by simp
  then show ?thesis by (simp add: lt_get_def)
qed

section \<open>Encoding\<close>

text \<open>The values that a field of the message takes from the entry of the table.\<close>

definition elem_val ::
  "('f \<Rightarrow> int option) \<Rightarrow> (int \<Rightarrow> 'f) \<Rightarrow> ('f \<Rightarrow> 'f) \<Rightarrow> ('f lua_table \<Rightarrow> nat) \<Rightarrow> (nat \<Rightarrow> field list) \<Rightarrow> field \<Rightarrow>
   'f lua_val \<Rightarrow> 'f pval"
where
  "elem_val toint dbl single len desc fd v =
     (if fdType fd = TyMessage then PMsg (foreachToMsg toint dbl single len desc (fdMsg fd) v [])
      else the (scalar_of toint dbl single (fdType fd) v))"

definition field_vals ::
  "('f \<Rightarrow> int option) \<Rightarrow> (int \<Rightarrow> 'f) \<Rightarrow> ('f \<Rightarrow> 'f) \<Rightarrow> ('f lua_table \<Rightarrow> nat) \<Rightarrow> (nat \<Rightarrow> field list) \<Rightarrow> field \<Rightarrow>
   'f lua_val \<Rightarrow> 'f pval list"
where
  "field_vals toint dbl single len desc fd v =
     (if fdRepeated fd then (case v of LTable u \<Rightarrow> map (\<lambda>e. elem_val toint dbl single len desc fd (snd e)) u | _ \<Rightarrow> [])
      else [elem_val toint dbl single len desc fd v])"

text \<open>What fits a field: a message or a scalar.\<close>

definition elem_fits ::
  "('f \<Rightarrow> 'f) \<Rightarrow> ('f lua_table \<Rightarrow> nat) \<Rightarrow> (nat \<Rightarrow> field list) \<Rightarrow> field \<Rightarrow> 'f lua_val \<Rightarrow> bool"
where
  "elem_fits single len desc fd v \<longleftrightarrow>
     (if fdType fd = TyMessage then proto_fits single len desc (fdMsg fd) v else scalar_fits single (fdType fd) v)"

lemma fits_parts:
  assumes "proto_fits single len desc ty (LTable t)"
  shows "map fst t = map (\<lambda>fd. LStr (fdName fd)) (desc ty)" and "distinct (map fdName (desc ty))"
    and "\<And>fd. fd \<in> set (desc ty) \<Longrightarrow> c_str (fdName fd) = fdName fd"
    and "\<And>i. i < length t \<Longrightarrow> fdRepeated (desc ty ! i) \<Longrightarrow>
      \<exists>u. snd (t ! i) = LTable u \<and> is_list u \<and> len u = length u \<and> (\<forall>e \<in> set u. elem_fits single len desc (desc ty ! i) (snd e))"
    and "\<And>i. i < length t \<Longrightarrow> \<not> fdRepeated (desc ty ! i) \<Longrightarrow> elem_fits single len desc (desc ty ! i) (snd (t ! i))"
proof -
  note all = assms [unfolded proto_fits_iff]
  from all show "map fst t = map (\<lambda>fd. LStr (fdName fd)) (desc ty)" "distinct (map fdName (desc ty))"
    "\<And>fd. fd \<in> set (desc ty) \<Longrightarrow> c_str (fdName fd) = fdName fd" by blast+
  have rep: "\<exists>u. snd (t ! i) = LTable u \<and> is_list u \<and> len u = length u" if "i < length t" "fdRepeated (desc ty ! i)" for i
    using all that by blast
  have elem: "elem_fits single len desc (desc ty ! i) v"
    if "i < length t" "if fdRepeated (desc ty ! i) then v \<in> snd ` (case snd (t ! i) of LTable u \<Rightarrow> set u | _ \<Rightarrow> {}) else v = snd (t ! i)"
    for i v
    using all that unfolding elem_fits_def by presburger
  show "\<exists>u. snd (t ! i) = LTable u \<and> is_list u \<and> len u = length u \<and> (\<forall>e \<in> set u. elem_fits single len desc (desc ty ! i) (snd e))"
    if "i < length t" "fdRepeated (desc ty ! i)" for i
  proof -
    from rep [OF that] obtain u where u: "snd (t ! i) = LTable u" "is_list u" "len u = length u" by blast
    moreover have "\<forall>e \<in> set u. elem_fits single len desc (desc ty ! i) (snd e)" using elem [OF that(1)] that(2) u(1) by simp
    ultimately show ?thesis by blast
  qed
  show "elem_fits single len desc (desc ty ! i) (snd (t ! i))" if "i < length t" "\<not> fdRepeated (desc ty ! i)" for i
    using elem [OF that(1)] that(2) by simp
qed

lemma fits_is_table: "proto_fits single len desc ty v \<Longrightarrow> \<exists>t. v = LTable t"
  by (erule proto_fits_table) simp

lemma elem_stored:
  assumes "elem_fits single len desc fd v"
  shows "(if fdType fd = TyMessage then (if lua_istable v then Some (PMsg (foreachToMsg toint dbl single len desc (fdMsg fd) v [])) else None)
    else scalar_of toint dbl single (fdType fd) v) = Some (elem_val toint dbl single len desc fd v)"
proof (cases "fdType fd = TyMessage")
  case True
  with assms fits_is_table obtain t where "v = LTable t" unfolding elem_fits_def by fastforce
  with True show ?thesis by (simp add: elem_val_def)
next
  case False
  with assms have "scalar_fits single (fdType fd) v" by (simp add: elem_fits_def)
  from scalar_back [OF this, of toint dbl] False show ?thesis by (auto simp: elem_val_def)
qed

lemma encoded:
  assumes "proto_fits single len desc ty (LTable t)" and "i < length t"
  shows "pvalues i (foreachToMsg toint dbl single len desc ty (LTable t) []) = field_vals toint dbl single len desc (desc ty ! i) (snd (t ! i))"
proof -
  note parts = fits_parts [OF assms(1)]
  let ?F = "foreachToMsg toint dbl single len desc" and ?V = "\<lambda>(i, fd). field_vals toint dbl single len desc fd (snd (t ! i))"
  let ?step = "\<lambda>msg (i, fd).
       let v = lt_get t (LStr (c_str (fdName fd))) in
       if fdRepeated fd then
         (case v of
            LTable u \<Rightarrow>
              foldl (\<lambda>msg j.
                let x = lt_get u (LInt (int j + 1)) in
                if fdType fd = TyMessage then
                  (if lua_istable x then pset i (pvalues i msg @ [PMsg (?F (fdMsg fd) x [])]) msg else msg)
                else (case scalar_of toint dbl single (fdType fd) x of
                        None \<Rightarrow> msg | Some p \<Rightarrow> pset i (pvalues i msg @ [p]) msg))
              msg [0..<len u]
          | _ \<Rightarrow> msg)
       else if fdType fd = TyMessage then pset i [PMsg (?F (fdMsg fd) v [])] msg
       else (case scalar_of toint dbl single (fdType fd) v of None \<Rightarrow> msg | Some p \<Rightarrow> pset i [p] msg)"
  have n: "length t = length (desc ty)" using parts(1) by (metis length_map)
  have step: "pvalues (fst x) (?step m x) = ?V x \<and> (\<forall>j. j \<noteq> fst x \<longrightarrow> pvalues j (?step m x) = pvalues j m)"
    if x: "x \<in> set (enumerate 0 (desc ty))" and m: "pvalues (fst x) m = []" for m x
  proof -
    obtain k fd where xk: "x = (k, fd)" by (cases x)
    with x n have k: "x = (k, fd)" "k < length t" "fd = desc ty ! k" by (simp_all add: in_set_enumerate_eq)
    then have "c_str (fdName fd) = fdName fd" using parts(3) n by simp
    with field_get [OF parts(1,2) k(2)] k(3) have v: "lt_get t (LStr (c_str (fdName fd))) = snd (t ! k)" by simp
    show ?thesis
    proof (cases "fdRepeated fd")
      case True
      with parts(4) k obtain u where u: "snd (t ! k) = LTable u" "is_list u" "len u = length u"
        "\<And>e. e \<in> set u \<Longrightarrow> elem_fits single len desc fd (snd e)" by blast
      let ?E = "\<lambda>j. elem_val toint dbl single len desc fd (snd (u ! j))"
      let ?in = "\<lambda>msg j.
                let x = lt_get u (LInt (int j + 1)) in
                if fdType fd = TyMessage then
                  (if lua_istable x then pset k (pvalues k msg @ [PMsg (?F (fdMsg fd) x [])]) msg else msg)
                else (case scalar_of toint dbl single (fdType fd) x of
                        None \<Rightarrow> msg | Some p \<Rightarrow> pset k (pvalues k msg @ [p]) msg)"
      have inner: "?in msg j = pset k (pvalues k msg @ [?E j]) msg" if j: "j \<in> set [0..<len u]" for msg j
      proof -
        from j u(3) have "lt_get u (LInt (int j + 1)) = snd (u ! j)" using list_get [OF u(2), of j] by simp
        moreover have "elem_fits single len desc fd (snd (u ! j))" using u(3,4) j by simp
        ultimately show ?thesis using elem_stored [of single len desc fd "snd (u ! j)" toint dbl] by (auto simp: Let_def split: if_splits)
      qed
      have "pvalues k (foldl ?in m [0..<len u]) = pvalues k m @ map ?E [0..<len u] \<and>
          (\<forall>j. j \<noteq> k \<longrightarrow> pvalues j (foldl ?in m [0..<len u]) = pvalues j m)"
        by (rule foldl_appends [where step = ?in and E = ?E]) (rule inner)
      moreover have "map ?E [0..<length u] = map (\<lambda>e. elem_val toint dbl single len desc fd (snd e)) u"
        by (rule nth_equalityI) simp_all
      ultimately show ?thesis using True v k(1) u(1,3) m by (simp add: Let_def field_vals_def)
    next
      case False
      with parts(5) k have "elem_fits single len desc fd (snd (t ! k))" by blast
      from elem_stored [OF this, of toint dbl] False v k show ?thesis
        by (auto simp: Let_def field_vals_def pvalues_pset split: if_splits)
    qed
  qed
  have "(i, desc ty ! i) \<in> set (enumerate 0 (desc ty))" using assms(2) n by (simp add: in_set_enumerate_eq)
  moreover have "\<forall>x \<in> set (enumerate 0 (desc ty)). pvalues (fst x) ([] :: 'a pmsg) = []" by (simp add: pvalues_def)
  moreover have "distinct (map fst (enumerate 0 (desc ty)))" by (simp add: map_fst_enumerate)
  ultimately show ?thesis
    using foldl_fields [of "enumerate 0 (desc ty)" "[]" ?step ?V] step
    by (simp only: foreachToMsg.simps) (metis (no_types, lifting) case_prod_conv fst_conv)
qed

section \<open>Decoding\<close>

lemma ofold_puts:
  assumes "\<And>x t. x \<in> set xs \<Longrightarrow> f t x = Some (lua_setfield (N x) (V x) t) \<and> V x \<noteq> LNil"
    and "distinct (map N xs)" and "\<forall>x \<in> set xs. LStr (N x) \<notin> fst ` set u"
  shows "ofold f u xs = Some (u @ map (\<lambda>x. (LStr (N x), V x)) xs)"
  using assms
proof (induction xs arbitrary: u)
  case (Cons x xs)
  have "lua_setfield (N x) (V x) u = u @ [(LStr (N x), V x)]" using Cons.prems(1) [of x] Cons.prems(3) by (simp add: lt_set_new)
  with Cons.prems(1) [of x] have "f u x = Some (u @ [(LStr (N x), V x)])" by simp
  moreover have "\<forall>y \<in> set xs. LStr (N y) \<notin> fst ` set (u @ [(LStr (N x), V x)])"
  proof
    fix y assume y: "y \<in> set xs"
    then have "N y \<in> set (map N xs)" by simp
    with Cons.prems(2) have "N y \<noteq> N x" by auto
    with y Cons.prems(3) show "LStr (N y) \<notin> fst ` set (u @ [(LStr (N x), V x)])" by simp
  qed
  ultimately show ?case using Cons.IH [of "u @ [(LStr (N x), V x)]"] Cons.prems(1,2) by simp
qed simp

lemma ofold_list:
  assumes "\<And>x u flag. x \<in> set xs \<Longrightarrow> f (u, flag) (G x) = Some (lua_rawseti flag (V x) u, flag + 1) \<and> V x \<noteq> LNil"
    and "\<forall>j \<ge> i. LInt j \<notin> fst ` set u"
  shows "ofold f (u, i) (map G xs) = Some (u @ zip (map LInt [i..i + int (length xs) - 1]) (map V xs), i + int (length xs))"
  using assms
proof (induction xs arbitrary: u i)
  case (Cons x xs)
  have "lua_rawseti i (V x) u = u @ [(LInt i, V x)]" using Cons.prems(1) [of x] Cons.prems(2) by (simp add: lt_set_new)
  with Cons.prems(1) [of x] have "f (u, i) (G x) = Some (u @ [(LInt i, V x)], i + 1)" by simp
  moreover have "\<forall>j \<ge> i + 1. LInt j \<notin> fst ` set (u @ [(LInt i, V x)])" using Cons.prems(2) by auto
  ultimately show ?case using Cons.IH [of "i + 1" "u @ [(LInt i, V x)]"] Cons.prems(1) by (simp add: upto_rec1)
qed simp

fun table_of :: "'f lua_val \<Rightarrow> 'f lua_table" where
  "table_of (LTable t) = t"
| "table_of v = []"

lemma elem_back:
  assumes "elem_fits single len desc fd v"
    and "fdType fd = TyMessage \<Longrightarrow>
      foreachToTable desc dflt (fdMsg fd) (foreachToMsg toint dbl single len desc (fdMsg fd) v []) = Some (table_of v)"
  shows "fdType fd \<noteq> TyUnsupported \<and> v \<noteq> LNil \<and>
    (if fdType fd = TyMessage
     then foreachToTable desc dflt (fdMsg fd) (pmsg_of (elem_val toint dbl single len desc fd v)) = Some (table_of v) \<and> LTable (table_of v) = v
     else push_scalar (elem_val toint dbl single len desc fd v) = v)"
proof (cases "fdType fd = TyMessage")
  case True
  with assms(1) have "proto_fits single len desc (fdMsg fd) v" by (simp add: elem_fits_def)
  with fits_is_table obtain t where "v = LTable t" by blast
  with assms(2) True show ?thesis by (simp add: elem_val_def)
next
  case False
  with assms(1) have f: "scalar_fits single (fdType fd) v" by (simp add: elem_fits_def)
  then have "fdType fd \<noteq> TyUnsupported" "v \<noteq> LNil" by (auto simp: scalar_fits_def split: field_type.splits)
  moreover from scalar_back [OF f, of toint dbl] False
  have "push_scalar (elem_val toint dbl single len desc fd v) = v" by (auto simp: elem_val_def)
  ultimately show ?thesis using False by simp
qed

lemma list_back:
  assumes "is_list u" and "\<And>e w flag. e \<in> set u \<Longrightarrow> f (w, flag) (G (snd e)) = Some (lua_rawseti flag (snd e) w, flag + 1) \<and> snd e \<noteq> LNil"
  shows "ofold f ([], 1) (map (\<lambda>e. G (snd e)) u) = Some (u, 1 + int (length u))"
proof -
  have "zip (map LInt [1..int (length u)]) (map snd u) = u"
    using assms(1) zip_map_fst_snd [of u] by (simp only: is_list_def)
  with ofold_list [of u f "\<lambda>e. G (snd e)" snd 1 "[]"] assms(2) show ?thesis by simp
qed

lemma decoded:
  assumes "proto_fits single len desc ty v"
  shows "foreachToTable desc dflt ty (foreachToMsg toint dbl single len desc ty v []) = Some (table_of v)"
  using assms
proof (induction rule: proto_fits.induct)
  case (fits t ty)
  let ?F = "foreachToMsg toint dbl single len desc"
  let ?msg = "?F ty (LTable t) []"
  have "proto_fits single len desc ty (LTable t)"
    by (rule proto_fits.fits) (use fits in blast)+
  note parts = fits_parts [OF this] and vals = encoded [OF this, of _ toint dbl]
  have n: "length t = length (desc ty)" using parts(1) by (metis length_map)
  have sub: "foreachToTable desc dflt (fdMsg (desc ty ! i)) (?F (fdMsg (desc ty ! i)) v []) = Some (table_of v)"
    if "i < length t" "fdType (desc ty ! i) = TyMessage"
      "if fdRepeated (desc ty ! i) then v \<in> snd ` (case snd (t ! i) of LTable u \<Rightarrow> set u | _ \<Rightarrow> {}) else v = snd (t ! i)" for i v
    using fits(5) that by blast
  let ?inner = "\<lambda>fd (u, flag) x.
             if fdType fd = TyUnsupported then Some (u, flag)
             else if fdType fd = TyMessage then
               Option.bind (foreachToTable desc dflt (fdMsg fd) (pmsg_of x)) (\<lambda>w. Some (lua_rawseti flag (LTable w) u, flag + 1))
             else Some (lua_rawseti flag (push_scalar x) u, flag + 1)"
  let ?step = "\<lambda>t (i, fd).
       if fdRepeated fd then
         Option.bind (ofold (?inner fd) ([], 1) (pvalues i ?msg)) (\<lambda>(u, flag).
         Some (lua_setfield (c_str (fdName fd)) (LTable u) t))
       else if fdType fd = TyUnsupported then Some t
       else if fdType fd = TyMessage then
         Option.bind (foreachToTable desc dflt (fdMsg fd) (case pvalues i ?msg of [] \<Rightarrow> [] | x # _ \<Rightarrow> pmsg_of x)) (\<lambda>w.
         Some (lua_setfield (c_str (fdName fd)) (LTable w) t))
       else Some (lua_setfield (c_str (fdName fd)) (push_scalar (case pvalues i ?msg of [] \<Rightarrow> dflt ty i | x # _ \<Rightarrow> x)) t)"
  have step: "?step a x = Some (lua_setfield (fdName (snd x)) (snd (t ! fst x)) a) \<and> snd (t ! fst x) \<noteq> LNil"
    if x: "x \<in> set (enumerate 0 (desc ty))" for x a
  proof -
    obtain k fd where xk: "x = (k, fd)" by (cases x)
    with x n have k: "k < length t" "fd = desc ty ! k" by (simp_all add: in_set_enumerate_eq)
    then have name: "c_str (fdName fd) = fdName fd" using parts(3) n by simp
    note val = vals [OF k(1)]
    show ?thesis
    proof (cases "fdRepeated fd")
      case True
      with parts(4) k obtain u where u: "snd (t ! k) = LTable u" "is_list u"
        "\<And>e. e \<in> set u \<Longrightarrow> elem_fits single len desc fd (snd e)" by blast
      let ?G = "elem_val toint dbl single len desc fd"
      have one: "?inner fd (w, flag) (?G (snd e)) = Some (lua_rawseti flag (snd e) w, flag + 1) \<and> snd e \<noteq> LNil"
        if e: "e \<in> set u" for e w flag
      proof -
        have "foreachToTable desc dflt (fdMsg fd) (?F (fdMsg fd) (snd e) []) = Some (table_of (snd e))"
          if "fdType fd = TyMessage" using sub [OF k(1)] that True k(2) u(1) e by simp
        from elem_back [OF u(3) [OF e] this] show ?thesis by (auto split: if_splits)
      qed
      have "pvalues k ?msg = map (\<lambda>e. ?G (snd e)) u" using val True k(2) u(1) by (simp add: field_vals_def)
      with list_back [OF u(2), of "?inner fd" ?G] one
      have "ofold (?inner fd) ([], 1) (pvalues k ?msg) = Some (u, 1 + int (length u))" by simp
      with True name u(1) xk show ?thesis by simp
    next
      case False
      with parts(5) k have f: "elem_fits single len desc fd (snd (t ! k))" by blast
      have "foreachToTable desc dflt (fdMsg fd) (?F (fdMsg fd) (snd (t ! k)) []) = Some (table_of (snd (t ! k)))"
        if "fdType fd = TyMessage" using sub [OF k(1)] that False k(2) by simp
      note again = elem_back [OF f this]
      have "pvalues k ?msg = [elem_val toint dbl single len desc fd (snd (t ! k))]"
        using val False k(2) by (simp add: field_vals_def)
      with again False name xk show ?thesis by (auto split: if_splits)
    qed
  qed
  have "distinct (map (\<lambda>x. fdName (snd x)) (enumerate 0 (desc ty)))"
    using parts(2) map_snd_enumerate [of 0 "desc ty"] by (metis (no_types, lifting) comp_apply map_eq_conv map_map)
  from ofold_puts [of "enumerate 0 (desc ty)" ?step, OF step this, of "[]"]
  have "ofold ?step [] (enumerate 0 (desc ty)) = Some (map (\<lambda>x. (LStr (fdName (snd x)), snd (t ! fst x))) (enumerate 0 (desc ty)))"
    by simp
  also have "map (\<lambda>x. (LStr (fdName (snd x)), snd (t ! fst x))) (enumerate 0 (desc ty)) = t"
  proof (rule nth_equalityI)
    fix i assume "i < length (map (\<lambda>x. (LStr (fdName (snd x)), snd (t ! fst x))) (enumerate 0 (desc ty)))"
    then have i: "i < length (desc ty)" by simp
    then have "fst (t ! i) = LStr (fdName (desc ty ! i))" using parts(1) n by (metis nth_map)
    then have "(LStr (fdName (desc ty ! i)), snd (t ! i)) = t ! i" by (metis prod.collapse)
    with i show "map (\<lambda>x. (LStr (fdName (snd x)), snd (t ! fst x))) (enumerate 0 (desc ty)) ! i = t ! i"
      by (simp add: nth_enumerate_eq)
  qed (simp add: n)
  finally show ?case by (subst foreachToTable.simps) simp
qed

section \<open>Round trip\<close>

text \<open>
  C34: What \<open>encode\<close> makes of a table that fits its message type, \<open>decode\<close> gives back, entry by entry and in
  the order of the descriptor: nested messages, lists and numbers included.  The hypothesis on the
  library is that it parses what it has serialised, for a type whose fields track their presence;
  \<open>len\<close> gives the length of the lists in the table.
\<close>

theorem proto_roundtrip:
  assumes "proto_fits single len desc ty (LTable t)" and "typ (c_str name) = Some ty"
    and "serialize ty (foreachToMsg toint dbl single len desc ty (LTable t) []) = Some data"
    and "parse ty data = Some (foreachToMsg toint dbl single len desc ty (LTable t) [])"
  shows "encodeProto fmt toint dbl single len desc typ serialize [self, LStr name, LTable t] = Ok [LStr data] \<and>
    decodeProto fmt desc dflt typ parse (LStr name) (LStr data) = Some (Ok [LTable t])"
  using assms(2-4) decoded [OF assms(1), of dflt toint dbl] by (simp add: encodeProto_def decodeProto_def)

text \<open>A type with a \<open>bool\<close> as field number 1, and its bytes on the wire.\<close>

definition flag_desc :: "nat \<Rightarrow> field list" where
  "flag_desc ty = [\<lparr>fdName = ''on'', fdType = TyBool, fdRepeated = False, fdMsg = 0\<rparr>]"

theorem proto_roundtrip_witness:
  "encodeProto (\<lambda>x. x) (\<lambda>x. None) int_digits (\<lambda>x. x) length flag_desc (\<lambda>n. if n = ''Flag'' then Some 0 else None)
      (\<lambda>ty m. if m = [(0, [PBool True])] then Some [char_of (8::nat), char_of (1::nat)] else None)
      [LNil, LStr ''Flag'', LTable [(LStr ''on'', LBool True)]] = Ok [LStr [char_of (8::nat), char_of (1::nat)]] \<and>
   decodeProto (\<lambda>x. x) flag_desc (\<lambda>ty i. PBool False) (\<lambda>n. if n = ''Flag'' then Some 0 else None)
      (\<lambda>ty d. if d = [char_of (8::nat), char_of (1::nat)] then Some [(0, [PBool True])] else None)
      (LStr ''Flag'') (LStr [char_of (8::nat), char_of (1::nat)]) = Some (Ok [LTable [(LStr ''on'', LBool True)]])"
proof -
  have fits: "proto_fits (\<lambda>x :: string. x) length flag_desc 0 (LTable [(LStr ''on'', LBool True)])"
    by (rule proto_fits.fits) (auto simp: flag_desc_def scalar_fits_def c_str_def)
  have msg: "foreachToMsg (\<lambda>x. None) int_digits (\<lambda>x :: string. x) length flag_desc 0 (LTable [(LStr ''on'', LBool True)]) [] =
      [(0, [PBool True])]"
    by (simp add: flag_desc_def enumerate_eq_zip lt_get_def c_str_def pset_def)
  show ?thesis
    by (rule proto_roundtrip [OF fits, of "\<lambda>n. if n = ''Flag'' then Some 0 else None" "''Flag''"]) (simp_all only: msg, simp_all add: c_str_def)
qed

end
