(* ===== verification/CryptoUtil.thy ===== *)
theory CryptoUtil
  imports LuaValue
begin

text \<open>
  \<open>src/crypto/util/util.cpp\<close>: bytes as hexadecimal text and back.  A \<open>char\<close> of the input is a byte;
  what is thrown is a fault.
\<close>

unbundle bit_operations_syntax

definition hexDigits :: string where
  "hexDigits = ''0123456789abcdef''"

definition dataToHex :: "bytes \<Rightarrow> string" where
  "dataToHex digest =
     concat (map (\<lambda>c. [hexDigits ! unat ((drop_bit 4 c) AND 0x0F), hexDigits ! unat (c AND 0x0F)]) digest)"

text \<open>Comparison of characters by their codes; the result is a \<open>uint8_t\<close>.\<close>

definition hexCharToValue :: "char \<Rightarrow> (8 word) res" where
  "hexCharToValue c =
     (let n = of_char c :: nat in
      if 48 \<le> n \<and> n \<le> 57 then Ok (of_nat (n - 48))
      else if 97 \<le> n \<and> n \<le> 102 then Ok (of_nat (n - 97 + 10))
      else if 65 \<le> n \<and> n \<le> 70 then Ok (of_nat (n - 65 + 10))
      else Raises UncaughtException)"

fun hex_loop :: "string \<Rightarrow> bytes \<Rightarrow> bytes res" where
  "hex_loop (c # d # s) data =
     rbind (hexCharToValue c) (\<lambda>high.
     rbind (hexCharToValue d) (\<lambda>low.
       hex_loop s (data @ [(push_bit 4 high) OR low])))"
| "hex_loop s data = Ok data"

definition hexToData :: "string \<Rightarrow> bytes res" where
  "hexToData digest =
     (if length digest mod 2 \<noteq> 0 then Raises UncaughtException else hex_loop digest [])"

section \<open>Round trip\<close>

lemma digit_value: "n < 16 \<Longrightarrow> hexCharToValue (hexDigits ! n) = Ok (of_nat n)"
proof -
  assume "n < 16"
  then have "n \<in> set [0..<16]" by simp
  moreover have "list_all (\<lambda>n. hexCharToValue (hexDigits ! n) = Ok (of_nat n)) [0..<16]" by code_simp
  ultimately show ?thesis by (simp only: list_all_iff)
qed

lemma nibble_small: "unat (c AND 0x0F :: 8 word) < 16"
proof -
  have "c AND 0x0F = take_bit 4 c" by (simp add: take_bit_eq_mask mask_eq_exp_minus_1)
  then have "unat (c AND 0x0F) = take_bit 4 (unat c)" by (simp add: unsigned_take_bit_eq)
  then show ?thesis by (simp add: take_bit_eq_mod)
qed

lemma nibbles_join: "push_bit 4 (drop_bit 4 c AND 0x0F) OR (c AND 0x0F) = (c :: 8 word)"
proof -
  have m: "x AND 0x0F = take_bit 4 x" for x :: "8 word" by (simp add: take_bit_eq_mask mask_eq_exp_minus_1)
  show ?thesis unfolding m by (rule bit_word_eqI) (auto simp: bit_simps)
qed

lemma hex_loop_append: "hex_loop (dataToHex bs @ s) data = hex_loop s (data @ bs)"
proof (induction bs arbitrary: data)
  case (Cons c bs)
  then show ?case
    by (simp add: dataToHex_def digit_value nibble_small nibbles_join [simplified])
qed (simp add: dataToHex_def)

lemma length_dataToHex: "length (dataToHex bs) = 2 * length bs"
  by (induction bs) (simp_all add: dataToHex_def)

definition hex_char :: "char \<Rightarrow> bool" where
  "hex_char c \<longleftrightarrow> (let n = of_char c :: nat in (48 \<le> n \<and> n \<le> 57) \<or> (97 \<le> n \<and> n \<le> 102) \<or> (65 \<le> n \<and> n \<le> 70))"

lemma hex_char_value: "(\<exists>v. hexCharToValue c = Ok v) \<longleftrightarrow> hex_char c"
  by (auto simp: hexCharToValue_def hex_char_def Let_def)

lemma hex_value_cases: "(hex_char c \<and> (\<exists>v. hexCharToValue c = Ok v)) \<or> (\<not> hex_char c \<and> hexCharToValue c = Raises UncaughtException)"
  by (auto simp: hexCharToValue_def hex_char_def Let_def)

lemma hex_loop_ends:
  "even (length s) \<Longrightarrow>
   (if \<forall>c \<in> set s. hex_char c then \<exists>bs. hex_loop s data = Ok (data @ bs) \<and> 2 * length bs = length s
    else hex_loop s data = Raises UncaughtException)"
proof (induction s data rule: hex_loop.induct)
  case (1 c d s data)
  consider (bad) "\<not> hex_char c \<or> \<not> hex_char d" | (good) "hex_char c" "hex_char d" by blast
  then show ?case
  proof cases
    case bad
    then show ?thesis using hex_value_cases [of c] hex_value_cases [of d] by auto
  next
    case good
    then obtain h l where "hexCharToValue c = Ok h" "hexCharToValue d = Ok l"
      using hex_char_value by blast
    with 1 good show ?thesis by (auto split: if_splits) fastforce+
  qed
qed simp_all

text \<open>
  C39: reading back the hexadecimal text of any bytes gives the bytes; a text is read exactly when
  its length is even and all its characters are hexadecimal digits, of either case, to half as many
  bytes, and any other text throws.
\<close>

theorem hex_roundtrip:
  "hexToData (dataToHex bs) = Ok bs \<and>
   (if even (length s) \<and> (\<forall>c \<in> set s. hex_char c) then \<exists>ds. hexToData s = Ok ds \<and> 2 * length ds = length s
    else hexToData s = Raises UncaughtException)"
proof
  show "hexToData (dataToHex bs) = Ok bs"
    using hex_loop_append [of bs "[]" "[]"] by (simp add: hexToData_def length_dataToHex)
  show "if even (length s) \<and> (\<forall>c \<in> set s. hex_char c) then \<exists>ds. hexToData s = Ok ds \<and> 2 * length ds = length s
    else hexToData s = Raises UncaughtException"
  proof (cases "even (length s)")
    case True
    with hex_loop_ends [OF True, of "[]"] show ?thesis by (auto simp: hexToData_def split: if_splits)
  next
    case False
    then have "length s mod 2 \<noteq> 0" by presburger
    with False show ?thesis by (simp add: hexToData_def)
  qed
qed

theorem hex_roundtrip_witness:
  "hexToData (dataToHex [0x0F, 0xA0]) = Ok [0x0F, 0xA0] \<and> hexToData ''0g'' = Raises UncaughtException"
  using hex_roundtrip [of "[0x0F, 0xA0]" "''0g''"] by (auto simp: hex_char_def split: if_splits)

end
