(* ===== verification/Crypto.thy ===== *)
theory Crypto
  imports CryptoUtil
begin

text \<open>
  \<open>src/crypto\<close>: base64, RSA and SHA-3 for scripts.  Crypto++ is not part of the repository: its
  encoders, ciphers, hashes and readers of keys are parameters, \<open>None\<close> where they throw.  A Lua
  string is followed by a NUL in memory.
\<close>

section \<open>Arguments\<close>

record 'f lua_conv =
  cv_fmt :: "'f \<Rightarrow> string"
  cv_float :: "'f \<Rightarrow> int option"
  cv_string :: "string \<Rightarrow> int option"

definition check_lstring :: "'f lua_conv \<Rightarrow> 'f lua_val \<Rightarrow> string res" where
  "check_lstring cv v = (case lua_tostring (cv_fmt cv) v of None \<Rightarrow> Raises LuaError | Some s \<Rightarrow> Ok s)"

definition check_integer :: "'f lua_conv \<Rightarrow> 'f lua_val \<Rightarrow> int res" where
  "check_integer cv v =
     (case (case v of LInt i \<Rightarrow> Some i | LFloat x \<Rightarrow> cv_float cv x | LStr s \<Rightarrow> cv_string cv s | _ \<Rightarrow> None) of
        None \<Rightarrow> Raises LuaError
      | Some i \<Rightarrow> Ok i)"

text \<open>The length that goes with a text: the next argument, or up to the first NUL; an \<open>int\<close>.\<close>

definition text_len :: "'f lua_conv \<Rightarrow> string \<Rightarrow> 'f lua_val option \<Rightarrow> int res" where
  "text_len cv input a =
     (case a of
        Some v \<Rightarrow> rbind (check_integer cv v) (\<lambda>i. Ok (to_i32 i))
      | None \<Rightarrow> Ok (to_i32 (int (length (c_str input)))))"

text \<open>\<open>std::string(input, len)\<close>: a negative length is a huge one, which throws.\<close>

definition std_string :: "string \<Rightarrow> int \<Rightarrow> string res" where
  "std_string input len =
     (if len < 0 then Raises UncaughtException
      else if length input + 1 < nat len then Raises OutOfBounds
      else Ok (take (nat len) (input @ [CHR 0x00])))"

section \<open>Base64\<close>

text \<open>
  The call \<open>StringSource(input, len, new ...)\<close> is the constructor of a C string, a flag and a
  filter: \<open>len\<close> is the flag that says whether to run the text through the filter.
\<close>

definition string_source :: "(string \<Rightarrow> string) \<Rightarrow> string \<Rightarrow> int \<Rightarrow> string" where
  "string_source codec input pumpAll = (if pumpAll \<noteq> 0 then codec (c_str input) else [])"

definition base64_encode ::
  "'f lua_conv \<Rightarrow> (string \<Rightarrow> string) \<Rightarrow> 'f lua_val \<Rightarrow> 'f lua_val option \<Rightarrow> 'f lua_val res"
where
  "base64_encode cv encoder a1 a2 =
     rbind (check_lstring cv a1) (\<lambda>input.
     rbind (text_len cv input a2) (\<lambda>len. Ok (LStr (string_source encoder input len))))"

definition base64_decode ::
  "'f lua_conv \<Rightarrow> (string \<Rightarrow> string) \<Rightarrow> 'f lua_val \<Rightarrow> 'f lua_val option \<Rightarrow> 'f lua_val res"
where
  "base64_decode cv decoder a1 a2 =
     rbind (check_lstring cv a1) (\<lambda>input.
     rbind (text_len cv input a2) (\<lambda>len. Ok (LStr (string_source decoder input len))))"

section \<open>SHA-3\<close>

definition sha3 :: "(string \<Rightarrow> bytes) \<Rightarrow> string \<Rightarrow> string" where
  "sha3 hash input = dataToHex (hash input)"

definition sha3_256 ::
  "'f lua_conv \<Rightarrow> (string \<Rightarrow> bytes) \<Rightarrow> 'f lua_val \<Rightarrow> 'f lua_val option \<Rightarrow> 'f lua_val res"
where
  "sha3_256 cv hash a1 a2 =
     rbind (check_lstring cv a1) (\<lambda>input.
     rbind (text_len cv input a2) (\<lambda>len.
     rbind (std_string input len) (\<lambda>s. Ok (LStr (c_str (sha3 hash s))))))"

definition sha3_512 ::
  "'f lua_conv \<Rightarrow> (string \<Rightarrow> bytes) \<Rightarrow> 'f lua_val \<Rightarrow> 'f lua_val option \<Rightarrow> 'f lua_val res"
where
  "sha3_512 cv hash a1 a2 =
     rbind (check_lstring cv a1) (\<lambda>input.
     rbind (text_len cv input a2) (\<lambda>len.
     rbind (std_string input len) (\<lambda>s. Ok (LStr (c_str (sha3 hash s))))))"

section \<open>RSA\<close>

text \<open>The values returned; none after an error that is caught.\<close>

definition rsa_gen :: "'f lua_conv \<Rightarrow> (int \<Rightarrow> (string \<times> string) option) \<Rightarrow> 'f lua_val \<Rightarrow> 'f lua_val list res" where
  "rsa_gen cv gen a1 =
     rbind (check_integer cv a1) (\<lambda>keyLen.
       case gen keyLen of
         None \<Rightarrow> Raises UncaughtException
       | Some (publicKey, privateKey) \<Rightarrow> Ok [LStr publicKey, LStr privateKey])"

definition rsa_encode ::
  "'f lua_conv \<Rightarrow> (string \<Rightarrow> 'p option) \<Rightarrow> ('p \<Rightarrow> string \<Rightarrow> bytes option) \<Rightarrow> 'f lua_val \<Rightarrow> 'f lua_val \<Rightarrow>
   'f lua_val option \<Rightarrow> 'f lua_val list res"
where
  "rsa_encode cv publicKey encrypt a1 a2 a3 =
     rbind (check_string (cv_fmt cv) a1) (\<lambda>keyData.
     rbind (check_lstring cv a2) (\<lambda>input.
     rbind (text_len cv input a3) (\<lambda>inputLen.
       case publicKey keyData of
         None \<Rightarrow> Ok []
       | Some key \<Rightarrow>
           if inputLen < 0 \<or> length input + 1 < nat inputLen then Raises OutOfBounds
           else
             (case encrypt key (take (nat inputLen) (input @ [CHR 0x00])) of
                None \<Rightarrow> Ok []
              | Some output \<Rightarrow> Ok [LStr (dataToHex output)]))))"

text \<open>Here the length is read as a float and cut; \<open>hexToData\<close> stands inside the \<open>try\<close>.\<close>

definition hex_len :: "'f lua_conv \<Rightarrow> ('f lua_val \<Rightarrow> int res) \<Rightarrow> string \<Rightarrow> 'f lua_val option \<Rightarrow> int res" where
  "hex_len cv checknumber input a =
     (case a of Some v \<Rightarrow> checknumber v | None \<Rightarrow> Ok (to_i32 (int (length (c_str input)))))"

definition rsa_decode ::
  "'f lua_conv \<Rightarrow> ('f lua_val \<Rightarrow> int res) \<Rightarrow> (string \<Rightarrow> 'k option) \<Rightarrow> ('k \<Rightarrow> bytes \<Rightarrow> string option) \<Rightarrow>
   'f lua_val \<Rightarrow> 'f lua_val \<Rightarrow> 'f lua_val option \<Rightarrow> 'f lua_val list res"
where
  "rsa_decode cv checknumber privateKey decrypt a1 a2 a3 =
     rbind (check_string (cv_fmt cv) a1) (\<lambda>keyData.
     rbind (check_lstring cv a2) (\<lambda>hexInput.
     rbind (hex_len cv checknumber hexInput a3) (\<lambda>hexInputLen.
       case privateKey keyData of
         None \<Rightarrow> Ok []
       | Some key \<Rightarrow>
           (case rbind (std_string hexInput hexInputLen) hexToData of
              Raises UncaughtException \<Rightarrow> Ok []
            | Raises e \<Rightarrow> Raises e
            | Loops \<Rightarrow> Loops
            | Ok input \<Rightarrow>
                (case decrypt key input of
                   None \<Rightarrow> Ok []
                 | Some outputText \<Rightarrow> Ok [LStr outputText])))))"

text \<open>
  \<open>src/crypto/chacha\<close>: a key and an initialisation vector from the random pool, neither of which the
  script receives.  \<open>block r n\<close> is the pool's answer of \<open>n\<close> bytes and its next state.
\<close>

definition chacha20_gen :: "('r \<Rightarrow> nat \<Rightarrow> bytes \<times> 'r) \<Rightarrow> ('r, 'f lua_val list) op" where
  "chacha20_gen block =
     bind (\<lambda>r. case block r 32 of (key, r') \<Rightarrow> Done key r') (\<lambda>key.
     bind (\<lambda>r. case block r 8 of (iv, r') \<Rightarrow> Done iv r') (\<lambda>iv. ret []))"

lemma chacha20_gen_drops: "chacha20_gen block r = Done [] (snd (block (snd (block r 32)) 8))"
  by (simp add: chacha20_gen_def bind_def split: prod.split)

section \<open>Properties\<close>

lemma hexDigits_chars: "n < 16 \<Longrightarrow> hexDigits ! n \<in> set hexDigits"
  by (rule nth_mem) (simp add: hexDigits_def)

lemma dataToHex_chars: "set (dataToHex bs) \<subseteq> set hexDigits"
  by (auto simp: dataToHex_def intro: hexDigits_chars nibble_small)

lemma c_str_dataToHex: "c_str (dataToHex bs) = dataToHex bs"
proof -
  have "CHR 0x00 \<notin> set hexDigits" by (simp add: hexDigits_def)
  then have "\<forall>c \<in> set (dataToHex bs). c \<noteq> CHR 0x00" using dataToHex_chars [of bs] by blast
  then show ?thesis by (simp add: c_str_def takeWhile_eq_all_conv)
qed

lemma to_i32_length: "int n < 2147483648 \<Longrightarrow> to_i32 (int n) = int n"
  by (simp add: to_i32_small)

lemma text_len_none: "length m < 2 ^ 31 \<Longrightarrow> text_len cv m None = Ok (int (length (c_str m)))"
proof -
  assume "length m < 2 ^ 31"
  moreover have "length (c_str m) \<le> length m" by (simp add: c_str_def length_takeWhile_le)
  ultimately show ?thesis by (simp add: text_len_def to_i32_length)
qed

lemma take_c_str: "take (length (c_str m)) (m @ xs) = c_str m"
  by (simp add: c_str_def takeWhile_eq_take [symmetric] length_takeWhile_le)

text \<open>
  A text encrypted with its length given comes back from decryption, NULs included, over its
  hexadecimal form, for keys and a cipher that fit; without the length it is the part before the
  first NUL that does.
\<close>

theorem rsa_roundtrip:
  assumes "publicKey (c_str pub) = Some p" and "privateKey (c_str priv) = Some k"
    and "encrypt p x = Some c" "decrypt k c = Some x" and "length c < 2 ^ 30" "length m < 2 ^ 31"
    and "a = None \<and> x = c_str m \<or> a = Some (LInt (int (length m))) \<and> x = m"
  shows "\<exists>h. rsa_encode cv publicKey encrypt (LStr pub) (LStr m) a = Ok [LStr h] \<and>
      rsa_decode cv num privateKey decrypt (LStr priv) (LStr h) None = Ok [LStr x]"
proof -
  let ?h = "dataToHex c"
  have len: "text_len cv m a = Ok (int (length x))"
  proof (cases a)
    case None
    with assms(6,7) text_len_none [OF assms(6)] show ?thesis by simp
  next
    case (Some v)
    with assms(6,7) show ?thesis by (simp add: text_len_def check_integer_def to_i32_length)
  qed
  have x: "take (length x) (m @ [CHR 0x00]) = x" "length x \<le> length m"
    using assms(7) take_c_str [of m] by (auto simp: c_str_def length_takeWhile_le)
  have "rsa_encode cv publicKey encrypt (LStr pub) (LStr m) a = Ok [LStr ?h]"
    using len x assms(1,3) by (simp add: rsa_encode_def check_lstring_def)
  moreover have "rsa_decode cv num privateKey decrypt (LStr priv) (LStr ?h) None = Ok [LStr x]"
  proof -
    have "hexToData ?h = Ok c" using hex_loop_append [of c "[]" "[]"] by (simp add: hexToData_def length_dataToHex)
    moreover have "hex_len cv num ?h None = Ok (int (length ?h))"
      using assms(5) by (simp add: hex_len_def c_str_dataToHex length_dataToHex to_i32_length del: of_nat_mult)
    ultimately show ?thesis
      using assms(2,4) by (simp add: rsa_decode_def check_lstring_def std_string_def)
  qed
  ultimately show ?thesis by blast
qed

text \<open>
  Whatever non-zero length a script gives, \<open>base64Encode\<close> and \<open>base64Decode\<close> convert the text up to
  its first NUL, neither less nor more.
\<close>

theorem base64_ignores_length:
  assumes "to_i32 n \<noteq> 0"
  shows "base64_encode cv encoder (LStr s) (Some (LInt n)) = Ok (LStr (encoder (c_str s))) \<and>
    base64_decode cv decoder (LStr s) (Some (LInt n)) = Ok (LStr (decoder (c_str s)))"
  using assms by (simp add: base64_encode_def base64_decode_def check_lstring_def text_len_def check_integer_def string_source_def)

text \<open>
  The digests are texts of two hexadecimal digits for each byte of the hash, of exactly the
  first \<open>len\<close> bytes of the text; a length beyond the text and its NUL reads outside it, and a
  negative one throws out of the Lua call.
\<close>

theorem sha3_digest:
  assumes "\<And>x. length (hash x) = 32"
  shows "sha3_256 cv hash (LStr s) (Some (LInt n)) =
    (if to_i32 n < 0 then Raises UncaughtException
     else if int (length s) + 1 < to_i32 n then Raises OutOfBounds
     else Ok (LStr (dataToHex (hash (take (nat (to_i32 n)) (s @ [CHR 0x00])))))) \<and>
    (\<forall>x. length (dataToHex (hash x)) = 64 \<and> set (dataToHex (hash x)) \<subseteq> set hexDigits)"
  using assms dataToHex_chars
  by (auto simp: sha3_256_def check_lstring_def text_len_def check_integer_def std_string_def sha3_def c_str_dataToHex length_dataToHex)

section \<open>The properties at concrete values\<close>

definition conv_sample :: "int lua_conv" where
  "conv_sample = \<lparr>cv_fmt = int_digits, cv_float = Some, cv_string = (\<lambda>_. None)\<rparr>"

theorem rsa_roundtrip_witness:
  "\<exists>h. rsa_encode conv_sample (\<lambda>_. Some ()) (\<lambda>_ m. Some (map (of_nat \<circ> of_char) m)) (LStr ''p'') (LStr ''ab'') None = Ok [LStr h] \<and>
    rsa_decode conv_sample (\<lambda>_. Raises LuaError) (\<lambda>_. Some ()) (\<lambda>_ c. if c = [97, 98] then Some ''ab'' else None) (LStr ''k'') (LStr h) None = Ok [LStr ''ab'']"
  by (rule rsa_roundtrip [where c = "[97, 98]" and p = "()" and k = "()"]) (simp_all add: c_str_def)

theorem base64_ignores_length_witness:
  "base64_encode conv_sample id (LStr ''abc'') (Some (LInt 1)) = Ok (LStr ''abc'')"
  using base64_ignores_length [of 1 conv_sample id "''abc''" id] by (simp add: to_i32_small c_str_def)

theorem sha3_digest_witness:
  "sha3_256 conv_sample (\<lambda>_. replicate 32 0) (LStr ''abc'') (Some (LInt 9)) = Raises OutOfBounds"
  using sha3_digest [of "\<lambda>_. replicate 32 0" conv_sample "''abc''" 9] by (simp add: to_i32_small)

end
