(* ===== verification/Mysql.thy ===== *)
theory Mysql
  imports LuaValue
begin

text \<open>
  \<open>src/sql/mysql/mysql.cpp\<close>: the conversions between Lua values and the columns and parameters of
  MySQL statements.  The client library is not part of the repository: what its calls return is an
  argument.  A \<open>char*\<close> of a row is \<open>None\<close> when it is null; \<open>atof\<close> reads a double, \<open>dbl_str\<close> is
  \<open>std::to_string\<close> of one.
\<close>

section \<open>Types of the library\<close>

datatype sql_type =
    SqlString | SqlVarString | SqlBlob | SqlTiny | SqlShort | SqlLong | SqlLongLong
  | SqlDecimal | SqlFloat | SqlDouble | SqlOther

record sql_field =
  sfName :: string
  sfType :: sql_type

text \<open>What \<open>mysql_query\<close> and \<open>mysql_store_result\<close> lead to.\<close>

datatype query_answer =
    QueryFails int string
  | NoResult int string int int
  | Rows "sql_field list" "string option list list"

text \<open>\<open>atoll\<close> of a null pointer, and of a number that \<open>long long\<close> does not hold, is undefined.\<close>

definition atoll :: "string option \<Rightarrow> int res" where
  "atoll p =
     (case p of
        None \<Rightarrow> Raises NullPointer
      | Some s \<Rightarrow>
          (case read_int (c_str s) of
             None \<Rightarrow> Ok 0
           | Some n \<Rightarrow> if n < - (2 ^ 63) \<or> 2 ^ 63 \<le> n then Raises SignedOverflow else Ok n))"

definition c_atof :: "(string \<Rightarrow> 'f) \<Rightarrow> string option \<Rightarrow> 'f res" where
  "c_atof atof p = (case p of None \<Rightarrow> Raises NullPointer | Some s \<Rightarrow> Ok (atof (c_str s)))"

text \<open>\<open>lua_pushstring\<close> of a null pointer pushes nil.\<close>

definition push_string :: "string option \<Rightarrow> 'f lua_val" where
  "push_string p = (case p of None \<Rightarrow> LNil | Some s \<Rightarrow> LStr (c_str s))"

definition bad_result :: "int \<Rightarrow> string \<Rightarrow> 'f lua_table" where
  "bad_result errno err =
     lua_setfield ''error'' (LStr (c_str err)) (lua_setfield ''errno'' (LInt errno)
       (lua_setfield ''badresult'' (LBool True) []))"

definition affected :: "int \<Rightarrow> int \<Rightarrow> 'f lua_table" where
  "affected rows insertId =
     (let t = lua_setfield ''affectedRows'' (LInt rows) []
      in if 0 < insertId then lua_setfield ''insertId'' (LInt insertId) t else t)"

section \<open>\<open>queryMariadb\<close>\<close>

fun query_cell :: "(string \<Rightarrow> 'f) \<Rightarrow> sql_type \<Rightarrow> string option \<Rightarrow> 'f lua_val option res" where
  "query_cell atof SqlString p = Ok (Some (push_string p))"
| "query_cell atof SqlVarString p = Ok (Some (push_string p))"
| "query_cell atof SqlBlob p = Ok (Some (push_string p))"
| "query_cell atof SqlTiny p = rbind (atoll p) (\<lambda>n. Ok (Some (LInt n)))"
| "query_cell atof SqlShort p = rbind (atoll p) (\<lambda>n. Ok (Some (LInt n)))"
| "query_cell atof SqlLong p = rbind (atoll p) (\<lambda>n. Ok (Some (LInt n)))"
| "query_cell atof SqlLongLong p = rbind (atoll p) (\<lambda>n. Ok (Some (LInt n)))"
| "query_cell atof SqlDecimal p = rbind (c_atof atof p) (\<lambda>x. Ok (Some (LFloat x)))"
| "query_cell atof SqlFloat p = rbind (c_atof atof p) (\<lambda>x. Ok (Some (LFloat x)))"
| "query_cell atof SqlDouble p = rbind (c_atof atof p) (\<lambda>x. Ok (Some (LFloat x)))"
| "query_cell atof SqlOther p = Ok None"

definition query_step ::
  "(string \<Rightarrow> 'f) \<Rightarrow> 'f lua_table \<Rightarrow> sql_field \<times> string option \<Rightarrow> 'f lua_table res"
where
  "query_step atof t x =
     rbind (query_cell atof (sfType (fst x)) (snd x)) (\<lambda>v.
       Ok (case v of None \<Rightarrow> t | Some v \<Rightarrow> lua_setfield (c_str (sfName (fst x))) v t))"

definition query_row :: "(string \<Rightarrow> 'f) \<Rightarrow> sql_field list \<Rightarrow> string option list \<Rightarrow> 'f lua_table res" where
  "query_row atof cols row = rfold (query_step atof) [] (zip cols row)"

definition queryMariadb :: "(string \<Rightarrow> 'f) \<Rightarrow> ('f \<Rightarrow> string) \<Rightarrow> (string \<Rightarrow> query_answer) \<Rightarrow> 'f lua_val \<Rightarrow> 'f lua_table res" where
  "queryMariadb atof fmt query a2 =
     rbind (check_string fmt a2) (\<lambda>sql.
       case query sql of
         QueryFails errno err \<Rightarrow> Ok (bad_result errno err)
       | NoResult errno err rows insertId \<Rightarrow>
           Ok (if 0 < errno then bad_result errno err else affected rows insertId)
       | Rows cols rows \<Rightarrow>
           rbind (rfold (\<lambda>(t, index) row.
               rbind (query_row atof cols row) (\<lambda>r. Ok (lua_rawseti index (LTable r) t, index + 1)))
             ([], 1) rows) (\<lambda>(t, index). Ok t))"

section \<open>\<open>execMariadb\<close>\<close>

text \<open>
  A parameter as it is bound: its type (\<open>SqlDecimal\<close>, the zero of the enumeration, when the code
  sets none), its length and its buffer.  A value that is neither text nor number leaves the
  structure zero: no buffer, and still not marked as null.
\<close>

record sql_param =
  bpType :: sql_type
  bpLength :: nat
  bpBuffer :: "string option"
  bpIsNull :: bool

definition empty_param :: sql_param where
  "empty_param = \<lparr>bpType = SqlDecimal, bpLength = 0, bpBuffer = None, bpIsNull = False\<rparr>"

definition bind_text :: "sql_type \<Rightarrow> string \<Rightarrow> sql_param" where
  "bind_text ty value =
     \<lparr>bpType = ty, bpLength = length value, bpBuffer = Some (value @ [CHR 0x00]), bpIsNull = False\<rparr>"

fun bind_param :: "('f \<Rightarrow> string) \<Rightarrow> 'f lua_val \<Rightarrow> sql_param" where
  "bind_param dbl_str (LStr s) = bind_text SqlString (c_str s)"
| "bind_param dbl_str (LInt i) = bind_text SqlDecimal (int_digits i)"
| "bind_param dbl_str (LFloat x) = bind_text SqlDecimal (dbl_str x)"
| "bind_param dbl_str v = empty_param"

text \<open>A cell of a fetched row is \<open>None\<close> when its \<open>is_null\<close> is set; a \<open>Decimal\<close> column is not known.\<close>

fun exec_cell :: "(string \<Rightarrow> 'f) \<Rightarrow> sql_type \<Rightarrow> string \<Rightarrow> 'f lua_val option res" where
  "exec_cell atof SqlString s = Ok (Some (push_string (Some s)))"
| "exec_cell atof SqlVarString s = Ok (Some (push_string (Some s)))"
| "exec_cell atof SqlBlob s = Ok (Some (push_string (Some s)))"
| "exec_cell atof SqlTiny s = rbind (atoll (Some s)) (\<lambda>n. Ok (Some (LInt n)))"
| "exec_cell atof SqlShort s = rbind (atoll (Some s)) (\<lambda>n. Ok (Some (LInt n)))"
| "exec_cell atof SqlLong s = rbind (atoll (Some s)) (\<lambda>n. Ok (Some (LInt n)))"
| "exec_cell atof SqlLongLong s = rbind (atoll (Some s)) (\<lambda>n. Ok (Some (LInt n)))"
| "exec_cell atof SqlFloat s = rbind (c_atof atof (Some s)) (\<lambda>x. Ok (Some (LFloat x)))"
| "exec_cell atof SqlDouble s = rbind (c_atof atof (Some s)) (\<lambda>x. Ok (Some (LFloat x)))"
| "exec_cell atof SqlDecimal s = Ok None"
| "exec_cell atof SqlOther s = Ok None"

definition exec_step ::
  "(string \<Rightarrow> 'f) \<Rightarrow> 'f lua_table \<Rightarrow> sql_field \<times> string option \<Rightarrow> 'f lua_table res"
where
  "exec_step atof t x =
     (case snd x of
        None \<Rightarrow> Ok t
      | Some s \<Rightarrow>
          rbind (exec_cell atof (sfType (fst x)) s) (\<lambda>v.
            Ok (case v of None \<Rightarrow> t | Some v \<Rightarrow> lua_setfield (c_str (sfName (fst x))) v t)))"

definition exec_row :: "(string \<Rightarrow> 'f) \<Rightarrow> sql_field list \<Rightarrow> string option list \<Rightarrow> 'f lua_table res" where
  "exec_row atof cols row = rfold (exec_step atof) [] (zip cols row)"

text \<open>
  \<open>mysql_stmt_fetch\<close> call by call: its code with the row it leaves in the buffers.  1 and
  \<open>MYSQL_NO_DATA\<close> (100) end the loop, any other code is a row.
\<close>

fun fetch_rows ::
  "(string \<Rightarrow> 'f) \<Rightarrow> sql_field list \<Rightarrow> (int \<times> string option list) list \<Rightarrow> int \<Rightarrow> 'f lua_table \<Rightarrow> 'f lua_table res"
where
  "fetch_rows atof cols [] index t = Ok t"
| "fetch_rows atof cols ((code, row) # rest) index t =
     (if code = 1 \<or> code = 100 then Ok t
      else rbind (exec_row atof cols row) (\<lambda>r.
             fetch_rows atof cols rest (index + 1) (lua_rawseti index (LTable r) t)))"

datatype exec_answer =
    ExecFails int string
  | ExecNoResult int string int int
  | ExecBindFails int string
  | ExecRows "sql_field list" "(int \<times> string option list) list"

text \<open>\<open>exec\<close> is what binding, execution and storing lead to with the bound parameters.\<close>

definition execMariadb ::
  "(string \<Rightarrow> 'f) \<Rightarrow> ('f \<Rightarrow> string) \<Rightarrow> nat \<Rightarrow> (sql_param list \<Rightarrow> exec_answer) \<Rightarrow> 'f lua_val list \<Rightarrow> 'f lua_table res"
where
  "execMariadb atof dbl_str argNum exec args =
     (if length args < argNum then
        Ok (lua_setfield ''error''
              (LStr (''invalid args,need args num '' @ int_digits (int argNum) @ '',but get args num '' @
                     int_digits (int (length args))))
              (lua_setfield ''badresult'' (LBool False) []))
      else
        (case exec (map (bind_param dbl_str) (take argNum args)) of
           ExecFails errno err \<Rightarrow> Ok (bad_result errno err)
         | ExecNoResult errno err rows insertId \<Rightarrow>
             Ok (if 0 < errno then bad_result errno err else affected rows insertId)
         | ExecBindFails errno err \<Rightarrow> Ok (bad_result errno err)
         | ExecRows cols fetches \<Rightarrow> fetch_rows atof cols fetches 1 []))"

section \<open>Properties\<close>

text \<open>A column of text, or one that is skipped, may be null.\<close>

definition null_ok :: "sql_field \<times> string option \<Rightarrow> bool" where
  "null_ok x \<longleftrightarrow> (snd x = None \<longrightarrow> sfType (fst x) \<in> {SqlString, SqlVarString, SqlBlob, SqlOther})"

abbreviation col_key :: "sql_field \<times> string option \<Rightarrow> 'f lua_val" where
  "col_key x \<equiv> LStr (c_str (sfName (fst x)))"

lemma cells_agree: "ty \<noteq> SqlDecimal \<Longrightarrow> query_cell atof ty (Some s) = exec_cell atof ty s"
  by (cases ty) simp_all

lemma steps_agree:
  assumes "null_ok x" "sfType (fst x) \<noteq> SqlDecimal" "col_key x \<notin> fst ` set t"
  shows "query_step atof t x = exec_step atof t x"
proof (cases "snd x")
  case None
  have "filter (\<lambda>e. fst e \<noteq> col_key x) t = t" using assms(3) by (force simp: filter_id_conv)
  with None assms(1) show ?thesis
    by (auto simp: null_ok_def query_step_def exec_step_def push_string_def lt_set_def)
next
  case (Some s)
  with assms(2) show ?thesis by (simp add: query_step_def exec_step_def cells_agree)
qed

lemma lt_set_keys: "fst ` set (lt_set k v t) \<subseteq> insert k (fst ` set t)"
proof -
  have "fst ` set (lt_put k v t) \<subseteq> insert k (fst ` set t)" by (induction t) auto
  then show ?thesis by (auto simp: lt_set_def)
qed

lemma exec_step_keys: "exec_step atof t x = Ok u \<Longrightarrow> fst ` set u \<subseteq> insert (col_key x) (fst ` set t)"
proof -
  assume "exec_step atof t x = Ok u"
  then have "u = t \<or> (\<exists>v. u = lua_setfield (c_str (sfName (fst x))) v t)"
    by (auto simp: exec_step_def rbind_Ok split: option.splits)
  then show ?thesis
  proof
    assume "\<exists>v. u = lua_setfield (c_str (sfName (fst x))) v t"
    then show ?thesis using lt_set_keys by blast
  qed blast
qed

lemma rows_agree:
  "\<forall>x \<in> set xs. null_ok x \<and> sfType (fst x) \<noteq> SqlDecimal \<Longrightarrow> distinct (map (\<lambda>x. c_str (sfName (fst x))) xs) \<Longrightarrow>
   \<forall>x \<in> set xs. col_key x \<notin> fst ` set t \<Longrightarrow> rfold (query_step atof) t xs = rfold (exec_step atof) t xs"
proof (induction xs arbitrary: t)
  case (Cons x xs)
  then have step: "query_step atof t x = exec_step atof t x" by (intro steps_agree) simp_all
  have "rfold (query_step atof) u xs = rfold (exec_step atof) u xs" if u: "exec_step atof t x = Ok u" for u
  proof (rule Cons.IH)
    show "\<forall>y \<in> set xs. col_key y \<notin> fst ` set u"
    proof
      fix y assume y: "y \<in> set xs"
      moreover have "c_str (sfName (fst x)) \<notin> (\<lambda>x. c_str (sfName (fst x))) ` set xs" using Cons.prems(2) by simp
      ultimately have "c_str (sfName (fst y)) \<noteq> c_str (sfName (fst x))" by (metis imageI)
      with exec_step_keys [OF u] y Cons.prems(3) show "col_key y \<notin> fst ` set u" by auto
    qed
  qed (use Cons.prems in simp_all)
  with step show ?case by (cases "exec_step atof t x") simp_all
qed simp

lemma null_number: "\<not> null_ok x \<Longrightarrow> sfType (fst x) \<noteq> SqlDecimal \<Longrightarrow> query_step atof t x = Raises NullPointer"
  by (cases "sfType (fst x)") (auto simp: null_ok_def query_step_def atoll_def c_atof_def)

lemma query_step_ends: "query_step atof t x \<noteq> Loops"
  by (cases "sfType (fst x)") (auto simp: query_step_def atoll_def c_atof_def split: option.splits)

lemma row_dies:
  "\<exists>x \<in> set xs. \<not> null_ok x \<Longrightarrow> \<forall>x \<in> set xs. sfType (fst x) \<noteq> SqlDecimal \<Longrightarrow>
   \<exists>e. rfold (query_step atof) t xs = Raises e"
proof (induction xs arbitrary: t)
  case (Cons x xs)
  then show ?case using query_step_ends [of atof t x] null_number [of x atof t]
    by (cases "query_step atof t x") auto
qed simp

text \<open>
  C38: from a row without a \<open>DECIMAL\<close> column (and with distinct names) \<open>query\<close> and \<open>exec\<close> build the
  same table as long as no column of numbers is null: a null in a column of text is left out by
  both.  A null in a column of numbers, which \<open>exec\<close> leaves out too, makes \<open>query\<close> read through a
  null pointer (or fail before).
\<close>

theorem mysql_query_exec_agree:
  assumes "length row = length cols" and "\<forall>c \<in> set cols. sfType c \<noteq> SqlDecimal"
    and "distinct (map (\<lambda>c. c_str (sfName c)) cols)"
  shows "if \<forall>x \<in> set (zip cols row). null_ok x
    then query_row atof cols row = exec_row atof cols row
    else \<exists>e. query_row atof cols row = Raises e"
proof -
  have "map (\<lambda>x. c_str (sfName (fst x))) (zip cols row) = map (\<lambda>f. c_str (sfName f)) (map fst (zip cols row))"
    by (simp add: comp_def)
  then have d: "distinct (map (\<lambda>x. c_str (sfName (fst x))) (zip cols row))" using assms(1,3) by simp
  have t: "\<forall>x \<in> set (zip cols row). sfType (fst x) \<noteq> SqlDecimal" using assms(2) by (auto dest: set_zip_leftD)
  from rows_agree [OF _ d, of "[]" atof] row_dies [OF _ t, of atof "[]"] t show ?thesis
    by (auto simp: query_row_def exec_row_def)
qed

theorem mysql_query_exec_agree_witness:
  "query_row (\<lambda>_. 0 :: int) [\<lparr>sfName = ''n'', sfType = SqlString\<rparr>] [None] =
     exec_row (\<lambda>_. 0 :: int) [\<lparr>sfName = ''n'', sfType = SqlString\<rparr>] [None]"
  using mysql_query_exec_agree [of "[None]" "[\<lparr>sfName = ''n'', sfType = SqlString\<rparr>]" "\<lambda>_. 0 :: int"]
  by (simp add: null_ok_def)

end
