(* ===== verification/Redis.thy ===== *)
theory Redis
  imports LuaValue
begin

text \<open>
  \<open>src/sql/redis/redis.cpp\<close>: replies of hiredis as Lua tables.  The client library is not part of
  the repository: \<open>command\<close> is what \<open>redisCommand\<close> returns for a text, null on an error.
\<close>

datatype 'f redis_reply =
    ReplyArray "'f redis_reply list"
  | ReplyInteger int
  | ReplyNil
  | ReplyDouble 'f
  | ReplyString string
  | ReplyStatus string
  | ReplyError string
  | ReplyOther int

text \<open>
  The table on top of the stack with the reply put at \<open>index\<close>; an array that is the root fills the
  table itself.  A reply of another type is logged and leaves no entry.
\<close>

fun newTableFromRedisReply :: "'f redis_reply \<Rightarrow> int \<Rightarrow> bool \<Rightarrow> 'f lua_table \<Rightarrow> 'f lua_table"
  and redis_elements :: "'f redis_reply list \<Rightarrow> int \<Rightarrow> 'f lua_table \<Rightarrow> 'f lua_table"
where
  "newTableFromRedisReply (ReplyArray es) index isRoot t =
     (if \<not> isRoot then lua_rawseti index (LTable (redis_elements es 0 [])) t else redis_elements es 0 t)"
| "newTableFromRedisReply (ReplyInteger i) index isRoot t = lua_rawseti index (LInt i) t"
| "newTableFromRedisReply ReplyNil index isRoot t = lua_rawseti index LNil t"
| "newTableFromRedisReply (ReplyDouble x) index isRoot t = lua_rawseti index (LFloat x) t"
| "newTableFromRedisReply (ReplyString s) index isRoot t = lua_rawseti index (LStr (c_str s)) t"
| "newTableFromRedisReply (ReplyStatus s) index isRoot t = lua_rawseti index (LStr (c_str s)) t"
| "newTableFromRedisReply (ReplyError s) index isRoot t = lua_rawseti index (LStr (c_str s)) t"
| "newTableFromRedisReply (ReplyOther n) index isRoot t = t"
| "redis_elements [] i t = t"
| "redis_elements (e # es) i t = redis_elements es (i + 1) (newTableFromRedisReply e (i + 1) False t)"

definition cmdRedis ::
  "('f \<Rightarrow> string) \<Rightarrow> (string \<Rightarrow> 'f redis_reply option) \<Rightarrow> 'f lua_val \<Rightarrow> 'f lua_val list res"
where
  "cmdRedis fmt command a2 =
     rbind (check_string fmt a2) (\<lambda>cmd.
       case command cmd of
         None \<Rightarrow> Ok []
       | Some reply \<Rightarrow> Ok [LTable (newTableFromRedisReply reply 1 True [])])"

section \<open>What a script sees\<close>

text \<open>The value of one reply, stated without the stack.\<close>

fun redis_value :: "'f redis_reply \<Rightarrow> 'f lua_val" where
  "redis_value (ReplyArray es) = LTable (redis_elements es 0 [])"
| "redis_value (ReplyInteger i) = LInt i"
| "redis_value ReplyNil = LNil"
| "redis_value (ReplyDouble x) = LFloat x"
| "redis_value (ReplyString s) = LStr (c_str s)"
| "redis_value (ReplyStatus s) = LStr (c_str s)"
| "redis_value (ReplyError s) = LStr (c_str s)"
| "redis_value (ReplyOther n) = LNil"

lemma element_put:
  "lt_get t (LInt index) = LNil \<Longrightarrow>
   lt_get (newTableFromRedisReply e index False t) k = (if k = LInt index then redis_value e else lt_get t k)"
  by (cases e) (auto simp: lt_get_set)

lemma elements_put:
  "\<forall>j > i. lt_get t (LInt j) = LNil \<Longrightarrow>
   lt_get (redis_elements es i t) (LInt j) =
     (if i < j \<and> j \<le> i + int (length es) then redis_value (es ! nat (j - i - 1)) else lt_get t (LInt j))"
proof (induction es arbitrary: i t)
  case (Cons e es)
  let ?t = "newTableFromRedisReply e (i + 1) False t"
  have t: "lt_get ?t k = (if k = LInt (i + 1) then redis_value e else lt_get t k)" for k
    using Cons.prems by (intro element_put) simp
  have "\<forall>j > i + 1. lt_get ?t (LInt j) = LNil" using Cons.prems t by simp
  from Cons.IH [OF this] show ?case
  proof (cases "j = i + 1")
    case False
    then have "nat (j - i - 1) = Suc (nat (j - (i + 1) - 1))" if "i + 1 < j" using that by simp
    with False Cons.IH [OF \<open>\<forall>j > i + 1. lt_get ?t (LInt j) = LNil\<close>] t show ?thesis by auto
  qed (simp add: t)
qed auto

lemma elements_other: "k \<notin> range LInt \<Longrightarrow> lt_get (redis_elements es i t) k = lt_get t k"
proof (induction es arbitrary: i t)
  case (Cons e es)
  have "lt_get (newTableFromRedisReply e (i + 1) False t) k = lt_get t k"
    using Cons.prems by (cases e) (auto simp: lt_get_set)
  with Cons show ?case by simp
qed simp

text \<open>
  The answer to a command is a table in any case: of an array, element \<open>i\<close> is at \<open>i + 1\<close>, with
  a gap where it is nil or of a type the code does not know; of anything else the one value, an
  error's text included, is at 1.  The table holds nothing else, and a command that fails in the
  connection returns no value.
\<close>

theorem redis_answer:
  "cmdRedis fmt command (LStr cmd) =
     (case command (c_str cmd) of
        None \<Rightarrow> Ok []
      | Some reply \<Rightarrow> Ok [LTable (newTableFromRedisReply reply 1 True [])]) \<and>
   lt_get (newTableFromRedisReply reply 1 True []) k =
     (case reply of
        ReplyArray es \<Rightarrow>
          (case k of LInt j \<Rightarrow> if 1 \<le> j \<and> j \<le> int (length es) then redis_value (es ! nat (j - 1)) else LNil | _ \<Rightarrow> LNil)
      | r \<Rightarrow> if k = LInt 1 then redis_value r else LNil)"
proof -
  have "lt_get (redis_elements es 0 []) k =
      (case k of LInt j \<Rightarrow> if 1 \<le> j \<and> j \<le> int (length es) then redis_value (es ! nat (j - 1)) else LNil | _ \<Rightarrow> LNil)" for es
  proof (cases "k \<in> range LInt")
    case True
    then obtain j where "k = LInt j" by blast
    with elements_put [of 0 "[]" es j] show ?thesis by auto
  next
    case False
    with elements_other [OF False, of es 0 "[]"] show ?thesis by (auto split: lua_val.split)
  qed
  then show ?thesis by (cases reply) (auto simp: cmdRedis_def lt_get_set split: option.split)
qed

end
