(* ===== verification/Natives.thy ===== *)
theory Natives
  imports Crypto Protobuf Mysql Redis
begin

text \<open>
  The native objects that scripts hold as light userdata: descriptor pools of protobuf, connections
  and statements of MySQL, contexts of Redis (\<open>new...\<close>, \<open>destroy...\<close>, \<open>connect\<close>, \<open>prepare\<close>,
  \<open>loadFile\<close> in \<open>src/protobuf/protobuf.cpp\<close>, \<open>src/sql/mysql/mysql.cpp\<close> and
  \<open>src/sql/redis/redis.cpp\<close>), and the calls of these files on an object.  What a library answers is
  an argument of the call, the address of a new object included.  A call that hands the library a
  null pointer, or a pointer to no live object of its kind, is outside what the library documents:
  it faults.
\<close>

section \<open>Objects behind pointers\<close>

record 'd natives =
  protoPools :: "nat \<Rightarrow> 'd option"
  mysqlConns :: "nat \<Rightarrow> unit option"
  mysqlStmts :: "nat \<Rightarrow> string option"
  redisContexts :: "nat \<Rightarrow> unit option"

definition no_natives :: "'d natives" where
  "no_natives = \<lparr>protoPools = \<lambda>_. None, mysqlConns = \<lambda>_. None, mysqlStmts = \<lambda>_. None, redisContexts = \<lambda>_. None\<rparr>"

text \<open>\<open>static_cast<T*>(lua_touserdata(L, i))\<close> and its first use; \<open>lua_touserdata\<close> of another value is null.\<close>

definition deref :: "('s \<Rightarrow> nat \<Rightarrow> 'o option) \<Rightarrow> 'f lua_val \<Rightarrow> ('s, 'o) op" where
  "deref get v s =
     (case v of
        LUserdata p \<Rightarrow> (case get s p of None \<Rightarrow> Fault UseAfterFree s | Some x \<Rightarrow> Done x s)
      | _ \<Rightarrow> Fault NullPointer s)"

fun pointer :: "'f lua_val \<Rightarrow> nat" where
  "pointer (LUserdata p) = p"
| "pointer v = 0"

definition set_object :: "(((nat \<Rightarrow> 'o option) \<Rightarrow> nat \<Rightarrow> 'o option) \<Rightarrow> 's \<Rightarrow> 's) \<Rightarrow> nat \<Rightarrow> 'o option \<Rightarrow> ('s, unit) op" where
  "set_object upd p x = modify (upd (\<lambda>h. h(p := x)))"

locale object_table =
  fixes get :: "'s \<Rightarrow> nat \<Rightarrow> 'o option" and upd :: "((nat \<Rightarrow> 'o option) \<Rightarrow> nat \<Rightarrow> 'o option) \<Rightarrow> 's \<Rightarrow> 's"
  assumes get_upd: "get (upd f s) = f (get s)"
begin

definition free :: "'f lua_val \<Rightarrow> ('s, 'f lua_val list) op" where
  "free a1 = bind (deref get a1) (\<lambda>_. andthen (set_object upd (pointer a1) None) (ret []))"

lemma deref_Done: "deref get v s = Done x t \<longleftrightarrow> (\<exists>p. v = LUserdata p \<and> get s p = Some x \<and> t = s)"
  by (auto simp: deref_def split: lua_val.splits option.splits)

lemma free_Done: "free a1 s = Done rs t \<longleftrightarrow>
    (\<exists>p. a1 = LUserdata p \<and> get s p \<noteq> None \<and> rs = [] \<and> t = upd (\<lambda>h. h(p := None)) s)"
  by (cases a1) (auto simp: free_def deref_def set_object_def bind_def split: option.splits)

lemma freed_is_gone: "free a1 s = Done rs t \<Longrightarrow> deref get a1 t = Fault UseAfterFree t \<and> free a1 t = Fault UseAfterFree t"
  by (auto simp: free_Done) (auto simp: free_def deref_def get_upd)

end

interpretation pools: object_table protoPools protoPools_update by unfold_locales simp
interpretation conns: object_table mysqlConns mysqlConns_update by unfold_locales simp
interpretation stmts: object_table mysqlStmts mysqlStmts_update by unfold_locales simp
interpretation ctxs: object_table redisContexts redisContexts_update by unfold_locales simp

section \<open>Descriptor pools\<close>

text \<open>\<open>blank\<close> is what a pool holds when it is made, \<open>p\<close> the address of the \<open>ProtoPtr\<close>.\<close>

definition newProto :: "'d \<Rightarrow> nat \<Rightarrow> ('d natives, 'f lua_val list) op" where
  "newProto blank p = andthen (set_object protoPools_update p (Some blank)) (ret [LUserdata p])"

definition destroyProto :: "'f lua_val \<Rightarrow> ('d natives, 'f lua_val list) op" where
  "destroyProto a1 =
     bind (deref protoPools a1) (\<lambda>_. andthen (set_object protoPools_update (pointer a1) None) (ret []))"

text \<open>
  The files of a descriptor set, one after the other: \<open>build\<close> gives the pool with the file in it, or
  \<open>None\<close>, where the library leaves the pool as it was.
\<close>

fun build_files ::
  "('d \<Rightarrow> 'e \<Rightarrow> 'd option) \<Rightarrow> 'f lua_val \<Rightarrow> 'e list \<Rightarrow> ('d natives, 'f lua_val list) op"
where
  "build_files build ptr [] = ret [LBool True]"
| "build_files build ptr (file # files) =
     bind (deref protoPools ptr) (\<lambda>pool.
       case build pool file of
         None \<Rightarrow> ret [LBool False]
       | Some pool \<Rightarrow> andthen (set_object protoPools_update (pointer ptr) (Some pool)) (build_files build ptr files))"

definition loadfileProto ::
  "('f \<Rightarrow> string) \<Rightarrow> (string \<Rightarrow> 'b option) \<Rightarrow> ('b \<Rightarrow> 'e list option) \<Rightarrow> ('d \<Rightarrow> 'e \<Rightarrow> 'd option) \<Rightarrow>
   'f lua_val \<Rightarrow> 'f lua_val \<Rightarrow> ('d natives, 'f lua_val list) op"
where
  "loadfileProto fmt is_open parse_set build a1 a2 =
     bind (lift_res (check_string fmt a2)) (\<lambda>filePath.
       case is_open filePath of
         None \<Rightarrow> ret [LBool False]
       | Some content \<Rightarrow>
           (case parse_set content of None \<Rightarrow> ret [LBool False] | Some files \<Rightarrow> build_files build a1 files))"

text \<open>\<open>encode\<close> and \<open>decode\<close> with their pool, which they use once their arguments are checked.\<close>

definition encode_in ::
  "('f \<Rightarrow> string) \<Rightarrow> ('f \<Rightarrow> int option) \<Rightarrow> (int \<Rightarrow> 'f) \<Rightarrow> ('f \<Rightarrow> 'f) \<Rightarrow> ('f lua_table \<Rightarrow> nat) \<Rightarrow> ('d \<Rightarrow> nat \<Rightarrow> field list) \<Rightarrow>
   ('d \<Rightarrow> string \<Rightarrow> nat option) \<Rightarrow> (nat \<Rightarrow> 'f pmsg \<Rightarrow> string option) \<Rightarrow> 'f lua_val list \<Rightarrow> ('d natives, 'f lua_val list) op"
where
  "encode_in fmt toint dbl single len desc typ serialize args =
     andthen (lift_res (check_string fmt (if 1 < length args then args ! 1 else LNil)))
       (if length args < 3 \<or> \<not> lua_istable (args ! 2) then ret []
        else bind (deref protoPools (args ! 0)) (\<lambda>pool.
          lift_res (encodeProto fmt toint dbl single len (desc pool) (typ pool) serialize args)))"

definition decode_in ::
  "('f \<Rightarrow> string) \<Rightarrow> ('d \<Rightarrow> nat \<Rightarrow> field list) \<Rightarrow> (nat \<Rightarrow> nat \<Rightarrow> 'f pval) \<Rightarrow> ('d \<Rightarrow> string \<Rightarrow> nat option) \<Rightarrow>
   (nat \<Rightarrow> string \<Rightarrow> 'f pmsg option) \<Rightarrow> 'f lua_val \<Rightarrow> 'f lua_val \<Rightarrow> 'f lua_val \<Rightarrow> ('d natives, 'f lua_val list) op"
where
  "decode_in fmt desc dflt typ parse a1 a2 a3 =
     andthen (lift_res (check_string fmt a2)) (andthen (lift_res (check_string fmt a3))
       (bind (deref protoPools a1) (\<lambda>pool.
         lift_res (case decodeProto fmt (desc pool) dflt (typ pool) parse a2 a3 of None \<Rightarrow> Loops | Some r \<Rightarrow> r))))"

section \<open>MySQL connections and statements\<close>

text \<open>\<open>mysql_init\<close> answers the address of the connection, or null.\<close>

definition newMariadb :: "nat option \<Rightarrow> ('d natives, 'f lua_val list) op" where
  "newMariadb init =
     (case init of
        None \<Rightarrow> ret [LNil]
      | Some p \<Rightarrow> andthen (set_object mysqlConns_update p (Some ())) (ret [LUserdata p]))"

definition destroyMariadb :: "'f lua_val \<Rightarrow> ('d natives, 'f lua_val list) op" where
  "destroyMariadb a1 =
     bind (deref mysqlConns a1) (\<lambda>_. andthen (set_object mysqlConns_update (pointer a1) None) (ret []))"

text \<open>\<open>real_connect\<close> gives the text of the error, if any; the port is narrowed to an \<open>unsigned int\<close>.\<close>

definition connectMariadb ::
  "'f lua_conv \<Rightarrow> (string \<Rightarrow> string \<Rightarrow> string \<Rightarrow> string \<Rightarrow> 32 word \<Rightarrow> string option) \<Rightarrow>
   'f lua_val \<Rightarrow> 'f lua_val \<Rightarrow> 'f lua_val \<Rightarrow> 'f lua_val \<Rightarrow> 'f lua_val \<Rightarrow> 'f lua_val \<Rightarrow> ('d natives, 'f lua_val list) op"
where
  "connectMariadb cv real_connect a1 a2 a3 a4 a5 a6 =
     bind (lift_res (check_string (cv_fmt cv) a2)) (\<lambda>host.
     bind (lift_res (check_integer cv a3)) (\<lambda>port.
     bind (lift_res (check_string (cv_fmt cv) a4)) (\<lambda>user.
     bind (lift_res (check_string (cv_fmt cv) a5)) (\<lambda>pwd.
     bind (lift_res (check_string (cv_fmt cv) a6)) (\<lambda>db.
     andthen (deref mysqlConns a1)
       (case real_connect host user pwd db (to_u32 port) of
          Some err \<Rightarrow> ret [LBool False, LStr (c_str err)]
        | None \<Rightarrow> ret [LBool True]))))))"

text \<open>
  \<open>mysql_stmt_init\<close> gives the address of the statement, or null, which the code hands on; \<open>prep\<close> is the
  error of the preparation, if any: the statement is then closed.
\<close>

definition prepareMariadb ::
  "'f lua_conv \<Rightarrow> nat option \<Rightarrow> (string \<Rightarrow> string option) \<Rightarrow> 'f lua_val \<Rightarrow> 'f lua_val \<Rightarrow> ('d natives, 'f lua_val list) op"
where
  "prepareMariadb cv stmt_init prep a1 a2 =
     bind (lift_res (check_string (cv_fmt cv) a2)) (\<lambda>sql.
     andthen (deref mysqlConns a1)
       (case stmt_init of
          None \<Rightarrow> raise NullPointer
        | Some p \<Rightarrow>
            andthen (set_object mysqlStmts_update p (Some sql))
              (case prep sql of
                 Some err \<Rightarrow> andthen (set_object mysqlStmts_update p None) (ret [LBool False, LStr (c_str err)])
               | None \<Rightarrow> ret [LBool True, LUserdata p])))"

definition stmtCloseMariadb :: "'f lua_val \<Rightarrow> ('d natives, 'f lua_val list) op" where
  "stmtCloseMariadb a1 =
     bind (deref mysqlStmts a1) (\<lambda>_. andthen (set_object mysqlStmts_update (pointer a1) None) (ret []))"

text \<open>\<open>query\<close> and \<open>exec\<close> with their object; how many parameters a statement has is read from its text.\<close>

definition query_in ::
  "(string \<Rightarrow> 'f) \<Rightarrow> ('f \<Rightarrow> string) \<Rightarrow> (string \<Rightarrow> query_answer) \<Rightarrow> 'f lua_val \<Rightarrow> 'f lua_val \<Rightarrow> ('d natives, 'f lua_table) op"
where
  "query_in atof fmt query a1 a2 =
     andthen (lift_res (check_string fmt a2))
       (andthen (deref mysqlConns a1) (lift_res (queryMariadb atof fmt query a2)))"

definition exec_in ::
  "(string \<Rightarrow> 'f) \<Rightarrow> ('f \<Rightarrow> string) \<Rightarrow> (string \<Rightarrow> nat) \<Rightarrow> (string \<Rightarrow> sql_param list \<Rightarrow> exec_answer) \<Rightarrow> 'f lua_val \<Rightarrow>
   'f lua_val list \<Rightarrow> ('d natives, 'f lua_table) op"
where
  "exec_in atof dbl_str params exec a1 args =
     bind (deref mysqlStmts a1) (\<lambda>sql. lift_res (execMariadb atof dbl_str (params sql) (exec sql) args))"

section \<open>Redis contexts\<close>

text \<open>\<open>redisConnect\<close>: no context, a context with an error in it, or one that is connected.\<close>

datatype redis_connection = NoContext | ContextError nat | Connected nat

definition newRedis ::
  "'f lua_conv \<Rightarrow> (string \<Rightarrow> int \<Rightarrow> redis_connection) \<Rightarrow> 'f lua_val \<Rightarrow> 'f lua_val \<Rightarrow> ('d natives, 'f lua_val list) op"
where
  "newRedis cv redisConnect a1 a2 =
     bind (lift_res (check_string (cv_fmt cv) a1)) (\<lambda>host.
     bind (lift_res (check_integer cv a2)) (\<lambda>port.
       case redisConnect host (to_i32 port) of
         NoContext \<Rightarrow> ret []
       | ContextError p \<Rightarrow> andthen (set_object redisContexts_update p (Some ())) (ret [])
       | Connected p \<Rightarrow> andthen (set_object redisContexts_update p (Some ())) (ret [LUserdata p])))"

definition destroyRedis :: "'f lua_val \<Rightarrow> ('d natives, 'f lua_val list) op" where
  "destroyRedis a1 =
     bind (deref redisContexts a1) (\<lambda>_. andthen (set_object redisContexts_update (pointer a1) None) (ret []))"

definition cmd_in ::
  "('f \<Rightarrow> string) \<Rightarrow> (string \<Rightarrow> 'f redis_reply option) \<Rightarrow> 'f lua_val \<Rightarrow> 'f lua_val \<Rightarrow> ('d natives, 'f lua_val list) op"
where
  "cmd_in fmt command a1 a2 =
     andthen (lift_res (check_string fmt a2))
       (andthen (deref redisContexts a1) (lift_res (cmdRedis fmt command a2)))"

section \<open>What the calls keep\<close>

lemma destroy_free:
  "destroyProto = pools.free" "destroyMariadb = conns.free" "stmtCloseMariadb = stmts.free" "destroyRedis = ctxs.free"
  by (simp_all add: fun_eq_iff destroyProto_def pools.free_def destroyMariadb_def conns.free_def
      stmtCloseMariadb_def stmts.free_def destroyRedis_def ctxs.free_def)

lemmas frees_Done = pools.free_Done conns.free_Done stmts.free_Done ctxs.free_Done

lemma lift_res_Done [simp]: "lift_res r s = Done x t \<longleftrightarrow> r = Ok x \<and> t = s"
  by (cases r) (auto simp: lift_res_def)

lemma newRedis_Done:
  assumes "newRedis cv redisConnect a1 a2 s = Done rs t"
  shows "(rs = [] \<and> t = s) \<or> (\<exists>p. (rs = [] \<or> rs = [LUserdata p]) \<and> t = redisContexts_update (\<lambda>h. h(p \<mapsto> ())) s \<and>
    (\<exists>host port. redisConnect host port = (if rs = [] then ContextError p else Connected p)))"
proof -
  from assms obtain host port where *:
    "(case redisConnect host (to_i32 port) of
         NoContext \<Rightarrow> ret []
       | ContextError p \<Rightarrow> andthen (set_object redisContexts_update p (Some ())) (ret [])
       | Connected p \<Rightarrow> andthen (set_object redisContexts_update p (Some ())) (ret [LUserdata p])) s = Done rs t"
    by (auto simp: newRedis_def bind_returns)
  then show ?thesis
  proof (cases "redisConnect host (to_i32 port)")
    case (ContextError p)
    with * have "rs = []" "t = redisContexts_update (\<lambda>h. h(p \<mapsto> ())) s" by (simp_all add: set_object_def)
    with ContextError show ?thesis by auto
  next
    case (Connected p)
    with * have "rs = [LUserdata p]" "t = redisContexts_update (\<lambda>h. h(p \<mapsto> ())) s" by (simp_all add: set_object_def)
    with Connected show ?thesis by auto
  qed simp
qed

lemma cmd_in_Done: "cmd_in fmt command a1 a2 s = Done rs t \<Longrightarrow> t = s \<and> (\<exists>p. a1 = LUserdata p \<and> redisContexts s p \<noteq> None)"
  by (auto simp: cmd_in_def bind_returns ctxs.deref_Done)

text \<open>
  A script that uses Redis with care: it holds the handles it was given, uses only those, and forgets
  one when it destroys it.  The allocator gives a new context an address at which no context lives.
\<close>

fun handles :: "'f lua_val list \<Rightarrow> nat set" where
  "handles [] = {}"
| "handles (LUserdata p # vs) = insert p (handles vs)"
| "handles (v # vs) = handles vs"

inductive redis_step :: "'f lua_conv \<Rightarrow> nat set \<times> 'd natives \<Rightarrow> nat set \<times> 'd natives \<Rightarrow> bool" for cv :: "'f lua_conv" where
  redis_open: "newRedis cv redisConnect a1 a2 s = Done rs t \<Longrightarrow>
    \<forall>host port p. redisConnect host port \<in> {ContextError p, Connected p} \<longrightarrow> redisContexts s p = None \<Longrightarrow>
    redis_step cv (K, s) (K \<union> handles rs, t)"
| redis_command: "p \<in> K \<Longrightarrow> cmd_in (cv_fmt cv) command (LUserdata p) a2 s = Done rs t \<Longrightarrow> redis_step cv (K, s) (K, t)"
| redis_close: "p \<in> K \<Longrightarrow> destroyRedis (LUserdata p :: 'f lua_val) s = Done rs t \<Longrightarrow> redis_step cv (K, s) (K - {p}, t)"

inductive_cases redis_stepE: "redis_step cv (K, s) (K', t)"

text \<open>A context that no script holds, while every handle in use is of a live context.\<close>

definition lost_context :: "nat \<Rightarrow> nat set \<times> 'd natives \<Rightarrow> bool" where
  "lost_context p x \<longleftrightarrow> redisContexts (snd x) p \<noteq> None \<and> p \<notin> fst x \<and> (\<forall>q \<in> fst x. redisContexts (snd x) q \<noteq> None)"

lemma lost_step:
  fixes cv :: "'f lua_conv"
  shows "lost_context p x \<Longrightarrow> redis_step cv x y \<Longrightarrow> lost_context p y"
proof (erule redis_step.cases)
  fix redisConnect a1 a2 s rs t K
  assume I: "lost_context p x" and x: "x = (K, s)" and y: "y = (K \<union> handles rs, t)"
    and new: "newRedis cv redisConnect a1 a2 s = Done rs t"
    and free: "\<forall>host port p. redisConnect host port \<in> {ContextError p, Connected p} \<longrightarrow> redisContexts s p = None"
  from newRedis_Done [OF new] show "lost_context p y"
  proof (elim disjE conjE exE)
    assume "rs = []" "t = s"
    with I x y show ?thesis by (simp add: lost_context_def)
  next
    fix q host port
    assume rs: "rs = []" and t: "t = redisContexts_update (\<lambda>h. h(q \<mapsto> ())) s"
    with I x y show ?thesis by (simp add: lost_context_def)
  next
    fix q host port
    assume rs: "rs = [LUserdata q]" and t: "t = redisContexts_update (\<lambda>h. h(q \<mapsto> ())) s"
      and c: "redisConnect host port = (if rs = [] then ContextError q else Connected q)"
    from rs c have "redisConnect host port \<in> {ContextError q, Connected q}" by simp
    with free have "redisContexts s q = None" by blast
    with I x have "q \<noteq> p" by (auto simp: lost_context_def)
    with I x y rs t show ?thesis by (simp add: lost_context_def)
  qed
next
  fix q command a2 s rs t K
  assume "lost_context p x" "x = (K, s)" "y = (K, t)" "cmd_in (cv_fmt cv) command (LUserdata q) a2 s = Done rs t"
  with cmd_in_Done show "lost_context p y" by (fastforce simp: lost_context_def)
next
  fix q s rs t K
  assume "lost_context p x" "x = (K, s)" "y = (K - {q}, t)" "q \<in> K" "destroyRedis (LUserdata q :: 'f lua_val) s = Done rs t"
  then show "lost_context p y" by (auto simp: lost_context_def destroy_free ctxs.free_Done)
qed

interpretation lost: inductive_invariant "\<lambda>x. lost_context p x" "redis_step cv" "lost_context p" for p cv
  by unfold_locales (assumption, rule lost_step)

section \<open>Properties\<close>

text \<open>
  C36: \<open>redis.new\<close> with a context that carries an error answers no value, and keeps the context: it is
  live, no handle of it exists, and after any further calls of careful scripts it is still live and
  still out of reach.
\<close>

theorem redis_failed_connection_leaks:
  assumes "redisConnect (c_str host) (to_i32 port) = ContextError p"
    and "\<forall>q \<in> K. redisContexts s q \<noteq> None" and "p \<notin> K"
    and "newRedis cv redisConnect (LStr host) (LInt port) s = Done rs t"
    and "(redis_step cv)\<^sup>*\<^sup>* (K \<union> handles rs, t) (K', u)"
  shows "rs = [] \<and> redisContexts u p \<noteq> None \<and> p \<notin> K' \<and> (\<forall>q \<in> K'. redisContexts u q \<noteq> None)"
proof -
  have t: "rs = []" "t = redisContexts_update (\<lambda>h. h(p \<mapsto> ())) s"
    using assms(1,4) by (auto simp: newRedis_def bind_returns set_object_def check_integer_def)
  then have "lost_context p (K \<union> handles rs, t)" using assms(2,3) by (simp add: lost_context_def)
  with assms(5) have "reach (lost_context p) (redis_step cv) (K', u)"
    by (induction rule: rtranclp_induct) (auto intro: reach.intros)
  from lost.always [OF this] t(1) show ?thesis by (simp add: lost_context_def)
qed

theorem redis_failed_connection_leaks_witness:
  "\<exists>rs t. newRedis (\<lparr>cv_fmt = \<lambda>x. x, cv_float = \<lambda>x. None, cv_string = \<lambda>x. None\<rparr> :: string lua_conv) (\<lambda>h n. ContextError 7)
      (LStr ''localhost'') (LInt 6379) (no_natives :: nat natives) = Done rs t \<and> rs = [] \<and> redisContexts t 7 \<noteq> None"
proof -
  let ?cv = "\<lparr>cv_fmt = \<lambda>x. x, cv_float = \<lambda>x. None, cv_string = \<lambda>x. None\<rparr> :: string lua_conv"
  obtain rs t where new: "newRedis ?cv (\<lambda>h n. ContextError 7) (LStr ''localhost'') (LInt 6379) (no_natives :: nat natives) = Done rs t"
    by (simp add: newRedis_def bind_def lift_res_def check_integer_def set_object_def)
  have "rs = [] \<and> redisContexts t 7 \<noteq> None \<and> 7 \<notin> handles rs \<and> (\<forall>q \<in> handles rs. redisContexts t q \<noteq> None)"
    by (rule redis_failed_connection_leaks [of "\<lambda>h n. ContextError 7" "''localhost''" 6379 7 "{}" no_natives ?cv rs t])
      (use new in simp_all)
  with new show ?thesis by blast
qed

text \<open>The files that go into a pool before the first that does not, and the pool they make.\<close>

fun built :: "('d \<Rightarrow> 'e \<Rightarrow> 'd option) \<Rightarrow> 'd \<Rightarrow> 'e list \<Rightarrow> 'd \<times> 'e list" where
  "built build pool [] = (pool, [])"
| "built build pool (file # files) =
     (case build pool file of None \<Rightarrow> (pool, file # files) | Some pool \<Rightarrow> built build pool files)"

lemma build_files_run:
  "protoPools s p = Some pool \<Longrightarrow>
   build_files build (LUserdata p) files s =
     Done [LBool (snd (built build pool files) = [])] (protoPools_update (\<lambda>h. h(p \<mapsto> fst (built build pool files))) s)"
proof (induction files arbitrary: s pool)
  case Nil
  have "(protoPools s)(p \<mapsto> pool) = protoPools s" using Nil by (simp add: fun_upd_idem)
  then have "protoPools_update (\<lambda>h. h(p \<mapsto> pool)) s = s" by (cases s) simp
  then show ?case by (simp only: build_files.simps built.simps fst_conv snd_conv ret_run refl simp_thms)
next
  case (Cons x xs)
  have same: "protoPools_update (\<lambda>h. h(p \<mapsto> pool)) s = s"
    using Cons.prems by (cases s) (simp add: fun_upd_idem)
  have run: "build_files build (LUserdata p) (x # xs) s =
      (case build pool x of
         None \<Rightarrow> Done [LBool False] s
       | Some pool \<Rightarrow> build_files build (LUserdata p) xs (protoPools_update (\<lambda>h. h(p \<mapsto> pool)) s))"
    using Cons.prems by (simp add: deref_def bind_def set_object_def split: option.split)
  show ?case
  proof (cases "build pool x")
    case None
    then show ?thesis unfolding run using same by (simp del: fun_upd_apply)
  next
    case (Some pool')
    have "protoPools (protoPools_update (\<lambda>h. h(p \<mapsto> pool')) s) p = Some pool'" by simp
    note rest = Cons.IH [OF this]
    have "protoPools_update (\<lambda>h. h(p \<mapsto> q)) (protoPools_update (\<lambda>h. h(p \<mapsto> pool')) s) = protoPools_update (\<lambda>h. h(p \<mapsto> q)) s" for q
      by (cases s) simp
    with rest Some show ?thesis unfolding run by (simp only: built.simps option.case)
  qed
qed

text \<open>
  C35: \<open>proto.loadFile\<close> adds the files of a descriptor set until one does not build: it answers true exactly
  when all of them built, and a false leaves in the pool the files before the bad one, so that their
  types can be encoded afterwards.  A file that is not there or does not parse leaves the pool as
  it was.
\<close>

theorem proto_load_keeps_prefix:
  assumes "protoPools s p = Some pool"
  shows "loadfileProto fmt is_open parse_set build (LUserdata p) (LStr path) s =
    (case Option.bind (is_open (c_str path)) parse_set of
       None \<Rightarrow> Done [LBool False] s
     | Some files \<Rightarrow>
         Done [LBool (snd (built build pool files) = [])] (protoPools_update (\<lambda>h. h(p \<mapsto> fst (built build pool files))) s))"
proof -
  have "lift_res (check_string fmt (LStr path)) s = Done (c_str path) s" by simp
  then have "loadfileProto fmt is_open parse_set build (LUserdata p) (LStr path) s =
      (case is_open (c_str path) of
         None \<Rightarrow> ret [LBool False]
       | Some content \<Rightarrow>
           (case parse_set content of None \<Rightarrow> ret [LBool False] | Some files \<Rightarrow> build_files build (LUserdata p) files)) s"
    unfolding loadfileProto_def by (rule bind_Done)
  then show ?thesis by (simp add: build_files_run [OF assms] split: option.split)
qed

text \<open>Files as numbers, of which a pool takes those that it does not have.\<close>

theorem proto_load_keeps_prefix_witness:
  "loadfileProto (\<lambda>x. x) (\<lambda>n. if n = ''all.pb'' then Some ''x'' else None) (\<lambda>c. Some [1, 2, 1, 3 :: nat])
     (\<lambda>pool f. if f \<in> set pool then None else Some (pool @ [f])) (LUserdata 5 :: string lua_val) (LStr ''all.pb'')
     (no_natives\<lparr>protoPools := [5 \<mapsto> []]\<rparr>) =
   Done [LBool False] (no_natives\<lparr>protoPools := [5 \<mapsto> [1, 2]]\<rparr>)"
proof -
  have "protoPools (no_natives\<lparr>protoPools := [5 \<mapsto> [] :: nat list]\<rparr>) 5 = Some []" by simp
  from proto_load_keeps_prefix [OF this, of "\<lambda>x :: string. x" "\<lambda>n. if n = ''all.pb'' then Some ''x'' else None"
      "\<lambda>c. Some [1, 2, 1, 3 :: nat]" "\<lambda>pool f. if f \<in> set pool then None else Some (pool @ [f])" "''all.pb''"]
  show ?thesis by (simp add: c_str_def)
qed

section \<open>Handles that are gone\<close>

text \<open>A destroyed object used again, or destroyed again, is a use after free.\<close>

lemma destroyed_pool:
  "destroyProto (a1 :: 'f lua_val) s = Done rs t \<Longrightarrow>
   deref protoPools a1 t = Fault UseAfterFree t \<and> destroyProto a1 t = Fault UseAfterFree t"
  unfolding destroy_free by (rule pools.freed_is_gone)

lemma destroyed_connection:
  "destroyMariadb (a1 :: 'f lua_val) s = Done rs t \<Longrightarrow>
   deref mysqlConns a1 t = Fault UseAfterFree t \<and> destroyMariadb a1 t = Fault UseAfterFree t"
  unfolding destroy_free by (rule conns.freed_is_gone)

lemma closed_statement:
  "stmtCloseMariadb (a1 :: 'f lua_val) s = Done rs t \<Longrightarrow>
   exec_in atof dbl_str params exec a1 args t = Fault UseAfterFree t \<and> stmtCloseMariadb a1 t = Fault UseAfterFree t"
proof -
  assume "stmtCloseMariadb a1 s = Done rs t"
  then have gone: "deref mysqlStmts a1 t = Fault UseAfterFree t \<and> stmtCloseMariadb a1 t = Fault UseAfterFree t"
    unfolding destroy_free by (rule stmts.freed_is_gone)
  then have "exec_in atof dbl_str params exec a1 args t = Fault UseAfterFree t" by (simp add: exec_in_def)
  with gone show ?thesis by simp
qed

text \<open>A statement that does not prepare is closed: the call leaves no statement behind.\<close>

lemma failed_prepare_closes:
  assumes "prep (c_str sql) = Some err" and "mysqlConns s c = Some ()" and "mysqlStmts s p = None"
  shows "prepareMariadb cv (Some p) prep (LUserdata c) (LStr sql) s = Done [LBool False, LStr (c_str err)] s"
proof -
  have "mysqlStmts_update ((\<lambda>h. h(p := None)) \<circ> (\<lambda>h. h(p \<mapsto> c_str sql))) s = s"
    using assms(3) by (cases s) (auto simp: fun_eq_iff)
  with assms show ?thesis by (simp add: prepareMariadb_def deref_def set_object_def bind_def lift_res_def comp_def)
qed

end
