(* ===== verification/Encode.thy ===== *)
theory Encode
  imports LuaValue
begin

text \<open>
  \<open>src/encode\<close>: the names of character encodings and the conversion of texts.  ICU is not part of
  the repository: \<open>ucnv to from cap text\<close> is what \<open>ucnv_convert\<close> answers into a buffer of \<open>cap\<close>
  bytes, its error code and the bytes it wrote.  \<open>acp\<close> is \<open>GetACP()\<close> on Windows, \<open>None\<close> elsewhere.
\<close>

section \<open>Encodings\<close>

text \<open>The enumerators of \<open>EncodeType\<close> in their order, which is that of their values, from 0.\<close>

definition EncodeTypes :: "string list" where
  "EncodeTypes =
     [''System'', ''IBM037'', ''IBM437'', ''IBM500'', ''ASMO_708'', ''DOS_720'', ''IBM737'',
      ''IBM775'', ''IBM850'', ''IBM852'', ''IBM855'', ''IBM857'', ''IBM00858'', ''IBM860'', ''IBM861'',
      ''DOS_862'', ''IBM863'', ''IBM864'', ''IBM865'', ''CP866'', ''IBM869'', ''IBM870'',
      ''WINDOWS_874'', ''CP875'', ''SHIFT_JIS'', ''GB2312'', ''KS_C_5601_1987'', ''BIG5'', ''IBM1026'',
      ''IBM01047'', ''IBM01140'', ''IBM01141'', ''IBM01142'', ''IBM01143'', ''IBM01144'', ''IBM01145'',
      ''IBM01146'', ''IBM01147'', ''IBM01148'', ''IBM01149'', ''UTF16'', ''UNICODEFFFE'',
      ''WINDOWS_1250'', ''WINDOWS_1251'', ''WINDOWS_1252'', ''WINDOWS_1253'', ''WINDOWS_1254'',
      ''WINDOWS_1255'', ''WINDOWS_1256'', ''WINDOWS_1257'', ''WINDOWS_1258'', ''JOHAB'', ''MACINTOSH'',
      ''X_MAC_JAPANESE'', ''X_MAC_CHINESETRAD'', ''X_MAC_KOREAN'', ''X_MAC_ARABIC'', ''X_MAC_HEBREW'',
      ''X_MAC_GREEK'', ''X_MAC_CYRILLIC'', ''X_MAC_CHINESESIMP'', ''X_MAC_romanian'',
      ''X_MAC_ukrainian'', ''X_MAC_THAI'', ''X_MAC_CE'', ''X_MAC_ICELANDIC'', ''X_MAC_TURKISH'',
      ''X_MAC_CROATIAN'', ''X_CHINESE_CNS'', ''X_CP20001'', ''X_CHINESE_ETEN'', ''X_CP20003'',
      ''X_CP20004'', ''X_CP20005'', ''X_IA5'', ''X_IA5_GERMAN'', ''X_IA5_SWEDISH'',
      ''X_IA5_NORWEGIAN'', ''US_ASCII'', ''X_CP20261'', ''X_CP20269'', ''IBM273'', ''IBM277'',
      ''IBM278'', ''IBM280'', ''IBM284'', ''IBM285'', ''IBM290'', ''IBM297'', ''IBM420'', ''IBM423'',
      ''IBM424'', ''X_EBCDIC_KOREANEXTENDED'', ''IBM_THAI'', ''KOI8_R'', ''IBM871'', ''IBM880'',
      ''IBM905'', ''IBM00924'', ''EUC_JP'', ''X_CP20936'', ''X_CP20949'', ''CP1025'', ''KOI8_U'',
      ''ISO_8859_1'', ''ISO_8859_2'', ''ISO_8859_3'', ''ISO_8859_4'', ''ISO_8859_5'', ''ISO_8859_6'',
      ''ISO_8859_7'', ''ISO_8859_8'', ''ISO_8859_9'', ''ISO_8859_13'', ''ISO_8859_15'', ''X_EUROPA'',
      ''ISO_8859_8_I'', ''ISO_2022_JP'', ''CSISO2022JP'', ''ISO_2022_KR'', ''X_CP50227'', ''EUC_CN'',
      ''EUC_KR'', ''HZ_GB_2312'', ''GB18030'', ''X_ISCII_DE'', ''X_ISCII_BE'', ''X_ISCII_TA'',
      ''X_ISCII_TE'', ''X_ISCII_AS'', ''X_ISCII_OR'', ''X_ISCII_KA'', ''X_ISCII_MA'', ''X_ISCII_GU'',
      ''X_ISCII_PA'', ''UTF7'', ''UTF8'', ''UTF32'', ''UTF32BE'']"

definition EncodeType :: "string \<Rightarrow> int" where
  "EncodeType name = int (length (takeWhile (\<lambda>x. x \<noteq> name) EncodeTypes))"

definition getSystemCodePage :: "int option \<Rightarrow> string" where
  "getSystemCodePage acp = (if acp = Some 936 then ''gb2312'' else ''utf-8'')"

text \<open>Every other case of the \<open>switch\<close> breaks out of it.\<close>

definition getEncodeString :: "int option \<Rightarrow> int \<Rightarrow> string" where
  "getEncodeString acp code =
     (if code = EncodeType ''GB2312'' then ''gb2312''
      else if code = EncodeType ''UTF16'' then ''utf-16''
      else if code = EncodeType ''UTF8'' then ''utf-8''
      else if code = EncodeType ''UTF32'' then ''utf-32''
      else getSystemCodePage acp)"

definition changeEncode ::
  "int option \<Rightarrow> (string \<Rightarrow> string \<Rightarrow> int \<Rightarrow> string \<Rightarrow> int \<times> string) \<Rightarrow> string \<Rightarrow> int \<Rightarrow> int \<Rightarrow> bool \<times> string"
where
  "changeEncode acp ucnv value fromEncode toEncode =
     (if value = [] then (True, [])
      else
        (let fromEncodeStr = getEncodeString acp fromEncode;
             toEncodeStr = getEncodeString acp toEncode;
             targetLen = int (length value) * 4;
             (err, out) = ucnv toEncodeStr fromEncodeStr (to_i32 targetLen) value
         in if err \<noteq> 0 then (False, []) else (True, out)))"

section \<open>Properties\<close>

lemma EncodeType_values:
  "EncodeType ''System'' = 0" "EncodeType ''GB2312'' = 25" "EncodeType ''UTF16'' = 40"
  "EncodeType ''UTF8'' = 136" "EncodeType ''UTF32'' = 137" "EncodeType ''UTF32BE'' = 138"
  by code_simp+

text \<open>
  Away from Windows, of the 139 encodings only GB2312, UTF-16 and UTF-32 are told from UTF-8:
  between any two others every text is converted as from UTF-8 to UTF-8.
\<close>

theorem encodings_told_apart:
  assumes "f \<notin> {25, 40, 137}" and "t \<notin> {25, 40, 137}"
  shows "changeEncode None ucnv value f t = changeEncode None ucnv value (EncodeType ''UTF8'') (EncodeType ''UTF8'')"
  using assms by (simp add: changeEncode_def getEncodeString_def EncodeType_values getSystemCodePage_def)

text \<open>
  The buffer has four bytes for each byte of the text.  Where the converted text fills it (as ASCII
  in UTF-32 does, with or without a byte order mark), ICU reports an error or the warning that the
  text has no end, and the conversion is refused.
\<close>

lemma full_buffer_refused:
  assumes "\<And>cap. cap \<le> needed \<Longrightarrow> fst (ucnv (getEncodeString acp t) (getEncodeString acp f) cap value) \<noteq> 0"
    and "value \<noteq> []" "4 * int (length value) \<le> needed" "4 * length value < 2 ^ 31"
  shows "changeEncode acp ucnv value f t = (False, [])"
proof -
  have "to_i32 (int (length value) * 4) = int (length value) * 4"
    by (rule to_i32_small) (use assms(4) in simp_all)
  moreover have "fst (ucnv (getEncodeString acp t) (getEncodeString acp f) (int (length value) * 4) value) \<noteq> 0"
    by (rule assms(1)) (use assms(3) in simp)
  ultimately show ?thesis using assms(2) by (auto simp: changeEncode_def Let_def split: prod.split)
qed

theorem encodings_told_apart_witness:
  "changeEncode None (\<lambda>t f cap v. (if t = f then 0 else 10, v)) ''ab'' (EncodeType ''SHIFT_JIS'') (EncodeType ''BIG5'') = (True, ''ab'')"
proof -
  have "EncodeType ''SHIFT_JIS'' = 24" "EncodeType ''BIG5'' = 27" by code_simp+
  then show ?thesis
    using encodings_told_apart [of 24 27 "\<lambda>t f cap v. (if t = f then 0 else 10, v)" "''ab''"] by (simp add: changeEncode_def)
qed

end
