(* ===== verification/Fs.thy ===== *)
theory Fs
  imports LuaValue
begin

text \<open>
  \<open>src/fs/fs.cpp\<close>: the file-system calls of the scripts.  A path is its text, with \<open>/\<close> between
  names.  What the operating system answers is a parameter; \<open>'s\<close> is the state of the disk.  A C
  function that returns \<open>n\<close> hands the script the top \<open>n\<close> values of its stack, which starts with
  the arguments.
\<close>

definition stack_top :: "nat \<Rightarrow> 'f lua_val list \<Rightarrow> 'f lua_val list" where
  "stack_top n stack = drop (length stack - n) stack"

definition lua_true :: "'f lua_val \<Rightarrow> bool" where
  "lua_true v \<longleftrightarrow> v \<noteq> LNil \<and> v \<noteq> LBool False"

text \<open>\<open>luaL_checkstring(L, 1)\<close>, which leaves a number in its slot as a string.\<close>

definition first_string :: "('f \<Rightarrow> string) \<Rightarrow> 'f lua_val list \<Rightarrow> (string \<times> 'f lua_val list) res" where
  "first_string fmt args =
     (case args of
        [] \<Rightarrow> Raises LuaError
      | v # vs \<Rightarrow> (case lua_tostring fmt v of None \<Rightarrow> Raises LuaError | Some s \<Rightarrow> Ok (c_str s, LStr s # vs)))"

section \<open>The calls\<close>

text \<open>\<open>exists\<close> answers \<open>None\<close> when it throws; there is no handler for that.\<close>

definition existsFs :: "('f \<Rightarrow> string) \<Rightarrow> (string \<Rightarrow> bool option) \<Rightarrow> 'f lua_val list \<Rightarrow> 'f lua_val list res" where
  "existsFs fmt exists args =
     rbind (first_string fmt args) (\<lambda>(path, stack).
       case exists path of
         None \<Rightarrow> Raises UncaughtException
       | Some b \<Rightarrow> if \<not> b then Ok (stack_top 1 (stack @ [LBool False])) else Ok (stack_top 1 (stack @ [LBool True])))"

fun list_files :: "(string \<times> bool) list \<Rightarrow> int \<Rightarrow> 'f lua_table \<Rightarrow> 'f lua_table" where
  "list_files [] index t = t"
| "list_files ((name, regular) # its) index t =
     (if regular then list_files its (index + 1) (lua_rawseti index (LStr (c_str name)) t)
      else list_files its index t)"

text \<open>A directory is the list of its entries, each with whether it is a regular file.\<close>

definition listdir ::
  "('f \<Rightarrow> string) \<Rightarrow> (string \<Rightarrow> bool option) \<Rightarrow> (string \<Rightarrow> (string \<times> bool) list option) \<Rightarrow> 'f lua_val list \<Rightarrow>
   'f lua_val list res"
where
  "listdir fmt exists entries args =
     rbind (first_string fmt args) (\<lambda>(path, stack).
       case exists path of
         None \<Rightarrow> Raises UncaughtException
       | Some b \<Rightarrow>
           if \<not> b then Ok (stack_top 1 (stack @ [LTable []]))
           else
             (case entries path of
                None \<Rightarrow> Raises UncaughtException
              | Some its \<Rightarrow> Ok (stack_top 1 (stack @ [LTable (list_files its 1 [])]))))"

text \<open>\<open>create_directories\<close>: the new disk, whether a directory was made, the error's text.\<close>

definition mkdir ::
  "('f \<Rightarrow> string) \<Rightarrow> ('s \<Rightarrow> string \<Rightarrow> 's \<times> bool \<times> string option) \<Rightarrow> 'f lua_val list \<Rightarrow> 's \<Rightarrow>
   ('f lua_val list \<times> 's) res"
where
  "mkdir fmt create_directories args s =
     rbind (first_string fmt args) (\<lambda>(path, stack).
       let (t, made, ec) = create_directories s path
       in if \<not> made then
            (let stack = stack @ [LBool False];
                 stack = (case ec of None \<Rightarrow> stack | Some message \<Rightarrow> stack @ [LStr (c_str message)])
             in Ok (stack_top 1 stack, t))
          else Ok (stack_top 1 (stack @ [LBool True]), t))"

text \<open>\<open>remove_all\<close>: how many entries went away, or an error, of which it makes \<open>uintmax_t(-1)\<close>.\<close>

definition removed_count :: "nat + string \<Rightarrow> nat" where
  "removed_count r = (case r of Inl n \<Rightarrow> n | Inr message \<Rightarrow> 2 ^ 64 - 1)"

definition rmdir ::
  "('f \<Rightarrow> string) \<Rightarrow> ('s \<Rightarrow> string \<Rightarrow> 's \<times> (nat + string)) \<Rightarrow> 'f lua_val list \<Rightarrow> 's \<Rightarrow> ('f lua_val list \<times> 's) res"
where
  "rmdir fmt remove_all args s =
     rbind (first_string fmt args) (\<lambda>(path, stack).
       let (t, r) = remove_all s path
       in if removed_count r = 0 then
            (let stack = stack @ [LBool False];
                 stack = (case r of Inl n \<Rightarrow> stack | Inr message \<Rightarrow> stack @ [LStr (c_str message)])
             in Ok (stack_top 2 stack, t))
          else Ok (stack_top 1 (stack @ [LBool True]), t))"

section \<open>Names\<close>

text \<open>\<open>path::filename\<close>, and where its extension starts: at the last dot, unless that is the first
  character or the name is \<open>..\<close>.\<close>

definition path_filename :: "string \<Rightarrow> string" where
  "path_filename p = rev (takeWhile (\<lambda>c. c \<noteq> CHR ''/'') (rev p))"

definition extension_at :: "string \<Rightarrow> nat" where
  "extension_at name =
     (if CHR ''.'' \<notin> set name \<or> name = ''..'' then length name
      else (let i = length name - 1 - length (takeWhile (\<lambda>c. c \<noteq> CHR ''.'') (rev name))
            in if i = 0 then length name else i))"

definition path_stem :: "string \<Rightarrow> string" where
  "path_stem p = take (extension_at (path_filename p)) (path_filename p)"

definition path_extension :: "string \<Rightarrow> string" where
  "path_extension p = drop (extension_at (path_filename p)) (path_filename p)"

definition getFileName :: "('f \<Rightarrow> string) \<Rightarrow> 'f lua_val list \<Rightarrow> 'f lua_val list res" where
  "getFileName fmt args =
     rbind (first_string fmt args) (\<lambda>(path, stack). Ok (stack_top 1 (stack @ [LStr (path_stem path)])))"

definition getFileExtension :: "('f \<Rightarrow> string) \<Rightarrow> 'f lua_val list \<Rightarrow> 'f lua_val list res" where
  "getFileExtension fmt args =
     rbind (first_string fmt args) (\<lambda>(path, stack). Ok (stack_top 1 (stack @ [LStr (path_extension path)])))"

section \<open>Properties\<close>

lemma stack_top_append [simp]: "length ys = n \<Longrightarrow> stack_top n (xs @ ys) = ys"
  by (simp add: stack_top_def)

text \<open>
  A script cannot tell from the first result of \<open>mkdir\<close> and \<open>rmdir\<close>, called with one path, that
  they failed: \<open>mkdir\<close> answers with the message of an error in place of false, and is false only for
  a directory that is there; \<open>rmdir\<close> is true after an error, and for a path with nothing to remove
  its first result is the path itself.
\<close>

theorem directories_hide_errors:
  "mkdir fmt create [LStr p] s =
     (let (t, made, ec) = create s (c_str p)
      in Ok (if made then [LBool True] else case ec of None \<Rightarrow> [LBool False] | Some m \<Rightarrow> [LStr (c_str m)], t)) \<and>
   rmdir fmt remove [LStr p] s =
     (let (t, r) = remove s (c_str p) in Ok (if r = Inl 0 then [LStr p, LBool False] else [LBool True], t)) \<and>
   (\<exists>vs t. rmdir fmt remove [LStr p] s = Ok (vs, t) \<and> lua_true (hd vs))"
proof -
  have "mkdir fmt create [LStr p] s =
     (let (t, made, ec) = create s (c_str p)
      in Ok (if made then [LBool True] else case ec of None \<Rightarrow> [LBool False] | Some m \<Rightarrow> [LStr (c_str m)], t))"
    by (auto simp: mkdir_def first_string_def stack_top_def Let_def split: prod.split option.split)
  moreover have r: "rmdir fmt remove [LStr p] s =
     (let (t, r) = remove s (c_str p) in Ok (if r = Inl 0 then [LStr p, LBool False] else [LBool True], t))"
    by (auto simp: rmdir_def first_string_def stack_top_def Let_def removed_count_def split: prod.split sum.split)
  moreover have "\<exists>vs t. rmdir fmt remove [LStr p] s = Ok (vs, t) \<and> lua_true (hd vs)"
    unfolding r by (cases "remove s (c_str p)") (auto simp: lua_true_def)
  ultimately show ?thesis by blast
qed

lemma filename_no_slash: "CHR ''/'' \<notin> set (path_filename p)"
  by (auto simp: path_filename_def dest: set_takeWhileD)

text \<open>
  The two parts of a file's name that scripts can ask for are the name cut in two: the first is
  not empty unless the name is, and the second is empty or a dot with no further dot behind it.
\<close>

theorem file_name_parts:
  fixes fmt :: "'f \<Rightarrow> string"
  shows "\<exists>stem ext. getFileName fmt [LStr p] = Ok [LStr stem] \<and> getFileExtension fmt [LStr p] = Ok [LStr ext] \<and>
    stem @ ext = path_filename (c_str p) \<and> (stem = [] \<longleftrightarrow> path_filename (c_str p) = []) \<and>
    (ext = [] \<or> (\<exists>e. ext = CHR ''.'' # e \<and> CHR ''.'' \<notin> set e))"
proof -
  let ?n = "path_filename (c_str p)"
  let ?k = "extension_at ?n"
  let ?d = "takeWhile (\<lambda>c. c \<noteq> CHR ''.'') (rev ?n)"
  have parts: "getFileName fmt [LStr p] = Ok [LStr (take ?k ?n)]" "getFileExtension fmt [LStr p] = Ok [LStr (drop ?k ?n)]"
    by (simp_all add: getFileName_def getFileExtension_def first_string_def path_stem_def path_extension_def stack_top_def)
  have "(take ?k ?n = [] \<longleftrightarrow> ?n = []) \<and> (drop ?k ?n = [] \<or> (\<exists>e. drop ?k ?n = CHR ''.'' # e \<and> CHR ''.'' \<notin> set e))"
  proof (cases "CHR ''.'' \<in> set ?n \<and> ?n \<noteq> ''..'' \<and> length ?n - 1 - length ?d \<noteq> 0")
    case True
    then have k: "?k = length ?n - 1 - length ?d" by (simp add: extension_at_def Let_def)
    from True have True': "dropWhile (\<lambda>c. c \<noteq> CHR ''.'') (rev ?n) \<noteq> []" by (auto simp: dropWhile_eq_Nil_conv)
    then obtain c r where c: "dropWhile (\<lambda>c. c \<noteq> CHR ''.'') (rev ?n) = c # r" by (cases "dropWhile (\<lambda>c. c \<noteq> CHR ''.'') (rev ?n)") simp_all
    from hd_dropWhile [OF True'] c have "c = CHR ''.''" by simp
    with c takeWhile_dropWhile_id [of "\<lambda>c. c \<noteq> CHR ''.''" "rev ?n"] have "rev ?n = ?d @ CHR ''.'' # r" by simp
    from arg_cong [OF this, of rev] have n: "?n = rev r @ CHR ''.'' # rev ?d" by simp
    from arg_cong [OF this, of length] have "?k = length (rev r)" using k by simp
    moreover have "drop (length (rev r)) (rev r @ CHR ''.'' # rev ?d) = CHR ''.'' # rev ?d" by (rule append_eq_conv_conj [THEN iffD1, THEN conjunct2, symmetric]) (rule refl)
    ultimately have "drop ?k ?n = CHR ''.'' # rev ?d" using n by argo
    moreover have "CHR ''.'' \<notin> set (rev ?d)" by (auto dest: set_takeWhileD)
    ultimately show ?thesis using True k by auto
  next
    case False
    then have "?k = length ?n" by (auto simp: extension_at_def Let_def)
    then show ?thesis by simp
  qed
  then show ?thesis using parts by auto
qed

text \<open>
  \<open>listdir\<close> answers a list, numbered from 1, of the names of the regular files in the order of
  the directory, and an empty one for a path that is not there.
\<close>

theorem listdir_lists_files:
  fixes fmt :: "'f \<Rightarrow> string"
  assumes "exists (c_str p) = Some there" and "there \<Longrightarrow> entries (c_str p) = Some its"
  shows "\<exists>t. listdir fmt exists entries [LStr p] = Ok [LTable t] \<and>
    t = (if there then zip (map LInt [1..int (length t)]) (map (LStr \<circ> c_str \<circ> fst) (filter snd its)) else [])"
proof -
  have files: "list_files its i u = u @ zip (map LInt [i..i + int (length (filter snd its)) - 1]) (map (LStr \<circ> c_str \<circ> fst) (filter snd its))"
    if "\<forall>j \<ge> i. LInt j \<notin> fst ` set u" for i and u :: "'f lua_table"
    using that
  proof (induction its arbitrary: i u)
    case (Cons e its)
    obtain name regular where e: "e = (name, regular)" by (cases e)
    show ?case
    proof (cases regular)
      case True
      have "lua_rawseti i (LStr (c_str name)) u = u @ [(LInt i, LStr (c_str name))]"
        using Cons.prems by (simp add: lt_set_new)
      moreover have "\<forall>j \<ge> i + 1. LInt j \<notin> fst ` set (u @ [(LInt i, LStr (c_str name))])" using Cons.prems by auto
      ultimately show ?thesis using Cons.IH [of "i + 1" "u @ [(LInt i, LStr (c_str name))]"] e True by (simp add: upto_rec1)
    next
      case False
      with Cons.IH [OF Cons.prems] e show ?thesis by simp
    qed
  qed simp
  have "(list_files its 1 [] :: 'f lua_table) = zip (map LInt [1..int (length (list_files its 1 [] :: 'f lua_table))]) (map (LStr \<circ> c_str \<circ> fst) (filter snd its))"
    using files [of 1 "[] :: 'f lua_table"] by simp
  with assms show ?thesis by (auto simp: listdir_def first_string_def stack_top_def)
qed

theorem listdir_lists_files_witness:
  "\<exists>t. listdir int_digits (\<lambda>_. Some True) (\<lambda>_. Some [(''a'', True), (''d'', False), (''b'', True)]) [LStr ''x''] = Ok [LTable t] \<and>
    t = zip (map LInt [1..int (length t)]) [LStr ''a'', LStr ''b'']"
  using listdir_lists_files [of "\<lambda>_. Some True" "''x''" True "\<lambda>_. Some [(''a'', True), (''d'', False), (''b'', True)]"
    "[(''a'', True), (''d'', False), (''b'', True)]" int_digits] by (simp add: c_str_def)

end
