(* ===== verification/Registration.thy ===== *)
theory Registration
  imports LuaValue
begin

text \<open>
  What every Lua state of the server starts with: \<open>luaRegisterAPI\<close> in \<open>src/lua/luaApi.cpp\<close> and the
  registration function of each component.  A global is here a flag or a table of C functions,
  each named by its C++ name (a lambda by its field).
\<close>

datatype global = GBool bool | GTable "string \<rightharpoonup> string" | GOther

type_synonym globals = "string \<rightharpoonup> global"

definition fields_of :: "(string \<times> string) list \<Rightarrow> (string \<rightharpoonup> string) \<Rightarrow> (string \<rightharpoonup> string)" where
  "fields_of fs t = foldl (\<lambda>t (name, f). t(name \<mapsto> f)) t fs"

text \<open>A fresh table, put over whatever the global held.\<close>

definition register_table :: "string \<Rightarrow> (string \<times> string) list \<Rightarrow> globals \<Rightarrow> globals res" where
  "register_table name fs g = Ok (g(name \<mapsto> GTable (fields_of fs Map.empty)))"

text \<open>The form with \<open>hasTable\<close>: the fields go into the table that is there.  What is there and is
  no table cannot be indexed.\<close>

definition register_into :: "string \<Rightarrow> (string \<times> string) list \<Rightarrow> globals \<Rightarrow> globals res" where
  "register_into name fs g =
     (case g name of
        None \<Rightarrow> Ok (g(name \<mapsto> GTable (fields_of fs Map.empty)))
      | Some (GTable t) \<Rightarrow> Ok (g(name \<mapsto> GTable (fields_of fs t)))
      | Some v \<Rightarrow> Raises LuaError)"

definition luaRegisterCoreAPI :: "globals \<Rightarrow> globals res" where
  "luaRegisterCoreAPI = register_into ''core''
     [(''exit'', ''exit''), (''setEnv'', ''setEnv''), (''env'', ''env''), (''time'', ''time''),
      (''mstime'', ''mstime''), (''timer'', ''timer''), (''getInputChar'', ''luaGetChar''), (''print'', ''print'')]"

definition luaRegisterServiceAPI :: "globals \<Rightarrow> globals res" where
  "luaRegisterServiceAPI = register_into ''core''
     [(''newService'', ''newService''), (''queryService'', ''queryService''),
      (''destoryService'', ''destoryService''), (''send'', ''sendService'')]"

definition luaRegisterFsAPI :: "globals \<Rightarrow> globals res" where
  "luaRegisterFsAPI = register_table ''fs''
     [(''listdir'', ''listdir''), (''exists'', ''existsFs''), (''mkdir'', ''mkdir''), (''rmdir'', ''rmdir''),
      (''getFileName'', ''getFileName''), (''getFileExtension'', ''getFileExtension'')]"

definition luaRegisterConfigAPI :: "globals \<Rightarrow> globals res" where
  "luaRegisterConfigAPI = register_table ''config''
     [(''init'', ''initConfig''), (''getConfig'', ''getConfig''), (''getLine'', ''getConfigLine''),
      (''getValue'', ''getConfigValue'')]"

definition luaRegisterLogAPI :: "globals \<Rightarrow> globals res" where
  "luaRegisterLogAPI = register_table ''log''
     [(''debug'', ''debug''), (''info'', ''info''), (''warning'', ''warning''), (''error'', ''error'')]"

definition luaRegisterProtobufAPI :: "globals \<Rightarrow> globals res" where
  "luaRegisterProtobufAPI = register_table ''proto''
     [(''new'', ''newProto''), (''destroy'', ''destroyProto''), (''loadFile'', ''loadfileProto''),
      (''encode'', ''encodeProto''), (''decode'', ''decodeProto'')]"

definition luaRegisterJsonAPI :: "globals \<Rightarrow> globals res" where
  "luaRegisterJsonAPI = register_table ''json'' [(''decode'', ''decode''), (''encode'', ''encode'')]"

definition luaRegisterMariadbAPI :: "globals \<Rightarrow> globals res" where
  "luaRegisterMariadbAPI = register_table ''mysql''
     [(''new'', ''newMariadb''), (''destroy'', ''destroyMariadb''), (''connect'', ''connectMariadb''),
      (''prepare'', ''prepareMariadb''), (''exec'', ''execMariadb''), (''stmtClose'', ''stmtCloseMariadb''),
      (''query'', ''queryMariadb'')]"

definition luaRegisterHttpClientAPI :: "globals \<Rightarrow> globals res" where
  "luaRegisterHttpClientAPI = register_table ''httpClient'' [(''get'', ''httpGet''), (''post'', ''httpPost'')]"

definition luaRegisterWebsocketServerAPI :: "globals \<Rightarrow> globals res" where
  "luaRegisterWebsocketServerAPI = register_table ''websocketServer''
     [(''new'', ''newWebsocketServer''), (''destroy'', ''destroyWebsocketServer''),
      (''listen'', ''listenWebsocketServer''), (''send'', ''sendWebsocketServer''), (''close'', ''closeWebsocketServer'')]"

definition luaRegisterTcpServerAPI :: "globals \<Rightarrow> globals res" where
  "luaRegisterTcpServerAPI = register_table ''tcpServer''
     [(''new'', ''newTcpServer''), (''destroy'', ''destroyTcpServer''), (''listen'', ''listenTcpServer''),
      (''send'', ''sendTcpServer''), (''close'', ''closeTcpServer''), (''getRemoteInfo'', ''getRemoteInfoTcpServer'')]"

definition luaRegisterTcpClientAPI :: "globals \<Rightarrow> globals res" where
  "luaRegisterTcpClientAPI = register_table ''tcpClient''
     [(''new'', ''newTcpClient''), (''destroy'', ''destroyTcpClient''), (''connect'', ''connectTcpClient''),
      (''close'', ''closeTcpClient''), (''send'', ''sendTcpClient'')]"

definition luaRegisterRedisAPI :: "globals \<Rightarrow> globals res" where
  "luaRegisterRedisAPI = register_table ''redis''
     [(''new'', ''newRedis''), (''destroy'', ''destroyRedis''), (''cmd'', ''cmdRedis'')]"

definition luaRegisterCryptoBase64API :: "globals \<Rightarrow> globals res" where
  "luaRegisterCryptoBase64API = register_into ''crypto''
     [(''base64Encode'', ''base64_encode''), (''base64Decode'', ''base64_decode'')]"

definition luaRegisterCryptoRsaAPI :: "globals \<Rightarrow> globals res" where
  "luaRegisterCryptoRsaAPI = register_into ''crypto''
     [(''rsaGen'', ''rsa_gen''), (''rsaEncode'', ''rsa_encode''), (''rsaDecode'', ''rsa_decode'')]"

definition luaRegisterCryptoShaAPI :: "globals \<Rightarrow> globals res" where
  "luaRegisterCryptoShaAPI = register_into ''crypto'' [(''sha3_256'', ''sha3_256''), (''sha3_512'', ''sha3_512'')]"

definition luaRegisterUUIDAPI :: "globals \<Rightarrow> globals res" where
  "luaRegisterUUIDAPI = register_table ''uuid'' [(''uuid'', ''uuid'')]"

definition luaRegisterXmlAPI :: "globals \<Rightarrow> globals res" where
  "luaRegisterXmlAPI = register_table ''xml'' [(''decode'', ''xmlDecode''), (''encode'', ''xmlEncode'')]"

text \<open>\<open>debug\<close>: whether this is a build with \<open>_DEBUG\<close>.\<close>

definition luaRegisterAPI :: "bool \<Rightarrow> globals \<Rightarrow> globals res" where
  "luaRegisterAPI debug g =
     rfold (\<lambda>g f. f g) (g(''DEBUG_MODE'' \<mapsto> GBool debug))
       [luaRegisterCoreAPI, luaRegisterServiceAPI, luaRegisterFsAPI, luaRegisterConfigAPI, luaRegisterLogAPI,
        luaRegisterProtobufAPI, luaRegisterJsonAPI, luaRegisterMariadbAPI, luaRegisterHttpClientAPI,
        luaRegisterWebsocketServerAPI, luaRegisterTcpServerAPI, luaRegisterTcpClientAPI, luaRegisterRedisAPI,
        luaRegisterCryptoBase64API, luaRegisterCryptoRsaAPI, luaRegisterCryptoShaAPI, luaRegisterUUIDAPI,
        luaRegisterXmlAPI]"

section \<open>What scripts find\<close>

definition api_globals :: "string list" where
  "api_globals = [''DEBUG_MODE'', ''core'', ''fs'', ''config'', ''log'', ''proto'', ''json'', ''mysql'', ''httpClient'',
     ''websocketServer'', ''tcpServer'', ''tcpClient'', ''redis'', ''crypto'', ''uuid'', ''xml'']"

lemmas register_defs =
  luaRegisterCoreAPI_def luaRegisterServiceAPI_def luaRegisterFsAPI_def luaRegisterConfigAPI_def luaRegisterLogAPI_def
  luaRegisterProtobufAPI_def luaRegisterJsonAPI_def luaRegisterMariadbAPI_def luaRegisterHttpClientAPI_def
  luaRegisterWebsocketServerAPI_def luaRegisterTcpServerAPI_def luaRegisterTcpClientAPI_def luaRegisterRedisAPI_def
  luaRegisterCryptoBase64API_def luaRegisterCryptoRsaAPI_def luaRegisterCryptoShaAPI_def luaRegisterUUIDAPI_def
  luaRegisterXmlAPI_def register_table_def

text \<open>The sixteen globals, from the tables that \<open>core\<close> and \<open>crypto\<close> start from.\<close>

definition registered :: "bool \<Rightarrow> (string \<rightharpoonup> string) \<Rightarrow> (string \<rightharpoonup> string) \<Rightarrow> globals \<Rightarrow> globals" where
  "registered debug core crypto g = foldl (\<lambda>g (x, v). g(x \<mapsto> v)) g
     [(''DEBUG_MODE'', GBool debug),
      (''core'', GTable (fields_of [(''exit'', ''exit''), (''setEnv'', ''setEnv''), (''env'', ''env''), (''time'', ''time''),
         (''mstime'', ''mstime''), (''timer'', ''timer''), (''getInputChar'', ''luaGetChar''), (''print'', ''print''),
         (''newService'', ''newService''), (''queryService'', ''queryService''),
         (''destoryService'', ''destoryService''), (''send'', ''sendService'')] core)),
      (''fs'', GTable (fields_of [(''listdir'', ''listdir''), (''exists'', ''existsFs''), (''mkdir'', ''mkdir''), (''rmdir'', ''rmdir''),
         (''getFileName'', ''getFileName''), (''getFileExtension'', ''getFileExtension'')] Map.empty)),
      (''config'', GTable (fields_of [(''init'', ''initConfig''), (''getConfig'', ''getConfig''),
         (''getLine'', ''getConfigLine''), (''getValue'', ''getConfigValue'')] Map.empty)),
      (''log'', GTable (fields_of [(''debug'', ''debug''), (''info'', ''info''), (''warning'', ''warning''), (''error'', ''error'')] Map.empty)),
      (''proto'', GTable (fields_of [(''new'', ''newProto''), (''destroy'', ''destroyProto''),
         (''loadFile'', ''loadfileProto''), (''encode'', ''encodeProto''), (''decode'', ''decodeProto'')] Map.empty)),
      (''json'', GTable (fields_of [(''decode'', ''decode''), (''encode'', ''encode'')] Map.empty)),
      (''mysql'', GTable (fields_of [(''new'', ''newMariadb''), (''destroy'', ''destroyMariadb''),
         (''connect'', ''connectMariadb''), (''prepare'', ''prepareMariadb''), (''exec'', ''execMariadb''),
         (''stmtClose'', ''stmtCloseMariadb''), (''query'', ''queryMariadb'')] Map.empty)),
      (''httpClient'', GTable (fields_of [(''get'', ''httpGet''), (''post'', ''httpPost'')] Map.empty)),
      (''websocketServer'', GTable (fields_of [(''new'', ''newWebsocketServer''), (''destroy'', ''destroyWebsocketServer''),
         (''listen'', ''listenWebsocketServer''), (''send'', ''sendWebsocketServer''), (''close'', ''closeWebsocketServer'')] Map.empty)),
      (''tcpServer'', GTable (fields_of [(''new'', ''newTcpServer''), (''destroy'', ''destroyTcpServer''),
         (''listen'', ''listenTcpServer''), (''send'', ''sendTcpServer''), (''close'', ''closeTcpServer''),
         (''getRemoteInfo'', ''getRemoteInfoTcpServer'')] Map.empty)),
      (''tcpClient'', GTable (fields_of [(''new'', ''newTcpClient''), (''destroy'', ''destroyTcpClient''),
         (''connect'', ''connectTcpClient''), (''close'', ''closeTcpClient''), (''send'', ''sendTcpClient'')] Map.empty)),
      (''redis'', GTable (fields_of [(''new'', ''newRedis''), (''destroy'', ''destroyRedis''), (''cmd'', ''cmdRedis'')] Map.empty)),
      (''crypto'', GTable (fields_of [(''base64Encode'', ''base64_encode''), (''base64Decode'', ''base64_decode''),
         (''rsaGen'', ''rsa_gen''), (''rsaEncode'', ''rsa_encode''), (''rsaDecode'', ''rsa_decode''),
         (''sha3_256'', ''sha3_256''), (''sha3_512'', ''sha3_512'')] crypto)),
      (''uuid'', GTable (fields_of [(''uuid'', ''uuid'')] Map.empty)),
      (''xml'', GTable (fields_of [(''decode'', ''xmlDecode''), (''encode'', ''xmlEncode'')] Map.empty))]"

lemma register_into_free: "g name = None \<Longrightarrow> register_into name fs g = Ok (g(name \<mapsto> GTable (fields_of fs Map.empty)))"
  by (simp add: register_into_def)

lemma register_into_table: "g name = Some (GTable t) \<Longrightarrow> register_into name fs g = Ok (g(name \<mapsto> GTable (fields_of fs t)))"
  by (simp add: register_into_def)

lemma fields_of_append: "fields_of ys (fields_of xs t) = fields_of (xs @ ys) t"
  by (simp add: fields_of_def)

lemma foldl_updates: "foldl (\<lambda>g (x, v). g(x \<mapsto> v)) g kvs = g ++ map_of (rev kvs)"
proof (induction kvs rule: rev_induct)
  case (snoc e kvs)
  then show ?case by (cases e) (simp add: fun_eq_iff map_add_def)
qed simp

lemma map_add_again: "g ++ m ++ m = g ++ m"
  by (simp add: fun_eq_iff map_add_def split: option.split)

lemma registered_again: "registered debug core crypto (registered debug core crypto g) = registered debug core crypto g"
  unfolding registered_def foldl_updates by (rule map_add_again)

lemma fields_of_map: "fields_of fs t = t ++ map_of (rev fs)"
proof (induction fs rule: rev_induct)
  case (snoc e fs)
  then show ?case by (cases e) (simp add: fields_of_def fun_eq_iff map_add_def)
qed (simp add: fields_of_def)

lemma dom_fields_of: "dom (fields_of fs t) = dom t \<union> set (map fst fs)"
  by (auto simp: fields_of_map dom_map_of_conv_image_fst)

lemma fields_of_again:
  assumes "dom t \<subseteq> set (map fst fs)"
  shows "fields_of fs t = fields_of fs Map.empty"
proof -
  have "dom t \<subseteq> dom (map_of (rev fs))" using assms by (simp add: dom_map_of_conv_image_fst)
  then have "t ++ map_of (rev fs) = map_of (rev fs)"
    by (auto simp: fun_eq_iff map_add_def split: option.split)
  then show ?thesis by (simp add: fields_of_map)
qed

lemma luaRegisterAPI_run:
  assumes "g ''core'' = None \<and> core = Map.empty \<or> g ''core'' = Some (GTable core)"
    and "g ''crypto'' = None \<and> crypto = Map.empty \<or> g ''crypto'' = Some (GTable crypto)"
  shows "luaRegisterAPI debug g = Ok (registered debug core crypto g)"
  unfolding luaRegisterAPI_def register_defs
  using assms by (auto simp: register_into_free register_into_table fields_of_append registered_def)



end
