(* ===== verification/Spec2Isabelle.thy ===== *)
theory Spec2Isabelle
  imports Composition Shutdown CoreCalls Logging Mailbox ConfigStore Json Xml ProtoFacts Natives Mysql Redis Crypto Encode Fs Registration Boot
begin

text \<open>
  A development for 996Server, a game server in C++ whose logic is written in Lua
  (\<open>src/\<close> below is the directory of that name in the repository).

  \<^bold>\<open>The program.\<close>  \<open>main\<close> reads a configuration, which is itself a Lua script, sets up the log, makes a
  number of \<^emph>\<open>workers\<close> (threads) and runs a start script.  Scripts create \<^emph>\<open>services\<close>: a Lua state
  with a queue of messages.  A service is polled either by a worker of its own (a unique service) or by
  any worker that takes its number off a queue of free services.  Messages come from a global pool with a
  mutex; sending takes one out of the pool, fills it and appends it to the queue of a service, polling
  hands the queued messages to the script as tables and returns them to the pool.  The network
  components (TCP servers and clients, websocket servers, HTTP clients) and timers run on the main
  thread or on threads of their libraries and tell services what happened through the same pool.  All
  other components are calls of a script: configuration tables, JSON, XML, protobuf, MySQL, Redis,
  ciphers and digests, files, logging.

  \<^bold>\<open>How the model is built.\<close>  A C++ call that changes state is an \<open>op\<close> of theory \<open>Prelude\<close>: a function from a state to an
  outcome, \<open>Done\<close> with a result, \<open>Spin\<close> where its thread waits in \<open>while (!lock.try_lock())\<close> (or for a free
  worker), and \<open>Fault\<close> where it throws, uses a null or freed pointer, or leaves the defined behaviour of
  C++ otherwise.  A pure conversion of Lua values is a \<open>res\<close> of theory \<open>LuaValue\<close>: \<open>Ok\<close>, \<open>Raises\<close>, or \<open>Loops\<close>.
  The states are records, extended from one layer to the next: \<open>runtime\<close> (theory \<open>Runtime\<close>), \<open>core\<close>
  (\<open>LuaService\<close>), and \<open>tcp\<close>, \<open>tcpc\<close>, \<open>ws\<close>, \<open>http\<close> (one for each network component), so that a callback
  runs the runtime's own \<open>send\<close>.  Objects reached through pointers live on heaps (\<open>rtHeap\<close>, \<open>tcpHeap\<close>, ...)
  from addresses to records; \<open>std::map\<close> is a sorted association list, \<open>std::unordered_map\<close> a list
  whose order of iteration is a parameter where it can be seen; \<open>int32_t\<close> counters fault where they overflow, unsigned
  values are words, and every narrowing of a \<open>lua_Integer\<close> is written out.

  \<^bold>\<open>Theories and sources.\<close>
  \<^item> \<open>Prelude\<close>, \<open>Contracts\<close>: outcomes, mutexes, buffers, ordered maps; the interfaces as locales (a mutex in a field, \<open>std_map\<close>,
    a registry of numbered objects, an inductive invariant), each interpreted by the components that provide it.
  \<^item> \<open>ServiceMsg\<close>: \<open>src/service/msg\<close>, the messages and the pool.  \<open>Runtime\<close>, \<open>RuntimeFacts\<close>: \<open>src/service/service.cpp\<close>
    and \<open>serviceMgr.cpp\<close>.  \<open>Workers\<close>: \<open>src/worker\<close>.  \<open>LuaService\<close>: \<open>src/service/luaService.cpp\<close> and the calls of
    \<open>src/lua/luaApi.cpp\<close> on environment values, timers, paths and exit; \<open>CoreCalls\<close>: those on the clock and the terminal, the dumps of stacks,
    and \<open>src/uuid\<close>.
  \<^item> \<open>Scheduler\<close>, \<open>Ownership\<close>: the worker threads, the scripts inside \<open>newService\<close> and the main loop of \<open>src/main.cpp\<close>
    as one step relation.  \<open>Boot\<close>: \<open>src/main.cpp\<close> up to the start script; \<open>Shutdown\<close>: the end of the
    process and of the two managers.  \<open>Logging\<close>: \<open>src/log\<close>.
    \<open>Registration\<close>: which C function a script finds under which name.
  \<^item> \<open>Mailbox\<close>: the abstract queues that sending and polling implement.
  \<^item> \<open>Network\<close>, \<open>TcpServer\<close>, \<open>TcpFacts\<close>, \<open>TcpClient\<close>: \<open>src/socket\<close>; \<open>Websocket\<close>, \<open>WsFacts\<close>: \<open>src/websocket\<close>;
    \<open>HttpClient\<close>: \<open>src/http\<close>.  \<open>Composition\<close>: the server and its four network components as one step relation, in which
    every call belongs to a thread: a worker inside a script, the start script, asio's \<open>poll\<close> in the main loop, or ixwebsocket.
  \<^item> \<open>LuaValue\<close>: Lua values and the \<open>lua_next\<close> loop of all components below.  \<open>ConfigStore\<close>: \<open>src/config\<close>; \<open>Json\<close>: \<open>src/json\<close>; \<open>Xml\<close>: \<open>src/xml\<close>;
    \<open>Protobuf\<close>, \<open>ProtoFacts\<close>: \<open>src/protobuf\<close>; \<open>Mysql\<close>, \<open>Redis\<close>: \<open>src/sql\<close>; \<open>Natives\<close>: the objects of these libraries that
    scripts hold; \<open>CryptoUtil\<close>, \<open>Crypto\<close>: \<open>src/crypto\<close>; \<open>Encode\<close>: \<open>src/encode\<close>; \<open>Fs\<close>: \<open>src/fs\<close>.

  Definitions have the names of the functions they model, with the class as a prefix (\<open>ServiceMgr_send\<close> is
  \<open>ServiceMgr::send\<close>); a loop or a branch that became a definition of its own has a name in lower case.

  \<^bold>\<open>What is shown.\<close>
  \<^item> The runtime.  What \<open>send\<close>, \<open>poll\<close> and \<open>newService\<close> do on every branch, and that sends and polls refine abstract queues
    while no lock is held for good (\<open>Mailbox\<close>).  Then what the locks really do: \<open>ServiceMsgPool::pop\<close> never releases its
    mutex, so that a run of pool calls ends only if it takes no message before its last call; in every reachable state of the whole
    server no poll ever returns a message; and one queued message freezes the workers, the senders and the manager.
    Workers are used up by services, a service has one polling worker at a time, but the main loop can delete a service that is running,
    and two threads inside \<open>newService\<close> can give two services one number.  The process ends only after all
    workers, so that one of them that waits for ever keeps it alive (\<open>Shutdown\<close>).
  \<^item> The network.  Invariants of the session maps over any run of events (descriptors never reused, two maps that stay
    inverse, clients never shared by two requests), each call on every branch, and what happens to a read whose session a
    script has closed.  Whatever the components do between the steps of
    the server, the invariants of the runtime hold (\<open>Composition\<close>).
  \<^item> The conversions.  Round trips (JSON, protobuf, configuration values, hexadecimal texts, RSA over its hexadecimal form), where they end
    (\<open>decode\<close> of recursive message types, the XML decoder), what they lose (texts in XML), agreement of two decoders (MySQL) and of
    an optimised loop with its specification; the effect of a failing load or connection.

  The theorems about faults and endless waits state what the code does; the manifest lists them as findings.

  \<^bold>\<open>Bounds, fuel and ends.\<close>  A thread that waits for ever is the value \<open>Spin\<close>, so that no busy loop is run.  The \<open>lua_next\<close> loop
  can visit entries again when its body converts a key: it runs with as many steps as the table has entries, which lemma
  \<open>walk_forever\<close> shows to be enough (a walk that is not over then never ends).  The protobuf decoder is a \<open>partial_function\<close>: not coming back is
  \<open>None\<close>, and theorem \<open>proto_decode_returns_iff\<close> says when it comes back.  All other loops are structural or have a measure.

  \<^bold>\<open>Steps.\<close>  Between two accesses to state that the code protects by a mutex, a call counts as one step; the step relation cuts
  \<open>newService\<close>, \<open>poll\<close>, the destruction of services and the joins where other threads can come in.  The one unprotected counter is treated by a
  theorem of its own (\<open>racing_newService\<close>), which interleaves its reads and writes.  Callbacks of the network libraries
  run whole.

  \<^bold>\<open>Parameters.\<close>  Code that is not in the repository is an argument: asio, ixwebsocket, cJSON, libxml2, protobuf, the MySQL client, hiredis,
  Crypto++, ICU, spdlog's sinks, the answers of the operating system, the printing of floating-point numbers and what a script does when it is
  called.  Hypotheses about them are those their documentation gives: a parser reads back what its printer
  wrote, a decryption what its encryption made, an allocator hands out addresses that are not in use.

  \<^bold>\<open>Not modelled.\<close>  Lua scripts (\<open>src/lualib\<close>, \<open>src/services\<close>): a script is any sequence of calls.  Lua values are finite tables
  without metatables.  The help text.  The destructors of the other singletons never run.
  Encodings are the list of the names of the enumeration and not a datatype of 139
  constructors, whose checking takes longer than the rest of the development.
\<close>

end
